(* ===== verification/Prelude.thy ===== *)
theory Prelude
  imports Complex_Main "HOL-Library.Word" "HOL-Library.Signed_Division"
begin

section \<open>Shared types, C arithmetic, memory access and mutexes\<close>

text \<open>
  What every component of the daemon uses.

  \<^item> \<open>u8\<close> \<dots> \<open>u64\<close> are C's unsigned integers at their width. Signed 64-bit
    integers (\<open>int64_t\<close>, \<open>time_t\<close>) are \<open>int\<close>, and every operation on them that
    can leave the range goes through \<open>i64\<close>, because signed overflow is undefined in C.
  \<^item> \<open>'a run\<close> is the outcome of running a piece of C: \<open>Inr x\<close> when it returns
    \<open>x\<close>; \<open>Inl Undefined\<close> when it leaves the language (signed overflow, an access
    outside an object, unlocking a mutex that is not held); \<open>Inl Deadlock\<close> when
    the thread waits for a mutex that it holds itself and so never goes on;
    \<open>Inl Diverges\<close> when a loop does not end.
  \<^item> \<open>mem_read\<close> reads one byte of a buffer.
  \<^item> \<open>with_mutex\<close> is a critical section; the locale \<open>mutex\<close> states what a mutex
    flag of a component's state must satisfy, and proves what follows for critical
    sections. Every component with a mutex interprets it.
  Log output (\<open>syslog\<close>) is left out of the whole development.
\<close>

unbundle bit_operations_syntax

type_synonym u8 = "8 word"
type_synonym u16 = "16 word"
type_synonym u32 = "32 word"
type_synonym u64 = "64 word"

named_theorems model_simps \<open>definitions of the model's small helpers\<close>

declare pos_imp_zdiv_nonneg_iff [simp]

subsection \<open>Outcomes\<close>

datatype stuck = Deadlock | Undefined | Diverges

type_synonym 'a run = "stuck + 'a"

definition bindR :: "'a run \<Rightarrow> ('a \<Rightarrow> 'b run) \<Rightarrow> 'b run" where
  "bindR m f = (case m of Inl e \<Rightarrow> Inl e | Inr x \<Rightarrow> f x)"

lemma bindR_simps [simp]:
  "bindR (Inl e) f = Inl e"
  "bindR (Inr x) f = f x"
  by (simp_all add: bindR_def)

lemma bindR_eq_Inr_iff:
  "bindR m f = Inr y \<longleftrightarrow> (\<exists>x. m = Inr x \<and> f x = Inr y)"
  by (cases m) auto

lemma bindR_eq_InrE:
  assumes "bindR m f = Inr y"
  obtains x where "m = Inr x" and "f x = Inr y"
  using assms by (auto simp: bindR_eq_Inr_iff)

lemma bindR_assoc: "bindR (bindR m f) g = bindR m (\<lambda>x. bindR (f x) g)"
  by (cases m) auto

lemma bindR_Inr_right [simp]: "bindR m Inr = m"
  by (cases m) auto

text \<open>The outcome is a value: the piece of code returns.\<close>

definition returns :: "'a run \<Rightarrow> bool" where
  "returns m \<longleftrightarrow> (case m of Inl _ \<Rightarrow> False | Inr _ \<Rightarrow> True)"

lemma returns_simps [simp]: "returns (Inr x)" "\<not> returns (Inl e)"
  by (simp_all add: returns_def)

lemma returns_iff: "returns m \<longleftrightarrow> (\<exists>x. m = Inr x)"
  by (cases m) auto

lemma returns_bindR: "returns (bindR m f) \<longleftrightarrow> (\<exists>x. m = Inr x \<and> returns (f x))"
  by (cases m) auto

lemma returns_bindR_I:
  "returns m \<Longrightarrow> (\<And>x. m = Inr x \<Longrightarrow> returns (f x)) \<Longrightarrow> returns (bindR m f)"
  by (auto simp: returns_bindR returns_iff)

subsection \<open>Signed integers\<close>

definition in_i64 :: "int \<Rightarrow> bool" where
  "in_i64 x \<longleftrightarrow> - (2 ^ 63) \<le> x \<and> x < 2 ^ 63"

definition i64 :: "int \<Rightarrow> int run" where
  "i64 x = (if in_i64 x then Inr x else Inl Undefined)"

definition in_i32 :: "int \<Rightarrow> bool" where
  "in_i32 x \<longleftrightarrow> - (2 ^ 31) \<le> x \<and> x < 2 ^ 31"

lemma i64_ok [simp]: "in_i64 x \<Longrightarrow> i64 x = Inr x"
  by (simp add: i64_def)

lemma i64_eq_Inr_iff [simp]: "i64 x = Inr y \<longleftrightarrow> y = x \<and> in_i64 x"
  by (auto simp: i64_def)

lemma in_i64_I: "- 9223372036854775808 \<le> x \<Longrightarrow> x \<le> 9223372036854775807 \<Longrightarrow> in_i64 x"
  by (simp add: in_i64_def)

lemma in_i64_iff:
  "in_i64 x \<longleftrightarrow> - 9223372036854775808 \<le> x \<and> x \<le> 9223372036854775807"
  by (auto simp: in_i64_def)

text \<open>
  C's \<open>/\<close> and \<open>%\<close> truncate towards zero: \<open>sdiv\<close> and \<open>smod\<close>. For a
  positive divisor the quotient is the floor for non-negative dividends and the
  ceiling for negative ones.
\<close>

lemma sdiv_pos_eq:
  fixes a b :: int
  assumes "0 < b"
  shows "a sdiv b = (if 0 \<le> a then a div b else - ((- a) div b))"
  using assms by (auto simp: signed_divide_int_def sgn_if)

lemma smod_pos_eq:
  fixes a b :: int
  assumes "0 < b"
  shows "a smod b = (if 0 \<le> a then a mod b else - ((- a) mod b))"
  using assms by (auto simp: signed_modulo_int_def sgn_if)

lemma sdiv_smod:
  fixes x b :: int
  assumes "0 < b"
  shows "x sdiv b * b + x smod b = x" "- b < x smod b" "x smod b < b"
proof -
  obtain q r where y: "\<bar>x\<bar> div b = q" "\<bar>x\<bar> mod b = r" by blast
  have "q * b + r = \<bar>x\<bar>" "0 \<le> r" "r < b"
    using div_mult_mod_eq [of "\<bar>x\<bar>" b] assms by (auto simp: y [symmetric])
  moreover have "x sdiv b = (if 0 \<le> x then q else - q)" "x smod b = (if 0 \<le> x then r else - r)"
    using assms by (auto simp: sdiv_pos_eq smod_pos_eq y [symmetric])
  ultimately show "x sdiv b * b + x smod b = x" "- b < x smod b" "x smod b < b"
    using assms by (auto split: if_splits)
qed

lemma abs_sdiv_le:
  fixes a b :: int
  assumes "0 < b"
  shows "\<bar>a sdiv b\<bar> \<le> \<bar>a\<bar>"
proof -
  have "\<bar>a\<bar> div b \<le> \<bar>a\<bar>"
    using assms zdiv_mono2 [of "\<bar>a\<bar>" 1 b] by simp
  moreover have "0 \<le> \<bar>a\<bar> div b" using assms by (simp add: pos_imp_zdiv_nonneg_iff)
  moreover have "\<bar>a sdiv b\<bar> = \<bar>a\<bar> div b"
    using assms calculation(2) by (auto simp: sdiv_pos_eq)
  ultimately show ?thesis by simp
qed

subsection \<open>Floating point\<close>

text \<open>
  The daemon's frequency and jitter computations are in \<open>double\<close> and \<open>long double\<close>. A
  finite floating-point number is a rational; the results of the machine's arithmetic
  depend on its format, so the arithmetic is a parameter of the model: \<open>rndf\<close>, \<open>rnd\<close> and
  \<open>rndl\<close> round an exact result to a \<open>float\<close>, a \<open>double\<close> and a \<open>long double\<close>, and \<open>fsqrt\<close> and
  \<open>fsqrtl\<close> are the library's square roots. No value of these computations gets near
  the range where they overflow to infinity. What a statement needs of the rounding
  (\<open>fpu_ok\<close>) is IEEE 754's: rounding is monotone and keeps the integers up to \<open>2^53\<close> and their binary fractions.
\<close>

record fpu =
  rndf :: "rat \<Rightarrow> rat"
  rnd :: "rat \<Rightarrow> rat"
  rndl :: "rat \<Rightarrow> rat"
  fsqrt :: "rat \<Rightarrow> rat"
  fsqrtl :: "rat \<Rightarrow> rat"

definition fpu_ok :: "fpu \<Rightarrow> bool" where
  "fpu_ok F \<longleftrightarrow> mono (rnd F) \<and>
     (\<forall>i k. \<bar>i\<bar> \<le> 2 ^ 53 \<longrightarrow> k \<le> 1000 \<longrightarrow> rnd F (of_int i / 2 ^ k) = of_int i / 2 ^ k)"

definition exact_fpu :: fpu where
  "exact_fpu = \<lparr>rndf = (\<lambda>x. x), rnd = (\<lambda>x. x), rndl = (\<lambda>x. x), fsqrt = (\<lambda>x. x), fsqrtl = (\<lambda>x. x)\<rparr>"

lemma exact_fpu_ok: "fpu_ok exact_fpu"
  by (simp add: fpu_ok_def exact_fpu_def mono_def)

lemma fpu_ok_mono: "fpu_ok F \<Longrightarrow> x \<le> y \<Longrightarrow> rnd F x \<le> rnd F y"
  by (simp add: fpu_ok_def mono_def)

lemma fpu_ok_int: "fpu_ok F \<Longrightarrow> \<bar>i\<bar> \<le> 2 ^ 53 \<Longrightarrow> rnd F (of_int i) = of_int i"
  unfolding fpu_ok_def by (metis div_by_1 le0 power_0)

lemma fpu_ok_bound:
  assumes "fpu_ok F" "\<bar>i\<bar> \<le> 2 ^ 53" "\<bar>x\<bar> \<le> of_int i"
  shows "\<bar>rnd F x\<bar> \<le> of_int i"
proof -
  have "x \<le> of_int i" "of_int (- i) \<le> x" using assms(3) by auto
  then have "rnd F x \<le> rnd F (of_int i)" "rnd F (of_int (- i)) \<le> rnd F x"
    using assms(1) by (auto intro: fpu_ok_mono)
  then show ?thesis
    using fpu_ok_int [OF assms(1,2)] fpu_ok_int [OF assms(1), of "- i"] assms(2) by auto
qed

text \<open>What \<open>strtod\<close> can return: it also reads infinities and NaN.\<close>

datatype fval = Finite rat | PosInf | NegInf | NaN

text \<open>C's conversion of a floating-point value to an integer drops the fraction.\<close>

definition trunc :: "rat \<Rightarrow> int" where
  "trunc x = (if 0 \<le> x then \<lfloor>x\<rfloor> else \<lceil>x\<rceil>)"

subsection \<open>Buffers\<close>

definition mem_read :: "u8 list \<Rightarrow> nat \<Rightarrow> u8 run" where
  "mem_read buf i = (if i < length buf then Inr (buf ! i) else Inl Undefined)"

definition mem_slice :: "u8 list \<Rightarrow> nat \<Rightarrow> nat \<Rightarrow> u8 list run" where
  "mem_slice buf i n = (if i + n \<le> length buf then Inr (take n (drop i buf)) else Inl Undefined)"

lemma mem_read_ok [simp]: "i < length buf \<Longrightarrow> mem_read buf i = Inr (buf ! i)"
  by (simp add: mem_read_def)

lemma mem_slice_ok [simp]:
  "i + n \<le> length buf \<Longrightarrow> mem_slice buf i n = Inr (take n (drop i buf))"
  by (simp add: mem_slice_def)

lemma mem_read_eq_Inr_iff: "mem_read buf i = Inr b \<longleftrightarrow> i < length buf \<and> b = buf ! i"
  by (auto simp: mem_read_def)

lemma mem_slice_eq_Inr_iff:
  "mem_slice buf i n = Inr bs \<longleftrightarrow> i + n \<le> length buf \<and> bs = take n (drop i buf)"
  by (auto simp: mem_slice_def)

subsection \<open>Mutexes\<close>

text \<open>
  A critical section between \<open>pthread_mutex_lock\<close> and the \<open>pthread_mutex_unlock\<close>
  on every way out. The flag says that the running thread holds the mutex; the
  mutexes of the program are initialised with \<open>PTHREAD_MUTEX_INITIALIZER\<close>, so a
  thread that locks one it already holds waits for itself.
\<close>

definition with_mutex ::
    "('s \<Rightarrow> bool) \<Rightarrow> (bool \<Rightarrow> 's \<Rightarrow> 's) \<Rightarrow> ('s \<Rightarrow> ('a \<times> 's) run) \<Rightarrow> 's \<Rightarrow> ('a \<times> 's) run" where
  "with_mutex held set_held body s =
     (if held s then Inl Deadlock
      else bindR (body (set_held True s))
             (\<lambda>(r, s'). if held s' then Inr (r, set_held False s') else Inl Undefined))"

locale mutex =
  fixes held :: "'s \<Rightarrow> bool"
    and set_held :: "bool \<Rightarrow> 's \<Rightarrow> 's"
  assumes held_set: "held (set_held b s) = b"
    and set_set: "set_held b (set_held c s) = set_held b s"
    and set_same: "held s = b \<Longrightarrow> set_held b s = s"
begin

lemma relock_deadlocks: "held s \<Longrightarrow> with_mutex held set_held body s = Inl Deadlock"
  by (simp add: with_mutex_def)

lemma nested_deadlocks:
  "with_mutex held set_held (\<lambda>t. bindR (with_mutex held set_held body t) k) s = Inl Deadlock"
  by (simp add: with_mutex_def held_set)

lemma section_returns:
  assumes "\<not> held s" and "body (set_held True s) = Inr (r, s')" and "held s'"
  shows "with_mutex held set_held body s = Inr (r, set_held False s')"
  using assms by (simp add: with_mutex_def)

lemma section_reads:
  assumes "\<not> held s" and "\<And>t. body t = Inr (f t, t)" and "\<And>b t. f (set_held b t) = f t"
  shows "with_mutex held set_held body s = Inr (f s, s)"
  using assms by (simp add: with_mutex_def held_set set_set set_same)

lemma section_leaves_unlocked:
  "with_mutex held set_held body s = Inr (r, s') \<Longrightarrow> \<not> held s \<and> \<not> held s'"
  by (auto simp: with_mutex_def bindR_eq_Inr_iff held_set split: if_splits)

end

end
