(* ===== verification/Bytes.thy ===== *)
theory Bytes
  imports Prelude
begin

section \<open>Big-endian words in buffers (ntpd.c)\<close>

text \<open>
  \<open>read_u32be\<close> and \<open>write_u32be\<close> of ntpd.c on a buffer and an offset, where C
  passes a pointer into the buffer. Both fail (\<open>Undefined\<close>) when one of the four
  bytes lies outside it. \<open>u32_of_bytes\<close> and \<open>u32_to_bytes\<close> are the arithmetic
  of the two functions; the locale \<open>wire_codec\<close> states what a fixed-width encoding
  promises, and is interpreted here for words and for NTP timestamps, and in Packet
  for the whole header.
\<close>

subsection \<open>The arithmetic\<close>

definition u32_of_bytes :: "u8 \<Rightarrow> u8 \<Rightarrow> u8 \<Rightarrow> u8 \<Rightarrow> u32" where
  "u32_of_bytes b0 b1 b2 b3 =
     push_bit 24 (ucast b0) OR push_bit 16 (ucast b1) OR push_bit 8 (ucast b2) OR ucast b3"

definition u32_to_bytes :: "u32 \<Rightarrow> u8 list" where
  "u32_to_bytes v = [ucast (drop_bit 24 v), ucast (drop_bit 16 v), ucast (drop_bit 8 v), ucast v]"

definition u16_of_bytes :: "u8 \<Rightarrow> u8 \<Rightarrow> u16" where
  "u16_of_bytes b0 b1 = push_bit 8 (ucast b0) OR ucast b1"

subsection \<open>The functions\<close>

definition read_u32be :: "u8 list \<Rightarrow> nat \<Rightarrow> u32 run" where
  "read_u32be buf i =
     bindR (mem_read buf i) (\<lambda>b0. bindR (mem_read buf (i + 1)) (\<lambda>b1.
     bindR (mem_read buf (i + 2)) (\<lambda>b2. bindR (mem_read buf (i + 3)) (\<lambda>b3.
       Inr (u32_of_bytes b0 b1 b2 b3)))))"

definition write_u32be :: "u8 list \<Rightarrow> nat \<Rightarrow> u32 \<Rightarrow> u8 list run" where
  "write_u32be buf i v =
     (if i + 3 < length buf then
        Inr (buf[i := ucast (drop_bit 24 v), i + 1 := ucast (drop_bit 16 v),
                 i + 2 := ucast (drop_bit 8 v), i + 3 := ucast v])
      else Inl Undefined)"

record NtpTimestamp =
  ts_sec :: u32
  ts_frac :: u32

definition ts_bytes :: "NtpTimestamp \<Rightarrow> u8 list" where
  "ts_bytes t = u32_to_bytes (ts_sec t) @ u32_to_bytes (ts_frac t)"

subsection \<open>Round trips\<close>

lemma u32_of_to_bytes:
  "u32_of_bytes (ucast (drop_bit 24 v)) (ucast (drop_bit 16 v)) (ucast (drop_bit 8 v)) (ucast v) = v"
proof (rule bit_word_eqI)
  fix n assume "n < LENGTH(32)"
  then have "n < 8 \<or> (8 \<le> n \<and> n < 16) \<or> (16 \<le> n \<and> n < 24) \<or> (24 \<le> n \<and> n < 32)" by auto
  then show "bit (u32_of_bytes (ucast (drop_bit 24 v)) (ucast (drop_bit 16 v))
      (ucast (drop_bit 8 v)) (ucast v)) n = bit v n"
    by (auto simp: u32_of_bytes_def bit_simps)
qed

lemma u32_to_of_bytes: "u32_to_bytes (u32_of_bytes b0 b1 b2 b3) = [b0, b1, b2, b3]"
  by (auto simp: u32_of_bytes_def u32_to_bytes_def intro!: bit_word_eqI)
    (auto simp: bit_simps dest: bit_imp_le_length)

lemma length_u32_to_bytes [simp]: "length (u32_to_bytes v) = 4"
  by (simp add: u32_to_bytes_def)

lemma length_ts_bytes [simp]: "length (ts_bytes t) = 8"
  by (simp add: ts_bytes_def)

subsection \<open>The interface of a fixed-width encoding\<close>

locale wire_codec =
  fixes width :: nat
    and enc :: "'a \<Rightarrow> u8 list"
    and dec :: "u8 list \<Rightarrow> 'a"
  assumes enc_length: "length (enc x) = width"
    and dec_enc: "dec (enc x) = x"
    and enc_dec: "length bs = width \<Longrightarrow> enc (dec bs) = bs"
begin

lemma enc_inject: "enc x = enc y \<longleftrightarrow> x = y"
  using dec_enc by metis

lemma dec_inject: "length bs = width \<Longrightarrow> length cs = width \<Longrightarrow> dec bs = dec cs \<longleftrightarrow> bs = cs"
  using enc_dec by metis

lemma dec_at: "dec (take width (drop (length pre) (pre @ enc x @ post))) = x"
  by (simp add: enc_length dec_enc)

end

definition u32_dec :: "u8 list \<Rightarrow> u32" where
  "u32_dec bs = u32_of_bytes (bs ! 0) (bs ! 1) (bs ! 2) (bs ! 3)"

definition ts_dec :: "u8 list \<Rightarrow> NtpTimestamp" where
  "ts_dec bs = \<lparr>ts_sec = u32_dec (take 4 bs), ts_frac = u32_dec (drop 4 bs)\<rparr>"

lemma length_4_cases:
  assumes "length bs = 4"
  obtains a b c d where "bs = [a, b, c, d]"
  using assms by (auto simp: numeral_eq_Suc length_Suc_conv)

interpretation u32c: wire_codec 4 u32_to_bytes u32_dec
proof unfold_locales
  fix x :: u32 show "u32_dec (u32_to_bytes x) = x"
    by (simp add: u32_dec_def u32_to_bytes_def u32_of_to_bytes)
next
  fix bs :: "u8 list" assume "length bs = 4"
  then show "u32_to_bytes (u32_dec bs) = bs"
    by (auto elim!: length_4_cases simp: u32_dec_def u32_to_of_bytes)
qed simp

interpretation tsc: wire_codec 8 ts_bytes ts_dec
proof unfold_locales
  fix x :: NtpTimestamp show "ts_dec (ts_bytes x) = x"
    by (simp add: ts_dec_def ts_bytes_def u32c.dec_enc)
next
  fix bs :: "u8 list" assume "length bs = 8"
  then show "ts_bytes (ts_dec bs) = bs"
    by (simp add: ts_dec_def ts_bytes_def u32c.enc_dec)
qed simp

subsection \<open>The functions are the encoding, at an offset\<close>

lemma read_u32be_eq:
  "read_u32be buf i =
     (if i + 3 < length buf then Inr (u32_dec (take 4 (drop i buf))) else Inl Undefined)"
  by (auto simp: read_u32be_def mem_read_def u32_dec_def nth_take add.commute)

lemma take_4_drop:
  assumes "i + 3 < length buf"
  shows "take 4 (drop i buf) = [buf ! i, buf ! (i + 1), buf ! (i + 2), buf ! (i + 3)]"
  using assms by (intro nth_equalityI) (auto simp: nth_Cons' numeral_eq_Suc less_Suc_eq)

lemma write_u32be_eq:
  "write_u32be buf i v =
     (if i + 3 < length buf then Inr (take i buf @ u32_to_bytes v @ drop (i + 4) buf)
      else Inl Undefined)"
proof (cases "i + 3 < length buf")
  case True
  then have "buf[i := ucast (drop_bit 24 v), i + 1 := ucast (drop_bit 16 v),
                 i + 2 := ucast (drop_bit 8 v), i + 3 := ucast v]
      = take i buf @ u32_to_bytes v @ drop (i + 4) buf"
    by (intro nth_equalityI)
      (auto simp: u32_to_bytes_def nth_append nth_list_update nth_Cons' less_Suc_eq numeral_eq_Suc
        intro!: arg_cong [where f = "(!) buf"])
  with True show ?thesis by (simp add: write_u32be_def)
qed (simp add: write_u32be_def)

lemma write_u32be_length: "write_u32be buf i v = Inr buf' \<Longrightarrow> length buf' = length buf"
  by (auto simp: write_u32be_def split: if_splits)

lemma read_write_u32be:
  "write_u32be buf i v = Inr buf' \<Longrightarrow> read_u32be buf' i = Inr v"
  using u32c.dec_enc [of v]
  by (auto simp: write_u32be_eq read_u32be_eq split: if_splits)

lemma read_write_u32be_other:
  assumes "write_u32be buf i v = Inr buf'" and "j + 4 \<le> i \<or> i + 4 \<le> j"
  shows "read_u32be buf' j = read_u32be buf j"
proof -
  from assms(1) have b: "i + 3 < length buf"
    "buf' = buf[i := ucast (drop_bit 24 v), i + 1 := ucast (drop_bit 16 v),
                 i + 2 := ucast (drop_bit 8 v), i + 3 := ucast v]"
    by (auto simp: write_u32be_def split: if_splits)
  then have "\<And>k. k < 4 \<Longrightarrow> mem_read buf' (j + k) = mem_read buf (j + k)"
    using assms(2) by (auto simp: mem_read_def nth_list_update)
  from this [of 0] this [of 1] this [of 2] this [of 3]
  show ?thesis by (simp add: read_u32be_def)
qed

end
