(* ===== verification/Ido.thy ===== *)
theory Ido
  imports Prelude
begin

section \<open>I-DO capability negotiation (ido.c, ido.h)\<close>

text \<open>
  The state machine that tracks I-DO and Autokey offers and responses. \<open>IdoState\<close> is
  the C struct, its enum kept in a byte as in C. A pointer that C tests against
  \<open>NULL\<close> is an option. Functions that read the field data return a \<open>run\<close>, since
  they trust the length they are given.

  The locale \<open>negotiation\<close> is the contract of the three entry points that ntp_packet.c
  calls (process, skip, state machine). Autokey implements the same contract on the
  same state; both interpret it.
\<close>

subsection \<open>Constants and state\<close>

abbreviation IDO_STATE_IDLE :: u8 where "IDO_STATE_IDLE \<equiv> 0"
abbreviation IDO_STATE_OFFER_RECEIVED :: u8 where "IDO_STATE_OFFER_RECEIVED \<equiv> 1"
abbreviation IDO_STATE_RESPONSE_SENT :: u8 where "IDO_STATE_RESPONSE_SENT \<equiv> 2"
abbreviation IDO_STATE_AUTHENTICATED :: u8 where "IDO_STATE_AUTHENTICATED \<equiv> 3"
abbreviation IDO_STATE_REJECTED :: u8 where "IDO_STATE_REJECTED \<equiv> 4"

abbreviation IDO_EVENT_OFFER_RECEIVED :: u8 where "IDO_EVENT_OFFER_RECEIVED \<equiv> 1"
abbreviation IDO_EVENT_RESPONSE_SENT :: u8 where "IDO_EVENT_RESPONSE_SENT \<equiv> 2"
abbreviation IDO_EVENT_AUTH_ESTABLISHED :: u8 where "IDO_EVENT_AUTH_ESTABLISHED \<equiv> 3"
abbreviation IDO_EVENT_NEGOTIATION_FAILED :: u8 where "IDO_EVENT_NEGOTIATION_FAILED \<equiv> 4"

abbreviation IDO_EF_TYPE_OFFER :: u16 where "IDO_EF_TYPE_OFFER \<equiv> 0x0007"
abbreviation IDO_EF_TYPE_RESPONSE :: u16 where "IDO_EF_TYPE_RESPONSE \<equiv> 0x8007"
abbreviation IDO_EF_AUTOKEY_OFFER :: u16 where "IDO_EF_AUTOKEY_OFFER \<equiv> 0x000A"
abbreviation IDO_EF_AUTOKEY_RESPONSE :: u16 where "IDO_EF_AUTOKEY_RESPONSE \<equiv> 0x800A"

abbreviation IDO_MIN_EF_LENGTH :: u8 where "IDO_MIN_EF_LENGTH \<equiv> 4"

record IdoState =
  ido_state :: u8
  ido_offer_received :: u8
  ido_response_sent :: u8
  ido_capabilities :: u8
  ido_key_id :: u8
  ido_key :: "u8 list"
  ido_enabled :: u8
  ido_authenticated :: u8

definition ido_zero :: IdoState where
  "ido_zero = \<lparr>ido_state = IDO_STATE_IDLE, ido_offer_received = 0, ido_response_sent = 0,
     ido_capabilities = 0, ido_key_id = 0, ido_key = replicate 20 0, ido_enabled = 0,
     ido_authenticated = 0\<rparr>"

definition ido_state_init :: "IdoState option \<Rightarrow> IdoState option" where
  "ido_state_init p = (case p of None \<Rightarrow> None | Some _ \<Rightarrow> Some ido_zero)"

definition ido_state_cleanup :: "IdoState option \<Rightarrow> IdoState option" where
  "ido_state_cleanup p = (case p of None \<Rightarrow> None | Some st \<Rightarrow> ido_state_init (Some st))"

subsection \<open>Processing offers and responses\<close>

text \<open>The flags are read when there is data and the length admits it.\<close>

definition take_capabilities :: "u8 list option \<Rightarrow> u8 \<Rightarrow> IdoState \<Rightarrow> IdoState run" where
  "take_capabilities ef_data ef_length st =
     (case ef_data of
        None \<Rightarrow> Inr st
      | Some d \<Rightarrow>
          if 4 \<le> ef_length then
            bindR (mem_read d 0) (\<lambda>flags.
              if 0 < ef_length then Inr (st\<lparr>ido_capabilities := flags AND 7\<rparr>) else Inr st)
          else Inr st)"

definition ido_process_offer ::
    "IdoState option \<Rightarrow> u16 \<Rightarrow> u8 \<Rightarrow> u8 list option \<Rightarrow> (bool \<times> IdoState option) run" where
  "ido_process_offer p ef_type ef_length ef_data =
     (case p of None \<Rightarrow> Inr (False, None) | Some st \<Rightarrow>
      if ef_type \<noteq> IDO_EF_TYPE_OFFER \<and> ef_type \<noteq> IDO_EF_AUTOKEY_OFFER then Inr (False, Some st)
      else if ef_length < IDO_MIN_EF_LENGTH \<or> 48 < ef_length then Inr (False, Some st)
      else bindR (take_capabilities ef_data ef_length st) (\<lambda>st1.
        Inr (True, Some (st1\<lparr>ido_offer_received := 1, ido_state := IDO_STATE_OFFER_RECEIVED\<rparr>))))"

definition ido_process_response ::
    "IdoState option \<Rightarrow> u16 \<Rightarrow> u8 \<Rightarrow> u8 list option \<Rightarrow> (bool \<times> IdoState option) run" where
  "ido_process_response p ef_type ef_length ef_data =
     (case p of None \<Rightarrow> Inr (False, None) | Some st \<Rightarrow>
      if ef_type \<noteq> IDO_EF_TYPE_RESPONSE \<and> ef_type \<noteq> IDO_EF_AUTOKEY_RESPONSE then Inr (False, Some st)
      else if ef_length < IDO_MIN_EF_LENGTH \<or> 48 < ef_length then Inr (False, Some st)
      else bindR (take_capabilities ef_data ef_length st) (\<lambda>st1.
        Inr (True, Some (st1\<lparr>ido_response_sent := 1, ido_state := IDO_STATE_AUTHENTICATED,
                             ido_authenticated := 1\<rparr>))))"

definition ido_process ::
    "IdoState option \<Rightarrow> u16 \<Rightarrow> u8 \<Rightarrow> u8 list option \<Rightarrow> (bool \<times> IdoState option) run" where
  "ido_process p ef_type ef_length ef_data =
     (if p = None \<or> ef_data = None then Inr (False, p)
      else if ef_type = IDO_EF_TYPE_OFFER \<or> ef_type = IDO_EF_AUTOKEY_OFFER
        then ido_process_offer p ef_type ef_length ef_data
      else if ef_type = IDO_EF_TYPE_RESPONSE \<or> ef_type = IDO_EF_AUTOKEY_RESPONSE
        then ido_process_response p ef_type ef_length ef_data
      else Inr (False, p))"

definition ido_process_skip :: "IdoState option \<Rightarrow> u16 \<Rightarrow> u8 \<Rightarrow> bool \<times> IdoState option" where
  "ido_process_skip p ef_type ef_length =
     (if ef_type \<noteq> IDO_EF_TYPE_OFFER \<and> ef_type \<noteq> IDO_EF_TYPE_RESPONSE \<and>
         ef_type \<noteq> IDO_EF_AUTOKEY_OFFER \<and> ef_type \<noteq> IDO_EF_AUTOKEY_RESPONSE then (False, p)
      else if ef_length < IDO_MIN_EF_LENGTH \<or> 48 < ef_length then (False, p)
      else (case p of None \<Rightarrow> (False, None) | Some st \<Rightarrow>
        if ef_type = IDO_EF_TYPE_OFFER \<or> ef_type = IDO_EF_AUTOKEY_OFFER
          then (True, Some (st\<lparr>ido_offer_received := 1\<rparr>))
        else if ef_type = IDO_EF_TYPE_RESPONSE \<or> ef_type = IDO_EF_AUTOKEY_RESPONSE
          then (True, Some (st\<lparr>ido_response_sent := 1\<rparr>))
        else (True, Some st)))"

subsection \<open>The event-driven state machine and the queries\<close>

definition ido_state_machine :: "IdoState option \<Rightarrow> u8 \<Rightarrow> u8 \<times> IdoState option" where
  "ido_state_machine p event =
     (case p of None \<Rightarrow> (IDO_STATE_IDLE, None) | Some st \<Rightarrow>
      let new_state =
        (if event = IDO_EVENT_OFFER_RECEIVED then
           (if ido_state st = IDO_STATE_IDLE then IDO_STATE_OFFER_RECEIVED else ido_state st)
         else if event = IDO_EVENT_RESPONSE_SENT then
           (if ido_state st = IDO_STATE_OFFER_RECEIVED then IDO_STATE_RESPONSE_SENT else ido_state st)
         else if event = IDO_EVENT_AUTH_ESTABLISHED then
           (if ido_state st = IDO_STATE_RESPONSE_SENT then IDO_STATE_AUTHENTICATED else ido_state st)
         else if event = IDO_EVENT_NEGOTIATION_FAILED then IDO_STATE_REJECTED
         else ido_state st)
      in (new_state,
          Some (if new_state \<noteq> ido_state st then st\<lparr>ido_state := new_state\<rparr> else st)))"

definition ido_is_authenticated :: "IdoState option \<Rightarrow> bool" where
  "ido_is_authenticated p = (case p of None \<Rightarrow> False | Some st \<Rightarrow> ido_authenticated st \<noteq> 0)"

definition ido_state_name :: "u8 \<Rightarrow> string" where
  "ido_state_name s =
     (if s = IDO_STATE_IDLE then ''IDLE''
      else if s = IDO_STATE_OFFER_RECEIVED then ''OFFER_RECEIVED''
      else if s = IDO_STATE_RESPONSE_SENT then ''RESPONSE_SENT''
      else if s = IDO_STATE_AUTHENTICATED then ''AUTHENTICATED''
      else if s = IDO_STATE_REJECTED then ''REJECTED''
      else ''UNKNOWN'')"

definition ido_capability_name :: "u8 \<Rightarrow> string" where
  "ido_capability_name flag =
     (if flag = 1 then ''IDO_CAP_OFFER''
      else if flag = 2 then ''IDO_CAP_RESPONSE''
      else if flag = 4 then ''IDO_CAP_RESERVED''
      else ''UNKNOWN'')"

subsection \<open>Well-formed states\<close>

text \<open>
  The byte-valued fields stay in their range, the key keeps its twenty bytes, and
  nobody is authenticated before a response was processed.
\<close>

definition neg_wf :: "IdoState \<Rightarrow> bool" where
  "neg_wf st \<longleftrightarrow> ido_state st \<le> 4 \<and> ido_offer_received st \<le> 1 \<and> ido_response_sent st \<le> 1 \<and>
     ido_capabilities st \<le> 7 \<and> length (ido_key st) = 20 \<and> ido_authenticated st \<le> 1 \<and>
     (ido_authenticated st = 1 \<longrightarrow> ido_response_sent st = 1)"

text \<open>What negotiation must leave alone: the installed key.\<close>

definition same_key :: "IdoState \<Rightarrow> IdoState \<Rightarrow> bool" where
  "same_key st st' \<longleftrightarrow> ido_key_id st' = ido_key_id st \<and> ido_key st' = ido_key st \<and>
     ido_enabled st' = ido_enabled st"

lemma same_key_refl [simp]: "same_key st st"
  by (simp add: same_key_def)

lemma same_key_trans: "same_key a b \<Longrightarrow> same_key b c \<Longrightarrow> same_key a c"
  by (simp add: same_key_def)

lemma neg_wf_zero: "neg_wf ido_zero"
  by (simp add: neg_wf_def ido_zero_def)

lemma flags_and_7 [simp]: "(x :: u8) AND 7 \<le> 7"
  by (rule word_and_le1)

lemma take_capabilities_eq:
  "4 \<le> ef_length \<Longrightarrow> take_capabilities ef_data ef_length st =
     (case ef_data of None \<Rightarrow> Inr st | Some [] \<Rightarrow> Inl Undefined
      | Some (b # _) \<Rightarrow> Inr (st\<lparr>ido_capabilities := b AND 7\<rparr>))"
proof -
  assume "4 \<le> ef_length"
  moreover from this have "0 < ef_length"
    by (rule less_le_trans [rotated]) simp
  ultimately show ?thesis
    by (auto simp: take_capabilities_def mem_read_def split: option.splits list.splits)
qed

lemma take_capabilities_InrD:
  "take_capabilities ef_data ef_length st = Inr st' \<Longrightarrow> \<exists>c. st' = st\<lparr>ido_capabilities := c\<rparr> \<and>
     (c = ido_capabilities st \<or> c \<le> 7)"
  by (auto simp: take_capabilities_def bindR_eq_Inr_iff split: option.splits if_splits
      intro: exI [of _ "ido_capabilities st"])

subsection \<open>The contract of the negotiation entry points\<close>

locale negotiation =
  fixes process :: "IdoState option \<Rightarrow> u16 \<Rightarrow> u8 \<Rightarrow> u8 list option \<Rightarrow> (bool \<times> IdoState option) run"
    and skip :: "IdoState option \<Rightarrow> u16 \<Rightarrow> u8 \<Rightarrow> bool \<times> IdoState option"
    and machine :: "IdoState option \<Rightarrow> u8 \<Rightarrow> u8 \<times> IdoState option"
  assumes process_nodata: "process p t l None = Inr (False, p)"
    and process_wf: "neg_wf st \<Longrightarrow> process (Some st) t l d = Inr (b, p) \<Longrightarrow>
      \<exists>st'. p = Some st' \<and> neg_wf st' \<and> same_key st st'"
    and process_failed: "process p t l d = Inr (False, p') \<Longrightarrow> p' = p"
    and process_defined: "d \<noteq> Some [] \<Longrightarrow> returns (process p t l d)"
    and skip_wf: "neg_wf st \<Longrightarrow> skip (Some st) t l = (b, p) \<Longrightarrow>
      \<exists>st'. p = Some st' \<and> neg_wf st' \<and> same_key st st'"
    and machine_wf: "neg_wf st \<Longrightarrow> machine (Some st) e = (s, p) \<Longrightarrow>
      \<exists>st'. p = Some st' \<and> neg_wf st' \<and> same_key st st'"
    and machine_auth: "machine (Some st) e = (s, Some st') \<Longrightarrow>
      ido_authenticated st' = ido_authenticated st \<and> s = ido_state st'"

text \<open>A sequence of calls of the three entry points on one state.\<close>

datatype neg_call =
    Process u16 u8 "u8 list option"
  | Skip u16 u8
  | Event u8

fun neg_run ::
    "(IdoState option \<Rightarrow> u16 \<Rightarrow> u8 \<Rightarrow> u8 list option \<Rightarrow> (bool \<times> IdoState option) run) \<Rightarrow>
     (IdoState option \<Rightarrow> u16 \<Rightarrow> u8 \<Rightarrow> bool \<times> IdoState option) \<Rightarrow>
     (IdoState option \<Rightarrow> u8 \<Rightarrow> u8 \<times> IdoState option) \<Rightarrow>
     neg_call list \<Rightarrow> IdoState option \<Rightarrow> IdoState option run" where
  "neg_run process skip machine [] p = Inr p"
| "neg_run process skip machine (Process t l d # cs) p =
     bindR (process p t l d) (\<lambda>(_, p'). neg_run process skip machine cs p')"
| "neg_run process skip machine (Skip t l # cs) p =
     neg_run process skip machine cs (snd (skip p t l))"
| "neg_run process skip machine (Event e # cs) p =
     neg_run process skip machine cs (snd (machine p e))"

context negotiation
begin

lemma run_keeps:
  assumes "neg_wf st" and "neg_run process skip machine cs (Some st) = Inr p"
  shows "\<exists>st'. p = Some st' \<and> neg_wf st' \<and> same_key st st'"
  using assms
proof (induction cs arbitrary: st)
  case Nil
  then show ?case by auto
next
  case (Cons c cs)
  have "\<exists>st1. neg_wf st1 \<and> same_key st st1 \<and> neg_run process skip machine cs (Some st1) = Inr p"
  proof (cases c)
    case (Process t l d)
    with Cons.prems obtain b p1 where "process (Some st) t l d = Inr (b, p1)"
      and "neg_run process skip machine cs p1 = Inr p"
      by (auto simp: bindR_eq_Inr_iff)
    with process_wf [OF Cons.prems(1)] show ?thesis by blast
  next
    case (Skip t l)
    with Cons.prems skip_wf [of st t l "fst (skip (Some st) t l)" "snd (skip (Some st) t l)"]
    show ?thesis by auto
  next
    case (Event e)
    with Cons.prems machine_wf [of st e "fst (machine (Some st) e)" "snd (machine (Some st) e)"]
    show ?thesis by auto
  qed
  then show ?case using Cons.IH same_key_trans by blast
qed

lemma run_returns:
  assumes "\<forall>c \<in> set cs. \<forall>t l. c \<noteq> Process t l (Some [])"
  shows "returns (neg_run process skip machine cs p)"
  using assms
proof (induction cs arbitrary: p)
  case (Cons c cs)
  show ?case
  proof (cases c)
    case (Process t l d)
    with Cons.prems have "returns (process p t l d)" by (auto intro: process_defined)
    with Process Cons show ?thesis by (auto simp: returns_iff)
  qed (use Cons in auto)
qed simp

end

lemmas ido_defs = ido_process_def ido_process_offer_def ido_process_response_def
  ido_process_skip_def ido_state_machine_def

lemma returns_take_capabilities: "d \<noteq> Some [] \<Longrightarrow> returns (take_capabilities d l st)"
  by (auto simp: take_capabilities_def mem_read_def split: option.splits)

interpretation idoN: negotiation ido_process ido_process_skip ido_state_machine
proof unfold_locales
  fix p t l show "ido_process p t l None = Inr (False, p)" by (simp add: ido_process_def)
next
  fix st t l d b p assume "neg_wf st" "ido_process (Some st) t l d = Inr (b, p)"
  then show "\<exists>st'. p = Some st' \<and> neg_wf st' \<and> same_key st st'"
    by (auto simp: ido_process_def ido_process_offer_def ido_process_response_def bindR_eq_Inr_iff
        neg_wf_def same_key_def split: if_splits dest!: take_capabilities_InrD)
next
  fix p t l d p' assume "ido_process p t l d = Inr (False, p')"
  then show "p' = p"
    by (auto simp: ido_process_def ido_process_offer_def ido_process_response_def bindR_eq_Inr_iff
        split: if_splits option.splits)
next
  fix d :: "u8 list option" and p t l assume "d \<noteq> Some []"
  then show "returns (ido_process p t l d)"
    by (auto simp: ido_process_def ido_process_offer_def ido_process_response_def
        intro!: returns_bindR_I returns_take_capabilities split: option.splits)
next
  fix st t l b p assume "neg_wf st" "ido_process_skip (Some st) t l = (b, p)"
  then show "\<exists>st'. p = Some st' \<and> neg_wf st' \<and> same_key st st'"
    by (auto simp: ido_process_skip_def neg_wf_def same_key_def split: if_splits)
next
  fix st e s p assume "neg_wf st" "ido_state_machine (Some st) e = (s, p)"
  then show "\<exists>st'. p = Some st' \<and> neg_wf st' \<and> same_key st st'"
    by (auto simp: ido_state_machine_def neg_wf_def same_key_def Let_def split: if_splits)
next
  fix st e s st' assume "ido_state_machine (Some st) e = (s, Some st')"
  then show "ido_authenticated st' = ido_authenticated st \<and> s = ido_state st'"
    by (auto simp: ido_state_machine_def Let_def split: if_splits)
qed

end
