(* ===== verification/Autokey.thy ===== *)
theory Autokey
  imports Ido Bytes
begin

section \<open>Autokey (autokey.c, autokey.h)\<close>

text \<open>
  Autokey shares \<open>IdoState\<close> with I-DO (autokey.h maps every \<open>autokey_*\<close> field to
  the \<open>ido_*\<close> one and \<open>g_autokey_state\<close> to \<open>g_ido_state\<close>), so the operations
  here are on the same record. libgcrypt is not part of the repository: the record
  \<open>gcrypt\<close> holds what the code asks of it, and every theorem is for all such
  libraries. A key file is its contents, \<open>None\<close> when it cannot be opened.
\<close>

abbreviation NTP_EF_AUTOKEY_OFFER :: u16 where "NTP_EF_AUTOKEY_OFFER \<equiv> 0x000A"
abbreviation NTP_EF_AUTOKEY_RESPONSE :: u16 where "NTP_EF_AUTOKEY_RESPONSE \<equiv> 0x800A"
abbreviation NTP_EF_AUTOKEY_KEY_INSTALL :: u16 where "NTP_EF_AUTOKEY_KEY_INSTALL \<equiv> 0x000B"
abbreviation NTP_EF_AUTOKEY_KEY_ROTATE :: u16 where "NTP_EF_AUTOKEY_KEY_ROTATE \<equiv> 0x000C"
abbreviation NTP_EF_AUTOKEY_KEY_REVOKE :: u16 where "NTP_EF_AUTOKEY_KEY_REVOKE \<equiv> 0x000D"

abbreviation AUTOKEY_MIN_EF_LENGTH :: u8 where "AUTOKEY_MIN_EF_LENGTH \<equiv> 4"
abbreviation AUTOKEY_MAX_EF_LENGTH :: u8 where "AUTOKEY_MAX_EF_LENGTH \<equiv> 48"
abbreviation AUTOKEY_DEFAULT_KEY_ID :: u8 where "AUTOKEY_DEFAULT_KEY_ID \<equiv> 0"

subsection \<open>State, offers and responses\<close>

definition autokey_init_state :: "IdoState option \<Rightarrow> IdoState option" where
  "autokey_init_state p = (case p of None \<Rightarrow> None | Some st \<Rightarrow>
     Some (st\<lparr>ido_state := IDO_STATE_IDLE, ido_offer_received := 0, ido_response_sent := 0,
       ido_capabilities := 0, ido_key_id := 0, ido_key := replicate 20 0, ido_enabled := 0,
       ido_authenticated := 0\<rparr>))"

definition autokey_cleanup_state :: "IdoState option \<Rightarrow> IdoState option" where
  "autokey_cleanup_state p = (case p of None \<Rightarrow> None | Some st \<Rightarrow> autokey_init_state (Some st))"

definition autokey_process_offer ::
    "IdoState option \<Rightarrow> u16 \<Rightarrow> u8 \<Rightarrow> u8 list option \<Rightarrow> (bool \<times> IdoState option) run" where
  "autokey_process_offer p ef_type ef_length ef_data =
     (case p of None \<Rightarrow> Inr (False, None) | Some st \<Rightarrow>
      if ef_type \<noteq> NTP_EF_AUTOKEY_OFFER then Inr (False, Some st)
      else if ef_length < AUTOKEY_MIN_EF_LENGTH \<or> AUTOKEY_MAX_EF_LENGTH < ef_length
        then Inr (False, Some st)
      else bindR (take_capabilities ef_data ef_length st) (\<lambda>st1.
        Inr (True, Some (st1\<lparr>ido_offer_received := 1, ido_state := IDO_STATE_OFFER_RECEIVED\<rparr>))))"

definition autokey_process_response ::
    "IdoState option \<Rightarrow> u16 \<Rightarrow> u8 \<Rightarrow> u8 list option \<Rightarrow> (bool \<times> IdoState option) run" where
  "autokey_process_response p ef_type ef_length ef_data =
     (case p of None \<Rightarrow> Inr (False, None) | Some st \<Rightarrow>
      if ef_type \<noteq> NTP_EF_AUTOKEY_RESPONSE then Inr (False, Some st)
      else if ef_length < AUTOKEY_MIN_EF_LENGTH \<or> AUTOKEY_MAX_EF_LENGTH < ef_length
        then Inr (False, Some st)
      else bindR (take_capabilities ef_data ef_length st) (\<lambda>st1.
        Inr (True, Some (st1\<lparr>ido_response_sent := 1, ido_state := IDO_STATE_AUTHENTICATED,
                             ido_authenticated := 1\<rparr>))))"

definition autokey_process ::
    "IdoState option \<Rightarrow> u16 \<Rightarrow> u8 \<Rightarrow> u8 list option \<Rightarrow> (bool \<times> IdoState option) run" where
  "autokey_process p ef_type ef_length ef_data =
     (if p = None \<or> ef_data = None then Inr (False, p)
      else if ef_type = NTP_EF_AUTOKEY_OFFER then autokey_process_offer p ef_type ef_length ef_data
      else if ef_type = NTP_EF_AUTOKEY_RESPONSE
        then autokey_process_response p ef_type ef_length ef_data
      else Inr (False, p))"

definition autokey_process_skip :: "IdoState option \<Rightarrow> u16 \<Rightarrow> u8 \<Rightarrow> bool \<times> IdoState option" where
  "autokey_process_skip p ef_type ef_length =
     (if ef_type \<noteq> NTP_EF_AUTOKEY_OFFER \<and> ef_type \<noteq> NTP_EF_AUTOKEY_RESPONSE then (False, p)
      else if ef_length < AUTOKEY_MIN_EF_LENGTH \<or> AUTOKEY_MAX_EF_LENGTH < ef_length then (False, p)
      else (case p of None \<Rightarrow> (False, None) | Some st \<Rightarrow>
        if ef_type = NTP_EF_AUTOKEY_OFFER then (True, Some (st\<lparr>ido_offer_received := 1\<rparr>))
        else if ef_type = NTP_EF_AUTOKEY_RESPONSE then (True, Some (st\<lparr>ido_response_sent := 1\<rparr>))
        else (True, Some st)))"

definition autokey_state_machine :: "IdoState option \<Rightarrow> u8 \<Rightarrow> u8 \<times> IdoState option" where
  "autokey_state_machine p event =
     (case p of None \<Rightarrow> (IDO_STATE_IDLE, None) | Some st \<Rightarrow>
      let new_state =
        (if event = 1 then
           (if ido_state st = IDO_STATE_IDLE then IDO_STATE_OFFER_RECEIVED else ido_state st)
         else if event = 2 then
           (if ido_state st = IDO_STATE_OFFER_RECEIVED then IDO_STATE_RESPONSE_SENT else ido_state st)
         else if event = 3 then
           (if ido_state st = IDO_STATE_RESPONSE_SENT then IDO_STATE_AUTHENTICATED else ido_state st)
         else if event = 4 then IDO_STATE_REJECTED
         else ido_state st)
      in (new_state,
          Some (if new_state \<noteq> ido_state st then st\<lparr>ido_state := new_state\<rparr> else st)))"

definition autokey_is_authenticated :: "IdoState option \<Rightarrow> bool" where
  "autokey_is_authenticated p = (case p of None \<Rightarrow> False | Some st \<Rightarrow> ido_authenticated st \<noteq> 0)"

definition autokey_state_name :: "u8 \<Rightarrow> string" where
  "autokey_state_name s =
     (if s = IDO_STATE_IDLE then ''IDLE''
      else if s = IDO_STATE_OFFER_RECEIVED then ''OFFER_RECEIVED''
      else if s = IDO_STATE_RESPONSE_SENT then ''RESPONSE_SENT''
      else if s = IDO_STATE_AUTHENTICATED then ''AUTHENTICATED''
      else if s = IDO_STATE_REJECTED then ''REJECTED''
      else ''UNKNOWN'')"

definition autokey_capability_name :: "u8 \<Rightarrow> string" where
  "autokey_capability_name flag =
     (if flag = 1 then ''AUTOKEY_CAP_OFFER''
      else if flag = 2 then ''AUTOKEY_CAP_RESPONSE''
      else if flag = 4 then ''AUTOKEY_CAP_RESERVED''
      else ''UNKNOWN'')"

subsection \<open>Keys and message authentication codes\<close>

text \<open>
  What the code uses of libgcrypt: opening an HMAC-SHA1 context, setting the key, and
  the digest of key and data (\<open>None\<close> for a null result). The code copies twenty bytes
  of the digest.
\<close>

record gcrypt =
  gcry_md_open_ok :: bool
  gcry_md_setkey_ok :: "u8 list \<Rightarrow> bool"
  gcry_hmac_sha1 :: "u8 list \<Rightarrow> u8 list \<Rightarrow> u8 list option"

abbreviation HMAC_SHA1_DIGEST_SIZE :: nat where "HMAC_SHA1_DIGEST_SIZE \<equiv> 20"

definition autokey_compute_hmac ::
    "gcrypt \<Rightarrow> u8 list option \<Rightarrow> nat \<Rightarrow> u8 list option \<Rightarrow> nat \<Rightarrow> (int \<times> u8 list option) run" where
  "autokey_compute_hmac g data data_len key key_len =
     (case (data, key) of
        (Some d, Some k) \<Rightarrow>
          if key_len = 0 \<or> 64 < key_len then Inr (-1, None)
          else if \<not> gcry_md_open_ok g then Inr (-1, None)
          else bindR (mem_slice k 0 key_len) (\<lambda>kb.
            if \<not> gcry_md_setkey_ok g kb then Inr (-1, None)
            else bindR (mem_slice d 0 data_len) (\<lambda>db.
              case gcry_hmac_sha1 g kb db of
                None \<Rightarrow> Inr (-1, None)
              | Some result \<Rightarrow> bindR (mem_slice result 0 HMAC_SHA1_DIGEST_SIZE)
                  (\<lambda>digest. Inr (0, Some digest))))
      | _ \<Rightarrow> Inr (-1, None))"

text \<open>
  The key identifier is read with \<open>fread\<close> into a \<open>uint32_t\<close>, so in the byte order
  of the host: little-endian on the platforms the daemon is built for. A short read
  leaves the bytes it found in the key buffer.
\<close>

definition u32_of_le_bytes :: "u8 list \<Rightarrow> u32" where
  "u32_of_le_bytes bs = u32_of_bytes (bs ! 3) (bs ! 2) (bs ! 1) (bs ! 0)"

definition autokey_load_key_from_file ::
    "u8 list option \<Rightarrow> u32 \<Rightarrow> u8 list \<Rightarrow> int \<times> u32 \<times> u8 list" where
  "autokey_load_key_from_file contents key_id key =
     (case contents of
        None \<Rightarrow> (-1, key_id, key)
      | Some bs \<Rightarrow>
          if length bs < 4 then (-1, key_id, key)
          else (let file_key_id = u32_of_le_bytes (take 4 bs);
                    rest = take HMAC_SHA1_DIGEST_SIZE (drop 4 bs)
                in if length rest \<noteq> HMAC_SHA1_DIGEST_SIZE
                   then (-1, key_id, rest @ drop (length rest) key)
                   else (0, file_key_id, rest)))"

datatype key_source = MemoryOnly | KeyFile "u8 list option"

definition autokey_init :: "key_source \<Rightarrow> u32 \<Rightarrow> IdoState \<Rightarrow> int \<times> IdoState" where
  "autokey_init key_file key_id st =
     (let st0 = the (autokey_init_state (Some st));
          st1 =
            (case key_file of
               KeyFile contents \<Rightarrow>
                 (case autokey_load_key_from_file contents key_id (ido_key st0) of
                    (ret, file_key_id, key) \<Rightarrow>
                      if ret < 0
                      then st0\<lparr>ido_key := replicate 20 0xAA, ido_key_id := AUTOKEY_DEFAULT_KEY_ID\<rparr>
                      else st0\<lparr>ido_key := key,
                               ido_key_id := (if 255 < file_key_id then 0 else ucast file_key_id)\<rparr>)
             | MemoryOnly \<Rightarrow>
                 st0\<lparr>ido_key := replicate 20 0xAA,
                     ido_key_id := (if 0 < key_id \<and> key_id \<le> 255 then ucast key_id
                                    else AUTOKEY_DEFAULT_KEY_ID)\<rparr>)
      in (0, st1\<lparr>ido_enabled := 1\<rparr>))"

definition autokey_cleanup :: "IdoState \<Rightarrow> IdoState" where
  "autokey_cleanup st = the (autokey_cleanup_state (Some (st\<lparr>ido_key := replicate 20 0\<rparr>)))"

definition autokey_install_key ::
    "IdoState option \<Rightarrow> u32 \<Rightarrow> u8 list option \<Rightarrow> (int \<times> IdoState option) run" where
  "autokey_install_key p key_id key =
     (case (p, key) of
        (Some st, Some k) \<Rightarrow>
          if 255 < key_id then Inr (-1, p)
          else bindR (mem_slice k 0 HMAC_SHA1_DIGEST_SIZE) (\<lambda>kb.
            Inr (0, Some (st\<lparr>ido_key_id := ucast key_id, ido_key := kb, ido_enabled := 1\<rparr>)))
      | _ \<Rightarrow> Inr (-1, p))"

definition autokey_rotate_key ::
    "IdoState option \<Rightarrow> u32 \<Rightarrow> u8 list option \<Rightarrow> (int \<times> IdoState option) run" where
  "autokey_rotate_key p new_key_id new_key =
     (case (p, new_key) of
        (Some st, Some k) \<Rightarrow>
          if 255 < new_key_id then Inr (-1, p)
          else bindR (mem_slice k 0 HMAC_SHA1_DIGEST_SIZE) (\<lambda>kb.
            Inr (0, Some (st\<lparr>ido_key_id := ucast new_key_id, ido_key := kb\<rparr>)))
      | _ \<Rightarrow> Inr (-1, p))"

definition autokey_revoke_key :: "IdoState option \<Rightarrow> u32 \<Rightarrow> int \<times> IdoState option" where
  "autokey_revoke_key p key_id =
     (case p of None \<Rightarrow> (-1, None)
      | Some st \<Rightarrow> if ucast (ido_key_id st) = key_id then (-1, p) else (0, p))"

text \<open>Both functions work on the global state \<open>g_autokey_state\<close>.\<close>

definition autokey_compute_mac ::
    "gcrypt \<Rightarrow> IdoState \<Rightarrow> u8 list option \<Rightarrow> nat \<Rightarrow> u32 \<Rightarrow> int run" where
  "autokey_compute_mac g st pkt pkt_len key_id =
     (case pkt of None \<Rightarrow> Inr (-1)
      | Some _ \<Rightarrow>
          if ucast (ido_key_id st) \<noteq> key_id then Inr (-1)
          else if ido_enabled st = 0 then Inr (-1)
          else bindR (autokey_compute_hmac g pkt pkt_len (Some (ido_key st)) HMAC_SHA1_DIGEST_SIZE)
            (\<lambda>(ret, digest). if ret < 0 then Inr (-1) else Inr 0))"

definition autokey_verify_mac ::
    "gcrypt \<Rightarrow> IdoState \<Rightarrow> u8 list option \<Rightarrow> nat \<Rightarrow> u32 \<Rightarrow> int run" where
  "autokey_verify_mac g st pkt pkt_len key_id =
     (case pkt of None \<Rightarrow> Inr (-1)
      | Some _ \<Rightarrow>
          if ucast (ido_key_id st) \<noteq> key_id then Inr (-1)
          else if ido_enabled st = 0 then Inr (-1)
          else bindR (autokey_compute_hmac g pkt pkt_len (Some (ido_key st)) HMAC_SHA1_DIGEST_SIZE)
            (\<lambda>(ret, expected). if ret < 0 then Inr (-1) else Inr 0))"

subsection \<open>Key management extension fields\<close>

text \<open>The four bytes of the identifier, as the C expression shifts and joins them.\<close>

definition ef_key_id :: "u8 list \<Rightarrow> u32 run" where
  "ef_key_id d = read_u32be d 0"

definition autokey_process_key_install ::
    "IdoState option \<Rightarrow> u16 \<Rightarrow> u8 \<Rightarrow> u8 list option \<Rightarrow> (bool \<times> IdoState option) run" where
  "autokey_process_key_install p ef_type ef_length ef_data =
     (if p = None then Inr (False, None)
      else if ef_type \<noteq> NTP_EF_AUTOKEY_KEY_INSTALL then Inr (False, p)
      else if ef_length < 24 \<or> AUTOKEY_MAX_EF_LENGTH < ef_length then Inr (False, p)
      else (case ef_data of
          None \<Rightarrow> Inr (True, p)
        | Some d \<Rightarrow>
            if 4 \<le> ef_length then
              bindR (ef_key_id d) (\<lambda>key_id.
                if 24 \<le> ef_length then
                  bindR (autokey_install_key p key_id (Some (drop 4 d))) (\<lambda>(ret, p1).
                    if ret < 0 then Inr (False, p1) else Inr (True, p1))
                else Inr (True, p))
            else Inr (True, p)))"

definition autokey_process_key_rotate ::
    "IdoState option \<Rightarrow> u16 \<Rightarrow> u8 \<Rightarrow> u8 list option \<Rightarrow> (bool \<times> IdoState option) run" where
  "autokey_process_key_rotate p ef_type ef_length ef_data =
     (if p = None then Inr (False, None)
      else if ef_type \<noteq> NTP_EF_AUTOKEY_KEY_ROTATE then Inr (False, p)
      else if ef_length < 24 \<or> AUTOKEY_MAX_EF_LENGTH < ef_length then Inr (False, p)
      else (case ef_data of
          None \<Rightarrow> Inr (True, p)
        | Some d \<Rightarrow>
            if 4 \<le> ef_length then
              bindR (ef_key_id d) (\<lambda>new_key_id.
                if 24 \<le> ef_length then
                  bindR (autokey_rotate_key p new_key_id (Some (drop 4 d))) (\<lambda>(ret, p1).
                    if ret < 0 then Inr (False, p1) else Inr (True, p1))
                else Inr (True, p))
            else Inr (True, p)))"

definition autokey_process_key_revoke ::
    "IdoState option \<Rightarrow> u16 \<Rightarrow> u8 \<Rightarrow> u8 list option \<Rightarrow> (bool \<times> IdoState option) run" where
  "autokey_process_key_revoke p ef_type ef_length ef_data =
     (if p = None then Inr (False, None)
      else if ef_type \<noteq> NTP_EF_AUTOKEY_KEY_REVOKE then Inr (False, p)
      else if ef_length < 4 \<or> AUTOKEY_MAX_EF_LENGTH < ef_length then Inr (False, p)
      else (case ef_data of
          None \<Rightarrow> Inr (True, p)
        | Some d \<Rightarrow>
            if 4 \<le> ef_length then
              bindR (ef_key_id d) (\<lambda>key_id.
                case autokey_revoke_key p key_id of (ret, p1) \<Rightarrow>
                  if ret < 0 then Inr (False, p1) else Inr (True, p1))
            else Inr (True, p)))"

lemmas autokey_defs = autokey_process_def autokey_process_offer_def autokey_process_response_def

subsection \<open>The contract, and agreement with I-DO\<close>

lemma autokey_process_eq_ido:
  "t \<noteq> IDO_EF_TYPE_OFFER \<Longrightarrow> t \<noteq> IDO_EF_TYPE_RESPONSE \<Longrightarrow>
   autokey_process p t l d = ido_process p t l d"
  by (auto simp: autokey_defs ido_process_def ido_process_offer_def ido_process_response_def
      split: option.split)

lemma autokey_skip_eq_ido:
  "t \<noteq> IDO_EF_TYPE_OFFER \<Longrightarrow> t \<noteq> IDO_EF_TYPE_RESPONSE \<Longrightarrow>
   autokey_process_skip p t l = ido_process_skip p t l"
  by (auto simp: autokey_process_skip_def ido_process_skip_def split: option.split)

lemma autokey_machine_eq_ido: "autokey_state_machine p e = ido_state_machine p e"
  by (simp add: autokey_state_machine_def ido_state_machine_def)

lemma autokey_process_foreign:
  "t = IDO_EF_TYPE_OFFER \<or> t = IDO_EF_TYPE_RESPONSE \<Longrightarrow> autokey_process p t l d = Inr (False, p)"
  by (auto simp: autokey_defs)

lemma autokey_skip_foreign:
  "t = IDO_EF_TYPE_OFFER \<or> t = IDO_EF_TYPE_RESPONSE \<Longrightarrow> autokey_process_skip p t l = (False, p)"
  by (auto simp: autokey_process_skip_def)

interpretation akN: negotiation autokey_process autokey_process_skip autokey_state_machine
proof unfold_locales
  fix p t l show "autokey_process p t l None = Inr (False, p)" by (simp add: autokey_process_def)
next
  fix st t l d b p assume "neg_wf st" "autokey_process (Some st) t l d = Inr (b, p)"
  then show "\<exists>st'. p = Some st' \<and> neg_wf st' \<and> same_key st st'"
    using idoN.process_wf [of st t l d b p]
    by (cases "t = IDO_EF_TYPE_OFFER \<or> t = IDO_EF_TYPE_RESPONSE")
      (auto simp: autokey_process_eq_ido autokey_process_foreign)
next
  fix p t l d p' assume "autokey_process p t l d = Inr (False, p')"
  then show "p' = p"
    using idoN.process_failed [of p t l d p']
    by (cases "t = IDO_EF_TYPE_OFFER \<or> t = IDO_EF_TYPE_RESPONSE")
      (auto simp: autokey_process_eq_ido autokey_process_foreign)
next
  fix d :: "u8 list option" and p t l assume "d \<noteq> Some []"
  then show "returns (autokey_process p t l d)"
    using idoN.process_defined [of d p t l]
    by (cases "t = IDO_EF_TYPE_OFFER \<or> t = IDO_EF_TYPE_RESPONSE")
      (auto simp: autokey_process_eq_ido autokey_process_foreign)
next
  fix st t l b p assume "neg_wf st" "autokey_process_skip (Some st) t l = (b, p)"
  then show "\<exists>st'. p = Some st' \<and> neg_wf st' \<and> same_key st st'"
    using idoN.skip_wf [of st t l b p]
    by (cases "t = IDO_EF_TYPE_OFFER \<or> t = IDO_EF_TYPE_RESPONSE")
      (auto simp: autokey_skip_eq_ido autokey_skip_foreign)
next
  fix st e s p assume "neg_wf st" "autokey_state_machine (Some st) e = (s, p)"
  then show "\<exists>st'. p = Some st' \<and> neg_wf st' \<and> same_key st st'"
    using idoN.machine_wf by (simp add: autokey_machine_eq_ido)
next
  fix st e s st' assume "autokey_state_machine (Some st) e = (s, Some st')"
  then show "ido_authenticated st' = ido_authenticated st \<and> s = ido_state st'"
    using idoN.machine_auth by (simp add: autokey_machine_eq_ido)
qed

subsection \<open>Key installation, rotation, revocation\<close>

lemma ucast_u8_u32_inv:
  "(x :: u32) \<le> 255 \<Longrightarrow> ucast (ucast x :: u8) = x"
  by (simp add: word_unat_eq_iff unsigned_ucast_eq take_bit_eq_mod unat_mod_distrib word_le_nat_alt)

text \<open>
  C31: any sequence of I-DO calls (processing, skip tracking, state machine events) that
  returns keeps the negotiation state well-formed (state at most 4, flags 0 or 1, at most
  three capability bits, twenty key bytes, authenticated only after a response) and never
  touches the installed key, its identifier or the enabled flag.
\<close>

theorem ido_run_keeps:
  assumes "neg_wf st"
    and "neg_run ido_process ido_process_skip ido_state_machine cs (Some st) = Inr p"
  shows "\<exists>st'. p = Some st' \<and> neg_wf st' \<and> same_key st st'"
  using assms by (rule idoN.run_keeps)

theorem ido_run_keeps_witness:
  "\<exists>st'. Some (ido_zero\<lparr>ido_capabilities := 3, ido_offer_received := 1,
      ido_state := IDO_STATE_RESPONSE_SENT\<rparr>) = Some st' \<and> neg_wf st' \<and> same_key ido_zero st'"
  by (rule ido_run_keeps [OF neg_wf_zero,
        of "[Process IDO_EF_TYPE_OFFER 4 (Some [0xFB]), Skip IDO_EF_AUTOKEY_OFFER 8, Event 2]"])
    (simp add: ido_process_def ido_process_offer_def take_capabilities_def ido_process_skip_def
      ido_state_machine_def ido_zero_def)

text \<open>The calls that concern a field type only I-DO has.\<close>

fun ido_only :: "neg_call \<Rightarrow> bool" where
  "ido_only (Process t l d) \<longleftrightarrow> t = IDO_EF_TYPE_OFFER \<or> t = IDO_EF_TYPE_RESPONSE"
| "ido_only (Skip t l) \<longleftrightarrow> t = IDO_EF_TYPE_OFFER \<or> t = IDO_EF_TYPE_RESPONSE"
| "ido_only (Event e) \<longleftrightarrow> False"

text \<open>
  C32: autokey's negotiation is I-DO's negotiation without the I-DO field types: on every
  sequence of calls it ends in the same state, or is stuck in the same way, as the I-DO
  functions on the sequence without the calls for I-DO offers and responses.
\<close>

theorem autokey_is_ido_filtered:
  "neg_run autokey_process autokey_process_skip autokey_state_machine cs p =
   neg_run ido_process ido_process_skip ido_state_machine (filter (\<lambda>c. \<not> ido_only c) cs) p"
proof (induction cs arbitrary: p)
  case (Cons c cs)
  then show ?case
    by (cases c) (auto simp: autokey_process_foreign autokey_skip_foreign autokey_process_eq_ido
        autokey_skip_eq_ido autokey_machine_eq_ido split_def)
qed simp

text \<open>
  A failed negotiation moves the state to REJECTED but does not take the
  authentication back: \<open>ido_is_authenticated\<close> answers as before the failure.
\<close>

theorem rejected_stays_authenticated:
  "case ido_state_machine (Some st) IDO_EVENT_NEGOTIATION_FAILED of (s, p) \<Rightarrow>
     s = IDO_STATE_REJECTED \<and> (\<exists>st'. p = Some st' \<and> ido_state st' = IDO_STATE_REJECTED) \<and>
     ido_is_authenticated p = ido_is_authenticated (Some st)"
  by (auto simp: ido_state_machine_def ido_is_authenticated_def Let_def)

text \<open>
  \<open>autokey_init\<close> succeeds for every key file and identifier and leaves a well-formed,
  enabled state with nothing negotiated; without a readable key file the key is the
  built-in test key, twenty bytes 0xAA.
\<close>

theorem autokey_init_wf:
  "case autokey_init src key_id st of (ret, st') \<Rightarrow>
     ret = 0 \<and> neg_wf st' \<and> ido_enabled st' = 1 \<and> ido_state st' = IDO_STATE_IDLE \<and>
     \<not> ido_is_authenticated (Some st') \<and>
     ((\<forall>bs. src = KeyFile (Some bs) \<longrightarrow> length bs < 24) \<longrightarrow> ido_key st' = replicate 20 0xAA)"
  by (auto simp: autokey_init_def autokey_init_state_def autokey_load_key_from_file_def Let_def
      neg_wf_def ido_is_authenticated_def split: key_source.splits option.splits if_splits)

theorem autokey_init_wf_witness:
  "case autokey_init MemoryOnly 7 ido_zero of (ret, st') \<Rightarrow>
     ret = 0 \<and> neg_wf st' \<and> ido_enabled st' = 1 \<and> ido_state st' = IDO_STATE_IDLE \<and>
     \<not> ido_is_authenticated (Some st') \<and> ido_key st' = replicate 20 0xAA"
  using autokey_init_wf [of MemoryOnly 7 ido_zero] by auto

text \<open>
  A Key Install field of 24 to 48 bytes installs the twenty key bytes that follow the
  big-endian identifier and enables Autokey when the identifier fits a byte, and is refused
  without any change when it does not.
\<close>

theorem key_install_field:
  assumes "24 \<le> l" and "l \<le> 48" and "24 \<le> length d"
  shows "autokey_process_key_install (Some st) NTP_EF_AUTOKEY_KEY_INSTALL l (Some d) =
    (if u32_dec (take 4 d) \<le> 255 then
       Inr (True, Some (st\<lparr>ido_key_id := ucast (u32_dec (take 4 d)),
                           ido_key := take 20 (drop 4 d), ido_enabled := 1\<rparr>))
     else Inr (False, Some st))"
  using assms
  by (auto simp: autokey_process_key_install_def ef_key_id_def read_u32be_eq autokey_install_key_def
      word_le_nat_alt word_less_nat_alt)

theorem key_install_field_witness:
  "autokey_process_key_install (Some ido_zero) NTP_EF_AUTOKEY_KEY_INSTALL 24
      (Some ([0, 0, 0, 9] @ replicate 20 5)) =
    (if u32_dec (take 4 ([0, 0, 0, 9] @ replicate 20 5)) \<le> 255 then
       Inr (True, Some (ido_zero\<lparr>ido_key_id := ucast (u32_dec (take 4 ([0, 0, 0, 9] @ replicate 20 5))),
          ido_key := take 20 (drop 4 ([0, 0, 0, 9] @ replicate 20 5)), ido_enabled := 1\<rparr>))
     else Inr (False, Some ido_zero))"
  by (rule key_install_field) simp_all

text \<open>
  Revocation never changes anything: whatever the field, \<open>autokey_process_key_revoke\<close>
  gives back the state it was given, and for the active key it only answers that it
  failed; a revoked key is never removed.
\<close>

theorem key_revoke_no_effect:
  "case autokey_process_key_revoke p t l d of
     Inr (b, p') \<Rightarrow> p' = p \<and>
       (\<forall>st bs. p = Some st \<longrightarrow> d = Some bs \<longrightarrow> u32_dec (take 4 bs) = ucast (ido_key_id st) \<longrightarrow> \<not> b)
   | Inl e \<Rightarrow> e = Undefined \<and> (\<exists>bs. d = Some bs \<and> length bs < 4)"
  by (auto simp: autokey_process_key_revoke_def ef_key_id_def read_u32be_eq autokey_revoke_key_def
      word_le_nat_alt word_less_nat_alt split: option.splits sum.splits if_splits)

theorem key_revoke_no_effect_witness:
  "\<exists>b. autokey_process_key_revoke (Some ido_zero) NTP_EF_AUTOKEY_KEY_REVOKE 4 (Some [0, 0, 0, 0])
      = Inr (b, Some ido_zero) \<and> \<not> b"
  using key_revoke_no_effect [where p = "Some ido_zero" and t = NTP_EF_AUTOKEY_KEY_REVOKE
      and l = 4 and d = "Some [0, 0, 0, 0]"]
  by (auto simp: autokey_process_key_revoke_def ef_key_id_def read_u32be_eq autokey_revoke_key_def
      ido_zero_def u32_dec_def u32_of_bytes_def split: if_splits)

text \<open>
  \<open>autokey_verify_mac\<close> accepts every packet. With a library that computes digests, an
  enabled state and the current key identifier it returns 0 for any packet bytes: the
  digest it computes is never compared with one from the packet.
\<close>

theorem verify_mac_accepts_any_packet:
  assumes "gcry_md_open_ok g" and "\<And>k. gcry_md_setkey_ok g k"
    and "\<And>k d. \<exists>r. gcry_hmac_sha1 g k d = Some r \<and> 20 \<le> length r"
    and "length (ido_key st) = 20" and "ido_enabled st \<noteq> 0" and "key_id = ucast (ido_key_id st)"
    and "pkt_len \<le> length pkt"
  shows "autokey_verify_mac g st (Some pkt) pkt_len key_id = Inr 0"
proof -
  from assms(3) obtain r where
    "gcry_hmac_sha1 g (take 20 (drop 0 (ido_key st))) (take pkt_len (drop 0 pkt)) = Some r"
    "20 \<le> length r" by blast
  then show ?thesis
    using assms by (simp add: autokey_verify_mac_def autokey_compute_hmac_def)
qed

definition sample_gcrypt :: gcrypt where
  "sample_gcrypt = \<lparr>gcry_md_open_ok = True, gcry_md_setkey_ok = (\<lambda>_. True),
     gcry_hmac_sha1 = (\<lambda>k d. Some (take 20 (k @ replicate 20 0)))\<rparr>"

theorem verify_mac_accepts_any_packet_witness:
  "autokey_verify_mac sample_gcrypt (ido_zero\<lparr>ido_enabled := 1\<rparr>) (Some [1, 2, 3]) 3 0 = Inr 0"
  by (rule verify_mac_accepts_any_packet) (simp_all add: sample_gcrypt_def ido_zero_def)

end
