(* ===== verification/Clock.thy ===== *)
theory Clock
  imports Bytes "HOL-Library.While_Combinator"
begin

section \<open>Reading the system clock (time_sync.c)\<close>

text \<open>
  \<open>ntp_timestamp_now\<close> and \<open>get_system_precision\<close>. What the kernel answers is an
  argument: a \<open>timespec\<close>, or \<open>None\<close> when the call fails. POSIX promises
  \<open>0 \<le> tv_nsec < 1000000000\<close>; theorems that need it say so.
\<close>

record timespec =
  tv_sec :: int
  tv_nsec :: int

abbreviation NTP_UNIX_EPOCH_DELTA :: int where "NTP_UNIX_EPOCH_DELTA \<equiv> 2208988800"

definition valid_timespec :: "timespec \<Rightarrow> bool" where
  "valid_timespec ts \<longleftrightarrow> in_i64 (tv_sec ts) \<and> 0 \<le> tv_nsec ts \<and> tv_nsec ts < 1000000000"

definition ntp_timestamp_now :: "timespec option \<Rightarrow> NtpTimestamp" where
  "ntp_timestamp_now now =
     (case now of
        None \<Rightarrow> \<lparr>ts_sec = 0, ts_frac = 0\<rparr>
      | Some ts \<Rightarrow>
          (let sec = (word_of_int (tv_sec ts) :: u64) + word_of_int NTP_UNIX_EPOCH_DELTA
           in if 0xFFFFFFFF < sec then \<lparr>ts_sec = 0xFFFFFFFF, ts_frac = 0xFFFFFFFF\<rparr>
              else \<lparr>ts_sec = ucast sec,
                    ts_frac = ucast (push_bit 32 (word_of_int (tv_nsec ts) :: u64) div 1000000000)\<rparr>))"

text \<open>
  The two loops of \<open>get_system_precision\<close>: the number of bits of a positive number
  of seconds, and the halvings that bring a resolution below one second up to a second.
  \<open>None\<close> would be a loop that does not end; \<open>int8_t\<close> is 8 bits, and the counts stay
  below 65.
\<close>

definition count_bits :: "int \<Rightarrow> (int \<times> int) option" where
  "count_bits s0 = while_option (\<lambda>(p, s). 0 < s) (\<lambda>(p, s). (p + 1, drop_bit 1 s)) (0, s0)"

definition count_halvings :: "int \<Rightarrow> (int \<times> int) option" where
  "count_halvings ns0 = while_option (\<lambda>(p, ns). ns < 1000000000) (\<lambda>(p, ns). (p - 1, ns * 2)) (0, ns0)"

definition get_system_precision :: "timespec option \<Rightarrow> int run" where
  "get_system_precision res =
     (case res of
        None \<Rightarrow> Inr (- 20)
      | Some ts \<Rightarrow>
          if tv_sec ts = 0 \<and> tv_nsec ts = 0 then Inr (- 20)
          else if 0 < tv_sec ts then
            (case count_bits (tv_sec ts) of
               None \<Rightarrow> Inl Diverges
             | Some (p, _) \<Rightarrow> Inr (if 6 < p then 6 else - p))
          else (let ns = tv_sec ts * 1000000000 + tv_nsec ts
                in if ns \<le> 0 then Inr (- 20)
                   else (case count_halvings ns of
                           None \<Rightarrow> Inl Diverges
                         | Some (p, _) \<Rightarrow> Inr p)))"

subsection \<open>Timestamps\<close>

lemma push_32_div:
  assumes "0 \<le> n" and "n < 1000000000"
  shows "push_bit 32 (word_of_int n :: u64) div 1000000000
    = (word_of_int (n * 2 ^ 32 div 1000000000) :: u64)"
proof -
  have n: "uint (word_of_int n :: u64) = n"
    using assms by (simp add: uint_word_of_int)
  have "uint (push_bit 32 (word_of_int n :: u64)) = n * 2 ^ 32"
    using assms n by (simp add: push_bit_eq_mult uint_word_ariths uint_word_of_int)
  then have "uint (push_bit 32 (word_of_int n :: u64) div 1000000000) = n * 2 ^ 32 div 1000000000"
    by (simp add: uint_div)
  then show ?thesis by (metis word_of_int_uint)
qed

text \<open>
  Until 7 February 2036 the timestamp is the exact NTP time, its fraction rounded down;
  after that it sticks at the last representable one.
\<close>

lemma ntp_timestamp_now_exact:
  assumes "0 \<le> tv_nsec ts" and "tv_nsec ts < 1000000000"
    and "- 2208988800 \<le> tv_sec ts" and "tv_sec ts \<le> 2085978495"
  shows "uint (ts_sec (ntp_timestamp_now (Some ts))) = tv_sec ts + 2208988800"
    and "uint (ts_frac (ntp_timestamp_now (Some ts))) = tv_nsec ts * 2 ^ 32 div 1000000000"
proof -
  let ?w = "(word_of_int (tv_sec ts) :: u64) + word_of_int NTP_UNIX_EPOCH_DELTA"
  have "?w = word_of_int (tv_sec ts + 2208988800)" by simp
  then have w: "uint ?w = tv_sec ts + 2208988800"
    using assms by (simp only: uint_word_of_int) simp
  then have le: "\<not> 0xFFFFFFFF < ?w"
    using assms by (simp add: word_less_def)
  then show "uint (ts_sec (ntp_timestamp_now (Some ts))) = tv_sec ts + 2208988800"
    using w assms
    by (simp add: ntp_timestamp_now_def Let_def unsigned_ucast_eq take_bit_eq_mod)
  have b: "0 \<le> tv_nsec ts * 2 ^ 32 div 1000000000" "tv_nsec ts * 2 ^ 32 div 1000000000 < 2 ^ 32"
    using assms by simp_all
  show "uint (ts_frac (ntp_timestamp_now (Some ts))) = tv_nsec ts * 2 ^ 32 div 1000000000"
    using le b push_32_div [OF assms(1,2)]
    by (simp add: ntp_timestamp_now_def Let_def unsigned_ucast_eq take_bit_eq_mod uint_word_of_int)
qed

subsection \<open>Precision\<close>

lemma count_halvings_spec:
  assumes "0 < ns"
  shows "\<exists>k n. count_halvings ns = Some (- int k, n) \<and> n = ns * 2 ^ k \<and> 1000000000 \<le> n \<and>
    (\<forall>j < k. ns * 2 ^ j < 1000000000)"
proof -
  let ?b = "\<lambda>(p :: int, n :: int). n < 1000000000"
  let ?c = "\<lambda>(p :: int, n :: int). (p - 1, n * 2)"
  let ?P = "\<lambda>(p, n). 0 < n \<and> (\<exists>k. p = - int k \<and> n = ns * 2 ^ k \<and> (\<forall>j < k. ns * 2 ^ j < 1000000000))"
  have step: "?P (?c s)" if "?P s" "?b s" for s
  proof -
    obtain p n where s: "s = (p, n)" by (cases s)
    from that s obtain k where "p = - int k" "n = ns * 2 ^ k" "\<forall>j < k. ns * 2 ^ j < 1000000000"
      "0 < n" "n < 1000000000" by auto
    then show ?thesis using s
      by (auto intro!: exI [of _ "Suc k"] simp: less_Suc_eq)
  qed
  have init: "?P (0, ns)" using assms by (auto intro!: exI [of _ 0])
  have "\<exists>t. while_option ?b ?c (0, ns) = Some t"
    by (rule measure_while_option_Some [where P = ?P and f = "\<lambda>(p, n). nat (1000000000 - n)"])
      (use step init in auto)
  then obtain t where t: "while_option ?b ?c (0, ns) = Some t" ..
  have "?P t" by (rule while_option_rule [where P = ?P, OF _ t init]) (use step in auto)
  moreover have "\<not> ?b t" by (rule while_option_stop [OF t])
  ultimately show ?thesis
    using t by (auto simp: count_halvings_def)
qed

end
