(* ===== verification/Packet.thy ===== *)
theory Packet
  imports Autokey Clock
begin

section \<open>NTP packets (ntp_packet.c, ntpd.h)\<close>

text \<open>
  The packet record, the extension field walk, the parser and the request builder.
  A buffer is the list of its allocated bytes; \<open>sz\<close> is the length the caller
  claims, so reading between the end of the allocation and \<open>sz\<close> is possible and is
  \<open>Undefined\<close>. \<open>g_ido_state\<close> is passed along explicitly. The parser looks at the
  packet record it is about to fill, so that record is an argument too.

  The walk is a loop whose step \<open>ext_step\<close> is one iteration; \<open>None\<close> of \<open>ext_loop\<close>
  is a walk that does not end (a zero-length I-DO field would repeat for ever).
\<close>

record NtpPacket =
  pkt_li_vn_mode :: u8
  pkt_stratum :: u8
  pkt_poll :: u8
  pkt_precision :: u8
  pkt_root_delay :: u32
  pkt_root_disp :: u32
  pkt_ref_id :: u32
  pkt_ref_ts :: NtpTimestamp
  pkt_orig_ts :: NtpTimestamp
  pkt_recv_ts :: NtpTimestamp
  pkt_xmit_ts :: NtpTimestamp
  pkt_extension_len :: nat
  pkt_key_id :: u8
  pkt_mac_digest :: "u8 list"

abbreviation NTP_MODE_CLIENT :: u8 where "NTP_MODE_CLIENT \<equiv> 3"
abbreviation NTP_MODE_SERVER :: u8 where "NTP_MODE_SERVER \<equiv> 4"
abbreviation NTP_MODE_SYMMETRIC_ACTIVE :: u8 where "NTP_MODE_SYMMETRIC_ACTIVE \<equiv> 1"
abbreviation NTP_MODE_SYMMETRIC_PASSIVE :: u8 where "NTP_MODE_SYMMETRIC_PASSIVE \<equiv> 2"
abbreviation NTP_MODE_BROADCAST :: u8 where "NTP_MODE_BROADCAST \<equiv> 5"
abbreviation NTP_MODE_CONTROL :: u8 where "NTP_MODE_CONTROL \<equiv> 6"
abbreviation NTP_MODE_PRIVATE :: u8 where "NTP_MODE_PRIVATE \<equiv> 7"
abbreviation NTP_VN_4 :: u8 where "NTP_VN_4 \<equiv> 4"

text \<open>The three bit fields of the first byte, as the callers extract them.\<close>

definition leap_of :: "u8 \<Rightarrow> u8" where
  "leap_of b = drop_bit 6 (b AND 0xC0)"

definition version_of :: "u8 \<Rightarrow> u8" where
  "version_of b = drop_bit 3 (b AND 0x38)"

definition mode_of :: "u8 \<Rightarrow> u8" where
  "mode_of b = b AND 0x07"

subsection \<open>Extension fields\<close>

abbreviation NTP_EF_CRYPTO_NAK :: u16 where "NTP_EF_CRYPTO_NAK \<equiv> 0x0000"
abbreviation NTP_EF_MAC :: u16 where "NTP_EF_MAC \<equiv> 0x0003"
abbreviation NTP_EF_I_DO_OFFER :: u16 where "NTP_EF_I_DO_OFFER \<equiv> 0x0007"
abbreviation NTP_EF_I_DO_RESPONSE :: u16 where "NTP_EF_I_DO_RESPONSE \<equiv> 0x8007"
abbreviation NTP_EF_LAST_EF :: u16 where "NTP_EF_LAST_EF \<equiv> 0x0008"
abbreviation NTP_EF_CHECKSUM_COMP :: u16 where "NTP_EF_CHECKSUM_COMP \<equiv> 0x0005"
abbreviation NTP_EF_NTS_UID_REQ :: u16 where "NTP_EF_NTS_UID_REQ \<equiv> 0x0104"
abbreviation NTP_EF_NTS_AEEF_RESP :: u16 where "NTP_EF_NTS_AEEF_RESP \<equiv> 0x8404"

definition validate_extension_field_length :: "u16 \<Rightarrow> nat \<Rightarrow> int" where
  "validate_extension_field_length len remaining =
     (if len AND 3 \<noteq> 0 then - 1
      else if 65532 < len then - 1
      else if remaining < 48 + unat len then - 1
      else 0)"

text \<open>Result: the return code, and type and length when it is 0.\<close>

definition parse_extension_field_header :: "u8 list \<Rightarrow> nat \<Rightarrow> (int \<times> u16 \<times> u16) run" where
  "parse_extension_field_header data pos =
     (if 48 < pos + 4 then Inr (- 1, 0, 0)
      else bindR (mem_read data pos) (\<lambda>high. bindR (mem_read data (pos + 1)) (\<lambda>low.
           bindR (mem_read data (pos + 2)) (\<lambda>l0. bindR (mem_read data (pos + 3)) (\<lambda>l1.
             Inr (0, u16_of_bytes high low, u16_of_bytes l0 l1))))))"

datatype ext_next =
    ExtContinue nat int IdoState
  | ExtBreak IdoState
  | ExtReturn int IdoState

text \<open>An I-DO offer or response: skip tracking, processing without data, state machine.\<close>

definition ext_ido_field :: "u16 \<Rightarrow> u16 \<Rightarrow> IdoState \<Rightarrow> IdoState run" where
  "ext_ido_field field_type field_len g =
     (let g0 = (if ido_state g = IDO_STATE_IDLE then the (ido_state_init (Some g)) else g);
          g1 = the (snd (ido_process_skip (Some g0) field_type (ucast (field_len - 4))))
      in bindR (if field_type = NTP_EF_I_DO_OFFER
                then ido_process (Some g1) NTP_EF_I_DO_OFFER (ucast (field_len - 4)) None
                else if field_type = NTP_EF_I_DO_RESPONSE
                then ido_process (Some g1) NTP_EF_I_DO_RESPONSE (ucast (field_len - 4)) None
                else Inr (True, Some g1))
           (\<lambda>(_, p2).
             Inr (the (snd (if field_type = NTP_EF_I_DO_OFFER
                            then ido_state_machine p2 IDO_STATE_OFFER_RECEIVED
                            else if field_type = NTP_EF_I_DO_RESPONSE
                            then ido_state_machine p2 IDO_STATE_RESPONSE_SENT
                            else (IDO_STATE_IDLE, p2))))))"

text \<open>An Autokey key field: skip tracking, then install, rotate or revoke.\<close>

definition ext_autokey_field :: "u8 list \<Rightarrow> nat \<Rightarrow> u16 \<Rightarrow> u16 \<Rightarrow> IdoState \<Rightarrow> IdoState run" where
  "ext_autokey_field data pos field_type field_len g =
     (let g1 = the (snd (autokey_process_skip (Some g) field_type (ucast (field_len - 4))));
          d = Some (drop (pos + 4) data)
      in bindR (if field_type = NTP_EF_AUTOKEY_KEY_INSTALL
                then autokey_process_key_install (Some g1) field_type (ucast (field_len - 4)) d
                else if field_type = NTP_EF_AUTOKEY_KEY_ROTATE
                then autokey_process_key_rotate (Some g1) field_type (ucast (field_len - 4)) d
                else if field_type = NTP_EF_AUTOKEY_KEY_REVOKE
                then autokey_process_key_revoke (Some g1) field_type (ucast (field_len - 4)) d
                else Inr (True, Some g1))
           (\<lambda>(_, p2). Inr (the p2)))"

definition ext_step :: "u8 list \<Rightarrow> nat \<Rightarrow> nat \<Rightarrow> int \<Rightarrow> IdoState \<Rightarrow> ext_next run" where
  "ext_step data sz pos skipped g =
     bindR (parse_extension_field_header data pos) (\<lambda>(ret, field_type, field_len).
       if ret < 0 then Inr (ExtBreak g)
       else if validate_extension_field_length field_len (sz - 48) < 0 then Inr (ExtBreak g)
       else if field_type = NTP_EF_LAST_EF then Inr (ExtBreak g)
       else if field_type = 0 \<and> field_len = 2 then
         Inr (ExtReturn (int pos + uint field_len - 48) g)
       else if field_type = NTP_EF_I_DO_OFFER \<or> field_type = NTP_EF_I_DO_RESPONSE then
         bindR (ext_ido_field field_type field_len g) (\<lambda>g'.
           Inr (ExtContinue (pos + unat field_len) (skipped + uint field_len) g'))
       else if NTP_EF_NTS_UID_REQ \<le> field_type \<and> field_type \<le> NTP_EF_NTS_AEEF_RESP then
         Inr (ExtContinue (pos + unat field_len) (skipped + uint field_len) g)
       else if field_type = NTP_EF_AUTOKEY_KEY_INSTALL \<or> field_type = NTP_EF_AUTOKEY_KEY_ROTATE \<or>
               field_type = NTP_EF_AUTOKEY_KEY_REVOKE then
         bindR (ext_autokey_field data pos field_type field_len g) (\<lambda>g'.
           Inr (ExtContinue (pos + unat field_len) (skipped + uint field_len) g'))
       else if field_type = NTP_EF_CHECKSUM_COMP then
         Inr (ExtContinue (pos + unat field_len) (skipped + uint field_len) g)
       else if field_type = NTP_EF_MAC then
         Inr (ExtContinue (pos + unat field_len) (skipped + uint field_len) g)
       else if field_type = NTP_EF_CRYPTO_NAK then
         Inr (ExtReturn (int pos + uint field_len - 48) g)
       else if 4 \<le> field_len \<and> pos + unat field_len \<le> sz then
         Inr (ExtContinue (pos + unat field_len) (skipped + uint field_len) g)
       else Inr (ExtBreak g))"

partial_function (option) ext_loop ::
    "u8 list \<Rightarrow> nat \<Rightarrow> nat \<Rightarrow> int \<Rightarrow> IdoState \<Rightarrow> (int \<times> IdoState) run option" where
  "ext_loop data sz pos skipped g =
     (if pos + 4 \<le> sz then
        (case ext_step data sz pos skipped g of
           Inl e \<Rightarrow> Some (Inl e)
         | Inr next \<Rightarrow>
             (case next of
                ExtContinue pos' skipped' g' \<Rightarrow> ext_loop data sz pos' skipped' g'
              | ExtBreak g' \<Rightarrow> Some (Inr (skipped, g'))
              | ExtReturn r g' \<Rightarrow> Some (Inr (r, g'))))
      else Some (Inr (skipped, g)))"

definition skip_extension_fields :: "u8 list \<Rightarrow> nat \<Rightarrow> IdoState \<Rightarrow> (int \<times> IdoState) run" where
  "skip_extension_fields data sz g =
     (if sz \<le> 48 then Inr (0, g)
      else (case ext_loop data sz 48 0 g of None \<Rightarrow> Inl Diverges | Some r \<Rightarrow> r))"

subsection \<open>Parsing a packet\<close>

definition ntp_is_kod :: "NtpPacket option \<Rightarrow> bool" where
  "ntp_is_kod p =
     (case p of None \<Rightarrow> False
      | Some pkt \<Rightarrow> pkt_stratum pkt = 127 \<and> leap_of (pkt_li_vn_mode pkt) = 3)"

definition read_ts :: "u8 list \<Rightarrow> nat \<Rightarrow> NtpTimestamp run" where
  "read_ts data i =
     bindR (read_u32be data i) (\<lambda>s. bindR (read_u32be data (i + 4)) (\<lambda>f.
       Inr \<lparr>ts_sec = s, ts_frac = f\<rparr>))"

text \<open>The 48 bytes of the header into the packet; the other fields keep their value.\<close>

definition read_header :: "u8 list \<Rightarrow> NtpPacket \<Rightarrow> NtpPacket run" where
  "read_header data pkt =
     bindR (mem_read data 0) (\<lambda>b0. bindR (mem_read data 1) (\<lambda>b1.
     bindR (mem_read data 2) (\<lambda>b2. bindR (mem_read data 3) (\<lambda>b3.
     bindR (read_u32be data 4) (\<lambda>rdelay. bindR (read_u32be data 8) (\<lambda>rdisp.
     bindR (read_u32be data 12) (\<lambda>rid.
     bindR (read_ts data 16) (\<lambda>refts. bindR (read_ts data 24) (\<lambda>orig.
     bindR (read_ts data 32) (\<lambda>recv. bindR (read_ts data 40) (\<lambda>xmit.
       Inr (pkt\<lparr>pkt_li_vn_mode := b0, pkt_stratum := b1, pkt_poll := b2, pkt_precision := b3,
                pkt_root_delay := rdelay, pkt_root_disp := rdisp, pkt_ref_id := rid,
                pkt_ref_ts := refts, pkt_orig_ts := orig, pkt_recv_ts := recv,
                pkt_xmit_ts := xmit\<rparr>))))))))))))"

definition read_mac :: "u8 list \<Rightarrow> nat \<Rightarrow> NtpPacket \<Rightarrow> NtpPacket run" where
  "read_mac data sz pkt =
     (if 68 < sz then
        bindR (mem_read data 64) (\<lambda>k. bindR (mem_slice data 65 20) (\<lambda>mac.
          Inr (pkt\<lparr>pkt_key_id := k, pkt_mac_digest := mac\<rparr>)))
      else Inr pkt)"

definition parse_ntp_packet ::
    "u8 list option \<Rightarrow> nat \<Rightarrow> NtpPacket option \<Rightarrow> IdoState \<Rightarrow>
     (bool \<times> NtpPacket option \<times> IdoState) run" where
  "parse_ntp_packet buffer sz p g =
     (case (buffer, p) of
        (Some data, Some pkt) \<Rightarrow>
          if sz < 48 then Inr (False, p, g)
          else bindR (skip_extension_fields data sz g) (\<lambda>(ext_len, g').
            if ntp_is_kod (Some pkt) then Inr (False, p, g')
            else bindR (read_header data pkt) (\<lambda>pkt1. bindR (read_mac data sz pkt1) (\<lambda>pkt2.
              let li = leap_of (pkt_li_vn_mode pkt2); vn = version_of (pkt_li_vn_mode pkt2);
                  mode = mode_of (pkt_li_vn_mode pkt2)
              in Inr (if vn \<noteq> NTP_VN_4 then False
                      else if mode = 0 \<or> 7 < mode then False
                      else if 3 < li then False
                      else if 16 < pkt_stratum pkt2 then False
                      else True, Some pkt2, g'))))
      | _ \<Rightarrow> Inr (False, p, g))"

subsection \<open>Building a request\<close>

text \<open>
  \<open>poll\<close> and \<open>precision\<close> are the bytes of the globals \<open>g_local_poll\<close> and
  \<open>g_local_precision\<close>; \<open>now\<close> is the clock reading inside \<open>ntp_timestamp_now\<close>.
\<close>

definition create_ntp_request ::
    "u8 list option \<Rightarrow> u8 \<Rightarrow> u8 \<Rightarrow> timespec option \<Rightarrow> (u8 list option \<times> NtpTimestamp option) run" where
  "create_ntp_request buffer poll precision now =
     (case buffer of
        None \<Rightarrow> Inr (None, None)
      | Some p \<Rightarrow>
          if length p < 48 then Inl Undefined
          else (let p0 = replicate 48 0 @ drop 48 p;
                    p1 = p0[0 := push_bit 6 0 OR push_bit 3 NTP_VN_4 OR 3, 1 := 0,
                            2 := (if sint poll < 0 then 12 else poll), 3 := precision];
                    t1 = ntp_timestamp_now now
                in bindR (write_u32be p1 40 (ts_sec t1)) (\<lambda>p2.
                   bindR (write_u32be p2 44 (ts_frac t1)) (\<lambda>p3.
                     Inr (Some p3, Some t1)))))"

subsection \<open>The wire format of the header\<close>

text \<open>
  The abstract side of \<open>read_header\<close>: the 48 bytes a header is written as, and the
  packet that 48 bytes stand for.
\<close>

definition hdr_bytes :: "NtpPacket \<Rightarrow> u8 list" where
  "hdr_bytes q =
     [pkt_li_vn_mode q, pkt_stratum q, pkt_poll q, pkt_precision q] @
     u32_to_bytes (pkt_root_delay q) @ u32_to_bytes (pkt_root_disp q) @
     u32_to_bytes (pkt_ref_id q) @ ts_bytes (pkt_ref_ts q) @ ts_bytes (pkt_orig_ts q) @
     ts_bytes (pkt_recv_ts q) @ ts_bytes (pkt_xmit_ts q)"

definition hdr_dec :: "u8 list \<Rightarrow> NtpPacket \<Rightarrow> NtpPacket" where
  "hdr_dec data pkt =
     pkt\<lparr>pkt_li_vn_mode := data ! 0, pkt_stratum := data ! 1, pkt_poll := data ! 2,
         pkt_precision := data ! 3,
         pkt_root_delay := u32_dec (take 4 (drop 4 data)),
         pkt_root_disp := u32_dec (take 4 (drop 8 data)),
         pkt_ref_id := u32_dec (take 4 (drop 12 data)),
         pkt_ref_ts := ts_dec (take 8 (drop 16 data)),
         pkt_orig_ts := ts_dec (take 8 (drop 24 data)),
         pkt_recv_ts := ts_dec (take 8 (drop 32 data)),
         pkt_xmit_ts := ts_dec (take 8 (drop 40 data))\<rparr>"

definition same_body :: "NtpPacket \<Rightarrow> NtpPacket \<Rightarrow> bool" where
  "same_body p q \<longleftrightarrow> pkt_extension_len p = pkt_extension_len q \<and> pkt_key_id p = pkt_key_id q \<and>
     pkt_mac_digest p = pkt_mac_digest q"

lemma length_hdr_bytes [simp]: "length (hdr_bytes q) = 48"
  by (simp add: hdr_bytes_def)

lemma read_ts_eq:
  "read_ts data i =
     (if i + 7 < length data then Inr (ts_dec (take 8 (drop i data))) else Inl Undefined)"
  by (auto simp: read_ts_def read_u32be_eq ts_dec_def drop_take add.commute)

lemma read_header_eq:
  "read_header data pkt = (if 48 \<le> length data then Inr (hdr_dec data pkt) else Inl Undefined)"
  by (auto simp: read_header_def mem_read_def read_u32be_eq read_ts_eq hdr_dec_def)

lemma take_split: "take (m + n) xs = take m xs @ take n (drop m xs)"
  by (rule take_add)

lemma hdr_bytes_dec:
  assumes "48 \<le> length data"
  shows "hdr_bytes (hdr_dec data pkt) = take 48 data"
proof -
  have "take 48 data = take 4 (drop 0 data) @ take 4 (drop 4 data) @ take 4 (drop 8 data) @
      take 4 (drop 12 data) @ take 8 (drop 16 data) @ take 8 (drop 24 data) @
      take 8 (drop 32 data) @ take 8 (drop 40 data)"
    using take_split [of 4 44 data] take_split [of 4 40 "drop 4 data"]
      take_split [of 4 36 "drop 8 data"] take_split [of 4 32 "drop 12 data"]
      take_split [of 8 24 "drop 16 data"] take_split [of 8 16 "drop 24 data"]
      take_split [of 8 8 "drop 32 data"]
    by simp
  then show ?thesis
    using assms take_4_drop [of 0 data]
    by (simp add: hdr_bytes_def hdr_dec_def u32c.enc_dec tsc.enc_dec numeral_2_eq_2)
qed

lemma hdr_dec_bytes:
  "hdr_dec (hdr_bytes q @ rest) pkt =
     pkt\<lparr>pkt_li_vn_mode := pkt_li_vn_mode q, pkt_stratum := pkt_stratum q,
         pkt_poll := pkt_poll q, pkt_precision := pkt_precision q,
         pkt_root_delay := pkt_root_delay q, pkt_root_disp := pkt_root_disp q,
         pkt_ref_id := pkt_ref_id q, pkt_ref_ts := pkt_ref_ts q, pkt_orig_ts := pkt_orig_ts q,
         pkt_recv_ts := pkt_recv_ts q, pkt_xmit_ts := pkt_xmit_ts q\<rparr>"
  by (simp add: hdr_dec_def hdr_bytes_def u32c.dec_enc tsc.dec_enc)

lemma hdr_dec_same_body: "same_body (hdr_dec data pkt) pkt"
  by (simp add: hdr_dec_def same_body_def)

subsection \<open>What the extension walk does\<close>

lemma header_at_48_refused: "parse_extension_field_header data 48 = Inr (- 1, 0, 0)"
  by (simp add: parse_extension_field_header_def)

text \<open>
  The extension field walk over a received packet always ends, and never gets past
  the first field: it returns 0 and leaves the negotiation state alone, whatever the
  packet holds. (\<open>parse_extension_field_header\<close> refuses every position after byte 44,
  and the walk starts at 48, so no I-DO, NTS, Autokey or MAC field is ever processed.)
\<close>

theorem skip_extension_fields_inert: "skip_extension_fields data sz g = Inr (0, g)"
  by (simp add: skip_extension_fields_def ext_loop.simps ext_step_def
      header_at_48_refused)

lemma skip_inert: "skip_extension_fields data sz g = Inr (0, g)"
  by (simp add: skip_extension_fields_def ext_loop.simps ext_step_def
      header_at_48_refused)

subsection \<open>What the parser accepts\<close>

definition accepted :: "NtpPacket \<Rightarrow> bool" where
  "accepted pkt \<longleftrightarrow> version_of (pkt_li_vn_mode pkt) = NTP_VN_4 \<and> mode_of (pkt_li_vn_mode pkt) \<noteq> 0 \<and>
     pkt_stratum pkt \<le> 16"

lemma mode_of_le: "mode_of b \<le> 7"
  unfolding mode_of_def by (rule word_and_le1)

lemma leap_of_le: "leap_of b \<le> 3"
proof -
  have "uint (drop_bit 6 (b AND 0xC0)) \<le> 3"
    using uint_lt2p [of "b AND 0xC0"] by (simp add: drop_bit_eq_div uint_div)
  then show ?thesis by (simp add: leap_of_def word_le_def)
qed

definition mac_read :: "u8 list \<Rightarrow> nat \<Rightarrow> NtpPacket \<Rightarrow> NtpPacket" where
  "mac_read data sz pkt =
     (if 68 < sz then pkt\<lparr>pkt_key_id := data ! 64, pkt_mac_digest := take 20 (drop 65 data)\<rparr> else pkt)"

lemma read_mac_eq:
  "read_mac data sz pkt =
     (if sz \<le> 68 \<or> 85 \<le> length data then Inr (mac_read data sz pkt) else Inl Undefined)"
  by (auto simp: read_mac_def mac_read_def mem_read_def mem_slice_def)

text \<open>The parser on non-null arguments, in one equation.\<close>

lemma parse_ntp_packet_eq:
  "parse_ntp_packet (Some data) sz (Some pkt) g =
     (if sz < 48 then Inr (False, Some pkt, g)
      else if ntp_is_kod (Some pkt) then Inr (False, Some pkt, g)
      else if 48 \<le> length data \<and> (sz \<le> 68 \<or> 85 \<le> length data) then
        Inr (accepted (hdr_dec data pkt), Some (mac_read data sz (hdr_dec data pkt)), g)
      else Inl Undefined)"
proof -
  have "\<not> 7 < mode_of b" "\<not> 3 < leap_of b" for b
    using mode_of_le [of b] leap_of_le [of b] by (simp_all add: not_less)
  then show ?thesis
    by (auto simp: parse_ntp_packet_def skip_inert read_header_eq read_mac_eq Let_def accepted_def
        mac_read_def)
qed



text \<open>A blank record, as \<open>memset\<close> leaves it, and a packet of 48 bytes for the witnesses.\<close>

definition zero_packet :: NtpPacket where
  "zero_packet = \<lparr>pkt_li_vn_mode = 0, pkt_stratum = 0, pkt_poll = 0, pkt_precision = 0,
     pkt_root_delay = 0, pkt_root_disp = 0, pkt_ref_id = 0,
     pkt_ref_ts = \<lparr>ts_sec = 0, ts_frac = 0\<rparr>, pkt_orig_ts = \<lparr>ts_sec = 0, ts_frac = 0\<rparr>,
     pkt_recv_ts = \<lparr>ts_sec = 0, ts_frac = 0\<rparr>, pkt_xmit_ts = \<lparr>ts_sec = 0, ts_frac = 0\<rparr>,
     pkt_extension_len = 0, pkt_key_id = 0, pkt_mac_digest = replicate 20 0\<rparr>"

definition sample_packet :: "u8 list" where
  "sample_packet = [0x24, 2] @ replicate 46 0"

text \<open>
  C11: memory safety of the parser, exactly. It returns if and only if the claimed size
  is below 48, or the record passed in already looks like a Kiss-o'-Death packet, or the
  allocation holds the 48-byte header and, when the claimed size exceeds 68, the 85 bytes
  that the MAC is copied from. A packet of 69 to 84 bytes in a buffer of its own size is
  read past its end.
\<close>

theorem parse_memory_safe_iff:
  "returns (parse_ntp_packet (Some data) sz (Some pkt) g) \<longleftrightarrow>
     sz < 48 \<or> ntp_is_kod (Some pkt) \<or>
     (48 \<le> length data \<and> (sz \<le> 68 \<or> 85 \<le> length data))"
  by (auto simp: parse_ntp_packet_eq)

lemma parsed_not_kod:
  assumes p: "parse_ntp_packet buffer sz p g = Inr (True, p', g')"
  shows "\<not> ntp_is_kod p'"
proof -
  obtain data pkt where b: "buffer = Some data" "p = Some pkt"
    using p by (auto simp: parse_ntp_packet_def split: option.splits)
  with p have "p' = Some (mac_read data sz (hdr_dec data pkt))" "accepted (hdr_dec data pkt)"
    by (auto simp: parse_ntp_packet_eq split: if_splits)
  then show ?thesis by (auto simp: ntp_is_kod_def mac_read_def accepted_def)
qed

text \<open>
  No packet that the parser accepts is a Kiss-o'-Death packet in the sense of
  \<open>ntp_is_kod\<close> (stratum 127 and leap 3): the stratum check of the parser rejects it first,
  so the Kiss-o'-Death branches of its callers are dead.
\<close>

theorem parsed_is_not_kod:
  "parse_ntp_packet buffer sz p g = Inr (True, p', g') \<Longrightarrow> \<not> ntp_is_kod p'"
by (rule parsed_not_kod)

theorem parsed_is_not_kod_witness:
  "\<not> ntp_is_kod (Some (hdr_dec sample_packet zero_packet))"
  by (rule parsed_is_not_kod [of "Some sample_packet" 48 "Some zero_packet" ido_zero _ ido_zero])
    (simp add: parse_ntp_packet_eq sample_packet_def ntp_is_kod_def zero_packet_def accepted_def
      hdr_dec_def mac_read_def version_of_def mode_of_def)

subsection \<open>Requests\<close>

lemma create_ntp_request_eq:
  assumes "length buf = 48"
  shows "create_ntp_request (Some buf) poll precision now =
    Inr (Some ([0x23, 0, if sint poll < 0 then 12 else poll, precision] @ replicate 36 0 @
               ts_bytes (ntp_timestamp_now now)), Some (ntp_timestamp_now now))"
proof -
  have "[push_bit 6 0 OR push_bit 3 NTP_VN_4 OR 3, 0] = [0x23 :: u8, 0]" by simp
  then show ?thesis
    using assms
    by (simp add: create_ntp_request_def Let_def write_u32be_eq ts_bytes_def numeral_eq_Suc)
qed

lemma request_parses:
  assumes "length buf = 48" and "\<not> ntp_is_kod (Some pkt)"
  shows "\<exists>req t1 pkt'. create_ntp_request (Some buf) poll precision now = Inr (Some req, Some t1) \<and>
    length req = 48 \<and> parse_ntp_packet (Some req) 48 (Some pkt) g = Inr (True, Some pkt', g) \<and>
    t1 = ntp_timestamp_now now \<and> pkt_xmit_ts pkt' = t1 \<and>
    leap_of (pkt_li_vn_mode pkt') = 0 \<and> version_of (pkt_li_vn_mode pkt') = NTP_VN_4 \<and>
    mode_of (pkt_li_vn_mode pkt') = NTP_MODE_CLIENT \<and> pkt_stratum pkt' = 0 \<and>
    pkt_poll pkt' = (if sint poll < 0 then 12 else poll) \<and> pkt_precision pkt' = precision \<and>
    pkt_orig_ts pkt' = \<lparr>ts_sec = 0, ts_frac = 0\<rparr> \<and> pkt_recv_ts pkt' = \<lparr>ts_sec = 0, ts_frac = 0\<rparr>"
proof -
  let ?t = "ntp_timestamp_now now"
  let ?q = "zero_packet\<lparr>pkt_li_vn_mode := 0x23, pkt_poll := (if sint poll < 0 then 12 else poll),
    pkt_precision := precision, pkt_xmit_ts := ?t\<rparr>"
  let ?req = "[0x23, 0, if sint poll < 0 then 12 else poll, precision] @ replicate 36 0 @ ts_bytes ?t"
  have "hdr_bytes ?q = ?req"
    by (simp add: hdr_bytes_def zero_packet_def u32_to_bytes_def ts_bytes_def numeral_eq_Suc)
  then have req: "?req = hdr_bytes ?q @ []" by simp
  define d where "d = hdr_dec ?req pkt"
  have fields: "pkt_xmit_ts d = ?t" "pkt_li_vn_mode d = 0x23" "pkt_stratum d = 0"
    "pkt_poll d = (if sint poll < 0 then 12 else poll)" "pkt_precision d = precision" "pkt_orig_ts d = \<lparr>ts_sec = 0, ts_frac = 0\<rparr>"
    "pkt_recv_ts d = \<lparr>ts_sec = 0, ts_frac = 0\<rparr>"
    unfolding d_def req hdr_dec_bytes by (simp_all add: zero_packet_def)
  have bits: "leap_of 0x23 = 0" "version_of 0x23 = NTP_VN_4" "mode_of 0x23 = NTP_MODE_CLIENT"
    by (simp_all add: leap_of_def version_of_def mode_of_def)
  have "accepted d" by (simp add: accepted_def fields bits)
  then have parse: "parse_ntp_packet (Some ?req) 48 (Some pkt) g = Inr (True, Some d, g)"
    using assms(2) by (simp add: parse_ntp_packet_eq mac_read_def d_def)
  define r where "r = ?req"
  have "create_ntp_request (Some buf) poll precision now = Inr (Some r, Some ?t)"
    unfolding r_def by (rule create_ntp_request_eq [OF assms(1)])
  moreover have "length r = 48" by (simp add: r_def)
  moreover have "parse_ntp_packet (Some r) 48 (Some pkt) g = Inr (True, Some d, g)"
    unfolding r_def by (rule parse)
  ultimately show ?thesis
    by (intro exI [of _ r] exI [of _ ?t] exI [of _ d]) (simp add: fields bits)
qed

text \<open>
  The request the client builds parses back, in any record that does not look like a
  Kiss-o'-Death packet: version 4, client mode, leap indicator 0, stratum 0, the transmit
  timestamp that the client keeps for the origin check, and zero in the other timestamps.
\<close>

theorem request_roundtrip:
  assumes "length buf = 48" and "\<not> ntp_is_kod (Some pkt)"
  shows "\<exists>req t1 pkt'. create_ntp_request (Some buf) poll precision now = Inr (Some req, Some t1) \<and>
    length req = 48 \<and> parse_ntp_packet (Some req) 48 (Some pkt) g = Inr (True, Some pkt', g) \<and>
    t1 = ntp_timestamp_now now \<and> pkt_xmit_ts pkt' = t1 \<and>
    leap_of (pkt_li_vn_mode pkt') = 0 \<and> version_of (pkt_li_vn_mode pkt') = NTP_VN_4 \<and>
    mode_of (pkt_li_vn_mode pkt') = NTP_MODE_CLIENT \<and> pkt_stratum pkt' = 0 \<and>
    pkt_poll pkt' = (if sint poll < 0 then 12 else poll) \<and> pkt_precision pkt' = precision \<and>
    pkt_orig_ts pkt' = \<lparr>ts_sec = 0, ts_frac = 0\<rparr> \<and> pkt_recv_ts pkt' = \<lparr>ts_sec = 0, ts_frac = 0\<rparr>"
by (rule request_parses [OF assms])

theorem request_roundtrip_witness:
  "\<exists>req t1 pkt'. create_ntp_request (Some (replicate 48 0)) 6 0xEC
      (Some \<lparr>tv_sec = 1700000000, tv_nsec = 5\<rparr>) = Inr (Some req, Some t1) \<and>
    length req = 48 \<and> parse_ntp_packet (Some req) 48 (Some zero_packet) ido_zero
      = Inr (True, Some pkt', ido_zero) \<and>
    t1 = ntp_timestamp_now (Some \<lparr>tv_sec = 1700000000, tv_nsec = 5\<rparr>) \<and> pkt_xmit_ts pkt' = t1 \<and>
    leap_of (pkt_li_vn_mode pkt') = 0 \<and> version_of (pkt_li_vn_mode pkt') = NTP_VN_4 \<and>
    mode_of (pkt_li_vn_mode pkt') = NTP_MODE_CLIENT \<and> pkt_stratum pkt' = 0 \<and>
    pkt_poll pkt' = (if sint (6 :: u8) < 0 then 12 else 6) \<and> pkt_precision pkt' = 0xEC \<and>
    pkt_orig_ts pkt' = \<lparr>ts_sec = 0, ts_frac = 0\<rparr> \<and> pkt_recv_ts pkt' = \<lparr>ts_sec = 0, ts_frac = 0\<rparr>"
  by (rule request_roundtrip) (simp_all add: ntp_is_kod_def zero_packet_def)

end
