(* ===== verification/Algorithms.thy ===== *)
theory Algorithms
  imports Clock
begin

section \<open>Selection and on-wire arithmetic (ntp_algorithms.c)\<close>

text \<open>
  Offsets are \<open>int64_t\<close>: integers whose every sum, difference and negation passes
  through \<open>i64\<close>. Arrays are lists; the fixed-size local arrays \<open>sorted[MAX_PEERS]\<close>
  show as a bound of 8 beyond which the copy loop is \<open>Undefined\<close>. \<open>qsort\<close> with
  \<open>compare_int64\<close> is \<open>sort\<close>, the only sorted permutation. A pointer tested
  against \<open>NULL\<close> is an option; output parameters are results.
  \<open>handle_leap_indicator\<close>, which schedules leap seconds, is in LeapSecond.
\<close>

abbreviation FALSETICKER_THRESHOLD_US :: int where "FALSETICKER_THRESHOLD_US \<equiv> 250000"
abbreviation JITTER_THRESHOLD_US :: u64 where "JITTER_THRESHOLD_US \<equiv> 100000"
abbreviation MAX_PEERS :: nat where "MAX_PEERS \<equiv> 8"
abbreviation NS_PER_SEC :: int where "NS_PER_SEC \<equiv> 1000000000"
abbreviation INT64_MAX :: int where "INT64_MAX \<equiv> 9223372036854775807"
abbreviation INT64_MIN :: int where "INT64_MIN \<equiv> - 9223372036854775808"

subsection \<open>Helpers\<close>

definition abs64 :: "int \<Rightarrow> int run" where
  "abs64 v = (if v < 0 then i64 (- v) else Inr v)"

definition compare_int64 :: "int \<Rightarrow> int \<Rightarrow> int" where
  "compare_int64 va vb = (if va < vb then - 1 else if vb < va then 1 else 0)"

definition qsort_int64 :: "int list \<Rightarrow> int list" where
  "qsort_int64 xs = sort xs"

text \<open>Copying \<open>count\<close> offsets into a local array of \<open>MAX_PEERS\<close> and sorting it.\<close>

definition sorted_copy :: "int list \<Rightarrow> nat \<Rightarrow> int list run" where
  "sorted_copy offsets count =
     (if count \<le> length offsets \<and> count \<le> MAX_PEERS
      then Inr (qsort_int64 (take count offsets)) else Inl Undefined)"

subsection \<open>Time conversion, delay and offset\<close>

definition ntp_timestamp_to_ns :: "NtpTimestamp option \<Rightarrow> int run" where
  "ntp_timestamp_to_ns t =
     (case t of
        None \<Rightarrow> Inr 0
      | Some t \<Rightarrow>
          (let sec = uint (ts_sec t) - NTP_UNIX_EPOCH_DELTA
           in if INT64_MAX sdiv NS_PER_SEC - 1 < sec then Inr INT64_MAX
              else if sec < INT64_MIN sdiv NS_PER_SEC + 1 then Inr INT64_MIN
              else (let nsec = uint (drop_bit 32 ((ucast (ts_frac t) :: u64) * 1000000000))
                    in bindR (i64 (sec * NS_PER_SEC)) (\<lambda>s. i64 (s + nsec)))))"

text \<open>\<open>None\<close> is the answer \<open>false\<close>; otherwise the delay and the offset.\<close>

definition calculate_delay_offset ::
    "NtpTimestamp option \<Rightarrow> NtpTimestamp option \<Rightarrow> NtpTimestamp option \<Rightarrow> NtpTimestamp option \<Rightarrow>
     (u64 \<times> int) option run" where
  "calculate_delay_offset t1 t2 t3 t4 =
     (if t1 = None \<or> t2 = None \<or> t3 = None \<or> t4 = None then Inr None
      else bindR (ntp_timestamp_to_ns t1) (\<lambda>T1. bindR (ntp_timestamp_to_ns t2) (\<lambda>T2.
        bindR (ntp_timestamp_to_ns t3) (\<lambda>T3. bindR (ntp_timestamp_to_ns t4) (\<lambda>T4.
        bindR (i64 (T4 - T1)) (\<lambda>a. bindR (i64 (T3 - T2)) (\<lambda>b. bindR (i64 (a - b)) (\<lambda>delay_ns.
        bindR (i64 (T2 - T1)) (\<lambda>c. bindR (i64 (T3 - T4)) (\<lambda>d. bindR (i64 (c + d)) (\<lambda>sum.
          let offset_ns = sum sdiv 2
          in if delay_ns < 0 then Inr None
             else Inr (Some (word_of_int (delay_ns sdiv 1000), offset_ns sdiv 1000)))))))))))))"

definition ntp_local_stratum_from_peer :: "u8 \<Rightarrow> u8" where
  "ntp_local_stratum_from_peer peer_stratum =
     (if peer_stratum = 0 \<or> 15 < peer_stratum then 16
      else (let s = (ucast peer_stratum :: u16) + 1 in if 15 < s then 15 else ucast s))"

definition ntp_u16_16_from_us :: "u64 \<Rightarrow> u32" where
  "ntp_u16_16_from_us us =
     (if 0xFFFFFFFFFFFFFFFF div 65536 < us then 0xFFFFFFFF
      else (let v = (us * 65536) div 1000000 in if 0xFFFFFFFF < v then 0xFFFFFFFF else ucast v))"

definition calculate_network_quality :: "u64 \<Rightarrow> u8" where
  "calculate_network_quality delay =
     (let quality = 100 - uint (delay div 1000)
      in if quality < 0 then 0 else if 100 < quality then 100 else word_of_int quality)"

subsection \<open>Byzantine selection\<close>

definition is_false_ticker :: "int \<Rightarrow> int \<Rightarrow> bool run" where
  "is_false_ticker peer_offset cluster_offset =
     bindR (i64 (peer_offset - cluster_offset)) (\<lambda>d. bindR (abs64 d) (\<lambda>a.
       Inr (FALSETICKER_THRESHOLD_US < a)))"

text \<open>The vote loop: how many offsets are near the median, and the last of them.\<close>

fun vote_loop :: "int \<Rightarrow> int list \<Rightarrow> nat \<times> int \<Rightarrow> (nat \<times> int) run" where
  "vote_loop median [] acc = Inr acc"
| "vote_loop median (x # xs) (match_count, match_value) =
     bindR (i64 (x - median)) (\<lambda>d. bindR (abs64 d) (\<lambda>a.
       vote_loop median xs
         (if a < FALSETICKER_THRESHOLD_US then (match_count + 1, x) else (match_count, match_value))))"

definition majority_vote :: "int list option \<Rightarrow> int \<Rightarrow> int run" where
  "majority_vote offsets count =
     (case offsets of
        None \<Rightarrow> Inr 0
      | Some offs \<Rightarrow>
          if count < 1 then Inr 0
          else if length offs < nat count then Inl Undefined
          else if count = 1 then Inr (offs ! 0)
          else if count < 3 then
            (if offs ! 0 = offs ! 1 then Inr (offs ! 0)
             else bindR (i64 (offs ! 0 + offs ! 1)) (\<lambda>s. Inr (s sdiv 2)))
          else bindR (sorted_copy offs (nat count)) (\<lambda>sorted.
            let median = sorted ! (nat count div 2)
            in bindR (vote_loop median (take (nat count) offs) (0, 0)) (\<lambda>(match_count, match_value).
              Inr (if nat count div 2 < match_count then match_value else median))))"

fun count_true_tickers :: "int \<Rightarrow> int list \<Rightarrow> nat \<Rightarrow> nat run" where
  "count_true_tickers median [] valid = Inr valid"
| "count_true_tickers median (x # xs) valid =
     bindR (is_false_ticker x median) (\<lambda>f.
       count_true_tickers median xs (if f then valid else valid + 1))"

text \<open>
  \<open>best\<close> says whether the pointer \<open>best_idx\<close> is given; the result holds what is
  stored through it.
\<close>

definition compute_system_offset :: "int list option \<Rightarrow> int \<Rightarrow> bool \<Rightarrow> (u8 \<times> int option) run" where
  "compute_system_offset offsets count best =
     (if count < 1 \<or> offsets = None then Inr (16, if best then Some 0 else None)
      else bindR (sorted_copy (the offsets) (nat count)) (\<lambda>sorted.
        let median = sorted ! (nat count div 2)
        in bindR (count_true_tickers median (take (nat count) (the offsets)) 0) (\<lambda>valid.
          if valid = 0 then Inr (16, if best then Some 0 else None)
          else bindR (majority_vote offsets count) (\<lambda>m.
            let m1 = (if 127 < m then 127 else m);
                m2 = (if m1 < - 128 then - 128 else m1)
            in if best then Inr (word_of_int m2 AND 0xFF, Some 0) else Inl Undefined))))"

text \<open>
  The two loops of \<open>select_best_peers\<close> over the output array: the first writes the
  indices near the median, the second keeps those of low jitter, in the same array.
\<close>

fun select_near :: "int list \<Rightarrow> int \<Rightarrow> nat list \<Rightarrow> nat list \<times> nat \<Rightarrow> (nat list \<times> nat) run" where
  "select_near offsets median [] acc = Inr acc"
| "select_near offsets median (i # is) (vi, valid) =
     bindR (i64 (offsets ! i - median)) (\<lambda>d.
     bindR (if d < 0 then i64 (- d) else Inr d) (\<lambda>diff.
       if INT64_MAX < diff then select_near offsets median is (vi, valid)
       else if diff < FALSETICKER_THRESHOLD_US then
         (if valid < length vi then select_near offsets median is (vi[valid := i], valid + 1)
          else Inl Undefined)
       else select_near offsets median is (vi, valid)))"

fun select_calm :: "u64 list \<Rightarrow> nat list \<Rightarrow> nat list \<times> nat \<Rightarrow> (nat list \<times> nat) run" where
  "select_calm jitter [] acc = Inr acc"
| "select_calm jitter (i # is) (vi, k) =
     (let peer_idx = vi ! i
      in if length jitter \<le> peer_idx then Inl Undefined
         else if JITTER_THRESHOLD_US < jitter ! peer_idx then select_calm jitter is (vi, k)
         else select_calm jitter is (vi[k := peer_idx], k + 1))"

text \<open>Result: the return code, the output array and the output count, when stored.\<close>

definition select_best_peers ::
    "int list option \<Rightarrow> u64 list \<Rightarrow> int \<Rightarrow> nat list option \<Rightarrow> bool \<Rightarrow>
     (int \<times> nat list option \<times> nat option) run" where
  "select_best_peers offsets jitter count valid_indices valid_count =
     (if count < 1 \<or> offsets = None \<or> valid_indices = None \<or> \<not> valid_count then
        Inr (- 1, valid_indices, if valid_count then Some 0 else None)
      else
        (let n = (if int MAX_PEERS < count then MAX_PEERS else nat count)
         in bindR (sorted_copy (the offsets) n) (\<lambda>sorted.
            let median = sorted ! (n div 2)
            in bindR (select_near (the offsets) median [0..<n] (the valid_indices, 0)) (\<lambda>(vi, valid).
               if valid = 0 then Inr (0, Some vi, Some 0)
               else bindR (select_calm jitter [0..<valid] (vi, 0)) (\<lambda>(vi', k).
                 Inr (0, Some vi', Some k))))))"


subsection \<open>Time conversion: exact, and never out of range\<close>

text \<open>The abstract reading of a timestamp: nanoseconds since 1970, rounded down.\<close>

definition ts_ns :: "NtpTimestamp \<Rightarrow> int" where
  "ts_ns t = (uint (ts_sec t) - 2208988800) * 1000000000 + uint (ts_frac t) * 1000000000 div 2 ^ 32"

lemma frac_ns:
  "uint (drop_bit 32 ((ucast (f :: u32) :: u64) * 1000000000)) = uint f * 1000000000 div 2 ^ 32"
proof -
  have "uint f < 2 ^ 32" using uint_lt2p [of f] by simp
  then have "uint ((ucast f :: u64) * 1000000000) = uint f * 1000000000"
    by (simp add: uint_word_ariths unsigned_ucast_eq take_bit_eq_mod)
  then show ?thesis by (simp add: drop_bit_eq_div uint_div)
qed

lemma ts_ns_bounds:
  "- 2208988800000000000 \<le> ts_ns t" "ts_ns t < 2085978496000000000"
proof -
  have s: "0 \<le> uint (ts_sec t)" "uint (ts_sec t) < 4294967296" using uint_lt2p [of "ts_sec t"] by simp_all
  have f: "0 \<le> uint (ts_frac t)" "uint (ts_frac t) < 4294967296" using uint_lt2p [of "ts_frac t"] by simp_all
  let ?n = "uint (ts_frac t) * 1000000000 div 2 ^ 32"
  have n: "0 \<le> ?n" "?n < 1000000000" using f by simp_all
  then show "- 2208988800000000000 \<le> ts_ns t" "ts_ns t < 2085978496000000000"
    using s unfolding ts_ns_def by simp_all
qed

lemma timestamp_to_ns_eq: "ntp_timestamp_to_ns (Some t) = Inr (ts_ns t)"
proof -
  obtain u where u: "uint (ts_sec t) = u" "0 \<le> u" "u < 4294967296"
    using uint_lt2p [of "ts_sec t"] by simp
  have "INT64_MAX sdiv NS_PER_SEC = 9223372036" "INT64_MIN sdiv NS_PER_SEC = - 9223372036"
    by (simp_all add: sdiv_pos_eq)
  moreover have "in_i64 ((u - 2208988800) * 1000000000)" "in_i64 (ts_ns t)"
    using u ts_ns_bounds [of t] by (simp_all add: in_i64_iff)
  ultimately show ?thesis
    using u(2,3) by (simp add: ntp_timestamp_to_ns_def Let_def frac_ns ts_ns_def u(1))
qed

text \<open>
  The conversion to nanoseconds is exact for every NTP timestamp, rounding the
  fraction down: no intermediate value leaves \<open>int64_t\<close> and the clamping branches are
  never taken.
\<close>

theorem timestamp_to_ns_exact:
  "ntp_timestamp_to_ns (Some t) =
     Inr ((uint (ts_sec t) - 2208988800) * 1000000000 + uint (ts_frac t) * 1000000000 div 2 ^ 32)"
  by (simp add: timestamp_to_ns_eq ts_ns_def)

lemma delay_offset_eq:
  "calculate_delay_offset (Some t1) (Some t2) (Some t3) (Some t4) =
    (let delay_ns = (ts_ns t4 - ts_ns t1) - (ts_ns t3 - ts_ns t2);
         offset_ns = ((ts_ns t2 - ts_ns t1) + (ts_ns t3 - ts_ns t4)) sdiv 2
     in Inr (if delay_ns < 0 then None
             else Some (word_of_int (delay_ns div 1000), offset_ns sdiv 1000)))"
  using ts_ns_bounds [of t1] ts_ns_bounds [of t2] ts_ns_bounds [of t3] ts_ns_bounds [of t4]
  by (simp add: calculate_delay_offset_def timestamp_to_ns_eq Let_def in_i64_iff sdiv_pos_eq)

lemma sdiv_2_near:
  fixes a :: int
  shows "2 * (a sdiv 2) \<le> a + 1" "a \<le> 2 * (a sdiv 2) + 1"
  by (simp_all add: sdiv_pos_eq) linarith+

lemma sdiv_1000_near:
  fixes a :: int
  shows "1000 * (a sdiv 1000) \<le> a + 999" "a \<le> 1000 * (a sdiv 1000) + 999"
  by (simp_all add: sdiv_pos_eq) linarith+

lemma measures_ok:
  assumes "ts_ns t2 = ts_ns t1 + d1 + theta" and "ts_ns t3 = ts_ns t2 + p"
    and "ts_ns t4 = ts_ns t3 + d2 - theta" and "0 \<le> d1 + d2"
  shows "\<exists>delay_us offset_us.
    calculate_delay_offset (Some t1) (Some t2) (Some t3) (Some t4) = Inr (Some (delay_us, offset_us)) \<and>
    uint delay_us = (d1 + d2) div 1000 \<and>
    \<bar>1000 * offset_us - theta\<bar> \<le> \<bar>d1 - d2\<bar> div 2 + 1000"
proof -
  let ?o = "(2 * theta + (d1 - d2)) sdiv 2"
  have eq: "calculate_delay_offset (Some t1) (Some t2) (Some t3) (Some t4) =
      Inr (Some (word_of_int ((d1 + d2) div 1000), ?o sdiv 1000))"
    using assms unfolding delay_offset_eq Let_def by (simp add: algebra_simps)
  have "d1 + d2 < 2 ^ 63"
    using assms ts_ns_bounds [of t1] ts_ns_bounds [of t2] ts_ns_bounds [of t3] ts_ns_bounds [of t4]
    by simp
  then have "uint (word_of_int ((d1 + d2) div 1000) :: u64) = (d1 + d2) div 1000"
    using assms(4) by (simp add: uint_word_of_int)
  moreover have "\<bar>1000 * (?o sdiv 1000) - theta\<bar> \<le> \<bar>d1 - d2\<bar> div 2 + 1000"
    using sdiv_2_near [of "2 * theta + (d1 - d2)"] sdiv_1000_near [of ?o] by linarith
  ultimately show ?thesis using eq by blast
qed

text \<open>
  The on-wire computation measures what it should. If the server clock is ahead by
  \<open>theta\<close> nanoseconds, the request takes \<open>d1\<close>, the server \<open>p\<close> and the reply \<open>d2\<close>
  nanoseconds, then for all timestamps the computation returns (no overflow), the delay is
  the round trip \<open>d1 + d2\<close> in microseconds, and the offset is \<open>theta\<close> up to half the
  asymmetry of the path and one microsecond of rounding.
\<close>

theorem delay_offset_measures:
  assumes "ts_ns t2 = ts_ns t1 + d1 + theta" and "ts_ns t3 = ts_ns t2 + p"
    and "ts_ns t4 = ts_ns t3 + d2 - theta" and "0 \<le> d1 + d2"
  shows "\<exists>delay_us offset_us.
    calculate_delay_offset (Some t1) (Some t2) (Some t3) (Some t4) = Inr (Some (delay_us, offset_us)) \<and>
    uint delay_us = (d1 + d2) div 1000 \<and>
    \<bar>1000 * offset_us - theta\<bar> \<le> \<bar>d1 - d2\<bar> div 2 + 1000"
  by (rule measures_ok [OF assms])

theorem delay_offset_measures_witness:
  "\<exists>delay_us offset_us.
    calculate_delay_offset (Some \<lparr>ts_sec = 3900000000, ts_frac = 0\<rparr>)
      (Some \<lparr>ts_sec = 3900000002, ts_frac = 0\<rparr>) (Some \<lparr>ts_sec = 3900000002, ts_frac = 0\<rparr>)
      (Some \<lparr>ts_sec = 3900000002, ts_frac = 0\<rparr>) = Inr (Some (delay_us, offset_us)) \<and>
    uint delay_us = (1000000000 + 1000000000) div 1000 \<and>
    \<bar>1000 * offset_us - 1000000000\<bar> \<le> \<bar>1000000000 - 1000000000\<bar> div 2 + 1000"
  by (rule delay_offset_measures [where p = 0]) (simp_all add: ts_ns_def)

subsection \<open>Small conversions\<close>

text \<open>
  Microseconds to the 16.16 format, for every 64-bit argument: exactly
  \<open>us * 65536 / 1000000\<close> rounded down, saturating at the largest 32-bit value; the
  early overflow test never changes the answer.
\<close>

theorem u16_16_saturates:
  "uint (ntp_u16_16_from_us us) = min (2 ^ 32 - 1) (uint us * 65536 div 1000000)"
proof (cases "281474976710655 < uint us")
  case True
  then have "0xFFFFFFFFFFFFFFFF div 65536 < us" by (simp add: word_less_def)
  then have "ntp_u16_16_from_us us = 0xFFFFFFFF" by (simp add: ntp_u16_16_from_us_def)
  moreover have "2 ^ 32 - 1 \<le> uint us * 65536 div 1000000" using True by simp
  ultimately show ?thesis by simp
next
  case False
  then have g: "\<not> 0xFFFFFFFFFFFFFFFF div 65536 < us" by (simp add: word_less_def)
  have m: "uint (us * 65536) = uint us * 65536"
    using False by (simp add: uint_word_ariths)
  then have v: "uint ((us * 65536) div 1000000) = uint us * 65536 div 1000000"
    by (simp add: uint_div)
  show ?thesis
  proof (cases "0xFFFFFFFF < (us * 65536) div 1000000")
    case True
    then have "4294967295 < uint us * 65536 div 1000000" using v by (simp add: word_less_def)
    with True g show ?thesis by (simp add: ntp_u16_16_from_us_def Let_def)
  next
    case False
    then have "uint us * 65536 div 1000000 \<le> 4294967295" using v by (simp add: word_less_def)
    with False g v show ?thesis
      by (simp add: ntp_u16_16_from_us_def Let_def unsigned_ucast_eq take_bit_eq_mod)
  qed
qed

text \<open>
  The quality is \<open>100\<close> minus the delay in whole milliseconds, cut off at 0, for every
  delay; it is a percentage and never improves when the delay grows.
\<close>

theorem network_quality_exact:
  "uint (calculate_network_quality delay) = max 0 (100 - uint delay div 1000)"
proof -
  define d where "d = uint delay div 1000"
  have d: "0 \<le> d" by (simp add: d_def)
  have "uint (word_of_int (100 - d) :: u8) = 100 - d" if "d \<le> 100"
    unfolding uint_word_of_int using that d by (intro mod_pos_pos_trivial) simp_all
  then show ?thesis
    using d by (auto simp: calculate_network_quality_def Let_def uint_div d_def [symmetric]
        simp del: of_int_diff)
qed

text \<open>
  A local stratum is 16 exactly for the peer strata 0 and above 15; otherwise it is
  one more than the peer's, except that a stratum 15 peer also gives 15.
\<close>

theorem local_stratum_exact:
  "uint (ntp_local_stratum_from_peer s) =
     (if uint s = 0 \<or> 15 < uint s then 16 else min 15 (uint s + 1))"
proof (cases "s = 0 \<or> 15 < s")
  case True
  then show ?thesis
    by (auto simp: ntp_local_stratum_from_peer_def word_less_def)
next
  case False
  then have s: "uint s \<noteq> 0" "\<not> 15 < uint s"
    by (auto simp: word_less_def word_uint_eq_iff)
  then have "0 < uint s" using uint_ge_0 [of s] by linarith
  with s have v: "uint ((ucast s :: u16) + 1) = uint s + 1"
    by (simp add: uint_word_ariths unsigned_ucast_eq take_bit_eq_mod)
  with False s show ?thesis
    by (simp add: ntp_local_stratum_from_peer_def Let_def word_less_def unsigned_ucast_eq
        take_bit_eq_mod)
qed


subsection \<open>Selection: bounded offsets never overflow\<close>

text \<open>
  Offsets below \<open>2^62\<close> microseconds (146000 years): differences of two of them
  stay in range, so the loops below return.
\<close>

definition moderate :: "int \<Rightarrow> bool" where
  "moderate x \<longleftrightarrow> \<bar>x\<bar> < 2 ^ 62"

definition near :: "int \<Rightarrow> int \<Rightarrow> bool" where
  "near m x \<longleftrightarrow> \<bar>x - m\<bar> < FALSETICKER_THRESHOLD_US"

lemma moderate_diff:
  "moderate x \<Longrightarrow> moderate m \<Longrightarrow> in_i64 (x - m)"
  "moderate x \<Longrightarrow> moderate m \<Longrightarrow> abs64 (x - m) = Inr \<bar>x - m\<bar>"
  "moderate x \<Longrightarrow> moderate m \<Longrightarrow> in_i64 (m - x)"
  by (auto simp: moderate_def in_i64_iff abs64_def)

lemma is_false_ticker_eq:
  "moderate x \<Longrightarrow> moderate m \<Longrightarrow> is_false_ticker x m = Inr (FALSETICKER_THRESHOLD_US < \<bar>x - m\<bar>)"
  by (simp add: is_false_ticker_def moderate_diff)

lemma vote_loop_eq:
  assumes "moderate m" and "\<forall>x \<in> set xs. moderate x"
  shows "vote_loop m xs (c, v) =
    Inr (c + length (filter (near m) xs), if filter (near m) xs = [] then v else last (filter (near m) xs))"
  using assms by (induction xs arbitrary: c v) (auto simp: moderate_diff near_def)

lemma count_true_tickers_eq:
  assumes "moderate m" and "\<forall>x \<in> set xs. moderate x"
  shows "count_true_tickers m xs k =
    Inr (k + length (filter (\<lambda>x. \<bar>x - m\<bar> \<le> FALSETICKER_THRESHOLD_US) xs))"
  using assms by (induction xs arbitrary: k) (auto simp: is_false_ticker_eq)

definition median_of :: "int list \<Rightarrow> int" where
  "median_of xs = sort xs ! (length xs div 2)"

lemma median_of_mem: "xs \<noteq> [] \<Longrightarrow> median_of xs \<in> set xs"
proof -
  assume "xs \<noteq> []"
  then have "median_of xs \<in> set (sort xs)"
    unfolding median_of_def by (intro nth_mem) simp
  then show ?thesis by simp
qed

lemma sorted_copy_eq:
  "n \<le> length offs \<Longrightarrow> n \<le> MAX_PEERS \<Longrightarrow> sorted_copy offs n = Inr (sort (take n offs))"
  by (simp add: sorted_copy_def qsort_int64_def)

lemma select_near_eq:
  assumes "moderate m" and "\<forall>i \<in> set is. moderate (offs ! i)"
    and "k + length is \<le> length vi"
  shows "\<exists>vi' k'. select_near offs m is (vi, k) = Inr (vi', k') \<and> length vi' = length vi \<and>
    k' = k + length (filter (\<lambda>i. near m (offs ! i)) is) \<and>
    take k' vi' = take k vi @ filter (\<lambda>i. near m (offs ! i)) is"
  using assms
proof (induction "is" arbitrary: vi k)
  case (Cons i "is")
  have d: "in_i64 (offs ! i - m)" "in_i64 (m - offs ! i)"
    using Cons.prems moderate_diff by auto
  have le: "\<not> INT64_MAX < \<bar>offs ! i - m\<bar>" using d by (auto simp: in_i64_iff)
  have step: "select_near offs m (i # is) (vi, k) =
      (if near m (offs ! i) then select_near offs m is (vi[k := i], k + 1)
       else select_near offs m is (vi, k))"
    using d le Cons.prems(3) by (auto simp: near_def)
  show ?case
  proof (cases "near m (offs ! i)")
    case True
    have "take (k + 1) (vi[k := i]) = take k vi @ [i]"
      using Cons.prems(3) by (simp add: take_Suc_conv_app_nth)
    with True Cons.IH [of "k + 1" "vi[k := i]"] Cons.prems step show ?thesis by auto
  next
    case False
    with Cons.IH [of k vi] Cons.prems step show ?thesis by auto
  qed
qed simp

lemma select_calm_eq:
  assumes "k \<le> a" and "a + n \<le> length vi" and "\<forall>i \<in> set (take n (drop a vi)). i < length jitter"
  shows "\<exists>vi' k'. select_calm jitter [a..<a + n] (vi, k) = Inr (vi', k') \<and> length vi' = length vi \<and>
    take k' vi' = take k vi @ filter (\<lambda>i. jitter ! i \<le> JITTER_THRESHOLD_US) (take n (drop a vi)) \<and>
    k' = k + length (filter (\<lambda>i. jitter ! i \<le> JITTER_THRESHOLD_US) (take n (drop a vi)))"
  using assms
proof (induction n arbitrary: a k vi)
  case (Suc n)
  have hd: "take (Suc n) (drop a vi) = vi ! a # take n (drop (Suc a) vi)"
    using Suc.prems(2) by (simp add: Cons_nth_drop_Suc [symmetric])
  have up: "[a..<a + Suc n] = a # [Suc a..<Suc a + n]"
    by (simp add: upt_conv_Cons)
  have lt: "vi ! a < length jitter" using Suc.prems(3) hd by simp
  show ?case
  proof (cases "jitter ! (vi ! a) \<le> JITTER_THRESHOLD_US")
    case True
    have "drop (Suc a) (vi[k := vi ! a]) = drop (Suc a) vi"
      using Suc.prems(1) by simp
    moreover have "take (Suc k) (vi[k := vi ! a]) = take k vi @ [vi ! a]"
      using Suc.prems(1,2) by (simp add: take_Suc_conv_app_nth)
    ultimately show ?thesis
      using True lt Suc.IH [of "Suc k" "Suc a" "vi[k := vi ! a]"] Suc.prems
      unfolding up by (auto simp: hd not_less Let_def simp del: upt_Suc)
  next
    case False
    then show ?thesis
      using lt Suc.IH [of k "Suc a" vi] Suc.prems
      unfolding up by (auto simp: hd not_le Let_def simp del: upt_Suc)
  qed
qed simp

subsection \<open>Selection: what the algorithms return\<close>

text \<open>
  C20: \<open>select_best_peers\<close>, for offsets below \<open>2^62\<close> microseconds, selects exactly the peers whose offset is less than 250 ms from
  the median and whose jitter is at most 100 ms, in increasing order of index, so without preferring a lower
  jitter, for any count (it looks at the first eight): it returns without overflow or access outside the
  arrays, and the in-place compaction of the output array loses nothing.
\<close>

theorem select_best_peers_exact:
  assumes "1 \<le> count" and "n = (if 8 < count then 8 else nat count)"
    and "n \<le> length offs" and "n \<le> length jitter" and "n \<le> length vi"
    and "\<forall>x \<in> set (take n offs). moderate x"
  shows "\<exists>vi' k. select_best_peers (Some offs) jitter count (Some vi) True = Inr (0, Some vi', Some k) \<and>
    take k vi' = filter (\<lambda>i. jitter ! i \<le> JITTER_THRESHOLD_US)
      (filter (\<lambda>i. near (median_of (take n offs)) (offs ! i)) [0..<n])"
proof -
  let ?m = "median_of (take n offs)" and ?near = "\<lambda>i. near (median_of (take n offs)) (offs ! i)"
  have n: "0 < n" "n \<le> MAX_PEERS" using assms(1,2) by (auto split: if_splits)
  have ne: "take n offs \<noteq> []" using n assms(3) by auto
  have mm: "moderate ?m" using median_of_mem [OF ne] assms(6) by blast
  have md: "sort (take n offs) ! (n div 2) = ?m"
    using assms(3) by (simp add: median_of_def)
  have mo: "\<forall>i \<in> set [0..<n]. moderate (offs ! i)"
    using assms(3,6) by (metis atLeastLessThan_iff in_set_conv_nth length_take min.absorb2 nth_take set_upt)
  obtain v1 k1 where s1: "select_near offs ?m [0..<n] (vi, 0) = Inr (v1, k1)"
    and l1: "length v1 = length vi" and k1: "k1 = length (filter ?near [0..<n])"
    and t1: "take k1 v1 = filter ?near [0..<n]"
    using select_near_eq [OF mm mo, of 0 vi] assms(5) by auto
  have k1n: "k1 \<le> n" using k1 length_filter_le [of ?near "[0..<n]"] by simp
  have in_j: "\<forall>i \<in> set (take k1 (drop 0 v1)). i < length jitter"
    using t1 assms(4) by auto
  obtain v2 k2 where s2: "select_calm jitter [0..<k1] (v1, 0) = Inr (v2, k2)"
    and t2: "take k2 v2 = filter (\<lambda>i. jitter ! i \<le> JITTER_THRESHOLD_US) (take k1 v1)"
    using select_calm_eq [OF _ _ in_j, of 0] k1n assms(5) l1 by auto
  have run: "select_best_peers (Some offs) jitter count (Some vi) True =
      (if k1 = 0 then Inr (0, Some v1, Some 0) else Inr (0, Some v2, Some k2))"
    using assms(1,2) sorted_copy_eq [OF assms(3) n(2)] s1 s2 md
    by (auto simp: select_best_peers_def Let_def split: if_splits)
  show ?thesis
  proof (cases "k1 = 0")
    case True
    then have "filter ?near [0..<n] = []" using k1 by (metis length_0_conv)
    with True run show ?thesis by (intro exI [of _ v1] exI [of _ 0]) simp
  next
    case False
    with run t1 t2 show ?thesis by auto
  qed
qed

theorem select_best_peers_exact_witness:
  "\<exists>vi' k. select_best_peers (Some [1000, 900000, 2000]) [10, 10, 200000] 3 (Some [0, 0, 0]) True
      = Inr (0, Some vi', Some k) \<and>
    take k vi' = filter (\<lambda>i. [10, 10, 200000] ! i \<le> JITTER_THRESHOLD_US)
      (filter (\<lambda>i. near (median_of (take 3 [1000, 900000, 2000])) ([1000, 900000, 2000] ! i)) [0..<3])"
  by (rule select_best_peers_exact) (simp_all add: moderate_def numeral_eq_Suc)

text \<open>
  With three to eight peers and moderate offsets the vote returns one of the peers'
  offsets, less than 250 ms from the median: the last such offset when more than half of
  the peers are that near, and the median itself otherwise.
\<close>

theorem majority_vote_exact:
  assumes "3 \<le> count" and "count \<le> 8" and "nat count \<le> length offs"
    and "xs = take (nat count) offs" and "\<forall>x \<in> set xs. moderate x"
  shows "\<exists>v. majority_vote (Some offs) count = Inr v \<and> v \<in> set xs \<and> near (median_of xs) v \<and>
    v = (let ns = filter (near (median_of xs)) xs
         in if nat count div 2 < length ns then last ns else median_of xs)"
proof -
  have len: "length xs = nat count" "xs \<noteq> []" using assms by auto
  have m: "moderate (median_of xs)" using median_of_mem [OF len(2)] assms(5) by blast
  let ?ns = "filter (near (median_of xs)) xs"
  let ?v = "if nat count div 2 < length ?ns then last ?ns else median_of xs"
  have md: "sort xs ! (nat count div 2) = median_of xs" by (simp add: median_of_def len)
  have "majority_vote (Some offs) count = Inr ?v"
    using assms sorted_copy_eq [OF assms(3)] vote_loop_eq [OF m assms(5), of 0 0] md
    by (auto simp: majority_vote_def Let_def)
  moreover have "?v \<in> set xs \<and> near (median_of xs) ?v"
  proof (cases "nat count div 2 < length ?ns")
    case True
    then have "?ns \<noteq> []" by auto
    then have "last ?ns \<in> set ?ns" by (rule last_in_set)
    with True show ?thesis by simp
  next
    case False
    then show ?thesis using median_of_mem [OF len(2)] by (simp add: near_def)
  qed
  ultimately show ?thesis by (auto simp: Let_def)
qed

theorem majority_vote_exact_witness:
  "\<exists>v. majority_vote (Some [5, 7, 900000]) 3 = Inr v \<and> v \<in> set [5, 7, 900000] \<and>
    near (median_of [5, 7, 900000]) v \<and>
    v = (let ns = filter (near (median_of [5, 7, 900000])) [5, 7, 900000]
         in if nat 3 div 2 < length ns then last ns else median_of [5, 7, 900000])"
  by (rule majority_vote_exact) (simp_all add: moderate_def)

lemma byte_and_255: "(w :: u8) AND 0xFF = w"
proof -
  have "(0xFF :: u8) = - 1" by simp
  then show ?thesis by (simp only: and.right_neutral)
qed

text \<open>
  \<open>compute_system_offset\<close> on one to eight peers always finds its median to be a true
  ticker, so it never reports "no valid peers": its answer is the low byte of the vote
  cut off to a signed byte, not the stratum-like 0 to 15 that its comment promises.
\<close>

theorem compute_system_offset_exact:
  assumes "1 \<le> count" and "count \<le> 8" and "nat count \<le> length offs"
    and "\<forall>x \<in> set (take (nat count) offs). moderate x"
    and "majority_vote (Some offs) count = Inr m"
  shows "compute_system_offset (Some offs) count True =
    Inr (word_of_int (max (- 128) (min 127 m)), Some 0)"
proof -
  let ?xs = "take (nat count) offs"
  have len: "length ?xs = nat count" "?xs \<noteq> []" using assms by auto
  have m: "moderate (median_of ?xs)" using median_of_mem [OF len(2)] assms(4) by blast
  have md: "sort ?xs ! (nat count div 2) = median_of ?xs"
    using len(1) by (simp only: median_of_def)
  have "median_of ?xs \<in> set (filter (\<lambda>x. \<bar>x - median_of ?xs\<bar> \<le> FALSETICKER_THRESHOLD_US) ?xs)"
    using median_of_mem [OF len(2)] by simp
  then have "filter (\<lambda>x. \<bar>x - median_of ?xs\<bar> \<le> FALSETICKER_THRESHOLD_US) ?xs \<noteq> []"
    by (metis empty_iff empty_set)
  then have valid: "length (filter (\<lambda>x. \<bar>x - median_of ?xs\<bar> \<le> FALSETICKER_THRESHOLD_US) ?xs) \<noteq> 0"
    by simp
  have clamp: "(if (if 127 < m then 127 else m) < - 128 then - 128 else if 127 < m then 127 else m)
      = max (- 128) (min 127 m)" by auto
  have "compute_system_offset (Some offs) count True =
      Inr (word_of_int (max (- 128) (min 127 m)) AND 0xFF, Some 0)"
    using assms(1,2) sorted_copy_eq [OF assms(3)] valid
    unfolding compute_system_offset_def Let_def clamp [symmetric]
    by (simp add: md count_true_tickers_eq [OF m assms(4)] assms(5))
  then show ?thesis by (simp only: byte_and_255)
qed

theorem compute_system_offset_exact_witness:
  "compute_system_offset (Some [40, 300]) 2 True = Inr (word_of_int (max (- 128) (min 127 170)), Some 0)"
  by (rule compute_system_offset_exact)
    (simp_all add: moderate_def majority_vote_def in_i64_iff sdiv_pos_eq)

end
