(* ===== verification/SampleFilter.thy ===== *)
theory SampleFilter
  imports Prelude "HOL-Library.Multiset" Complex_Main
begin

section \<open>The MARX sample filter (filter.c)\<close>

text \<open>
  The sample buffer \<open>g_samples\<close> with its count and the mutex \<open>g_mutex\<close>.
  \<open>marx_filter_outliers\<close> is called on \<open>g_samples\<close> itself (its only call), so the
  array its loop reads and writes is the one that \<open>marx_remove_sample\<close> shifts; the
  model keeps that aliasing by running the loop on the state. The record is extended by
  the components that own more of the state under \<open>g_mutex\<close>.

  \<open>ntp_offset_jitter_us_locked\<close> computes a standard deviation in \<open>long double\<close>, whose
  rounding and square root are the parameter \<open>F\<close>.
\<close>

record NtpSample =
  smp_ts :: u64
  smp_delay :: u64
  smp_offset :: int

abbreviation MAX_SAMPLES :: nat where "MAX_SAMPLES \<equiv> 64"

record sample_state =
  g_samples :: "NtpSample list"
  g_sample_count :: nat
  g_mutex :: bool

definition sample_wf :: "'z sample_state_scheme \<Rightarrow> bool" where
  "sample_wf s \<longleftrightarrow> length (g_samples s) = MAX_SAMPLES \<and> g_sample_count s \<le> MAX_SAMPLES"

definition with_g_mutex ::
    "('z sample_state_scheme \<Rightarrow> ('a \<times> 'z sample_state_scheme) run) \<Rightarrow> 'z sample_state_scheme \<Rightarrow>
     ('a \<times> 'z sample_state_scheme) run" where
  "with_g_mutex = with_mutex g_mutex (\<lambda>b s. s\<lparr>g_mutex := b\<rparr>)"

interpretation gmx: mutex g_mutex "\<lambda>b s. s\<lparr>g_mutex := b\<rparr>"
  by unfold_locales simp_all

subsection \<open>Adding and removing samples\<close>

definition marx_add_sample_us ::
    "u64 \<Rightarrow> u64 \<Rightarrow> int \<Rightarrow> 'z sample_state_scheme \<Rightarrow> (unit \<times> 'z sample_state_scheme) run" where
  "marx_add_sample_us ts_ns delay_us offset_us =
     with_g_mutex (\<lambda>s.
       if MAX_SAMPLES \<le> g_sample_count s then Inr ((), s)
       else Inr ((), s\<lparr>g_samples := (g_samples s)[g_sample_count s :=
                         \<lparr>smp_ts = ts_ns, smp_delay = delay_us, smp_offset = offset_us\<rparr>],
                       g_sample_count := g_sample_count s + 1\<rparr>))"

text \<open>\<open>memmove\<close> of the entries after \<open>index\<close>; the last one stays where it was.\<close>

definition shift_down :: "'a list \<Rightarrow> nat \<Rightarrow> nat \<Rightarrow> 'a list" where
  "shift_down xs index move_count =
     take index xs @ take move_count (drop (index + 1) xs) @ drop (index + move_count) xs"

definition marx_remove_sample ::
    "int \<Rightarrow> 'z sample_state_scheme \<Rightarrow> (unit \<times> 'z sample_state_scheme) run" where
  "marx_remove_sample index s =
     (if 0 \<le> index \<and> index < int (g_sample_count s) then
        with_g_mutex (\<lambda>s.
          let move_count = g_sample_count s - nat index - 1
          in Inr ((), s\<lparr>g_samples := shift_down (g_samples s) (nat index) move_count,
                        g_sample_count := g_sample_count s - 1\<rparr>)) s
      else Inr ((), s))"

subsection \<open>The median\<close>

function bubble_inner :: "nat \<Rightarrow> nat \<Rightarrow> u64 list \<Rightarrow> u64 list" where
  "bubble_inner j m arr =
     (if j < m then
        bubble_inner (j + 1) m
          (if arr ! (j + 1) < arr ! j then arr[j := arr ! (j + 1), j + 1 := arr ! j] else arr)
      else arr)"
  by pat_completeness auto
termination by (relation "measure (\<lambda>(j, m, arr). m - j)") auto

function bubble_outer :: "nat \<Rightarrow> nat \<Rightarrow> u64 list \<Rightarrow> u64 list" where
  "bubble_outer i cnt arr =
     (if i < cnt - 1 then bubble_outer (i + 1) cnt (bubble_inner 0 (cnt - i - 1) arr) else arr)"
  by pat_completeness auto
termination by (relation "measure (\<lambda>(i, cnt, arr). cnt - i)") auto

declare bubble_inner.simps [simp del] bubble_outer.simps [simp del]

text \<open>Result: the median and the array, which is sorted in place.\<close>

definition marx_median :: "u64 list option \<Rightarrow> int \<Rightarrow> (u64 \<times> u64 list option) run" where
  "marx_median arr cnt =
     (case arr of
        None \<Rightarrow> Inr (0, None)
      | Some a \<Rightarrow>
          if cnt \<le> 0 then Inr (0, Some a)
          else if length a < nat cnt then Inl Undefined
          else (let a' = bubble_outer 0 (nat cnt) a
                in Inr (if cnt mod 2 = 0 then a' ! (nat cnt div 2 - 1) else a' ! (nat cnt div 2),
                        Some a')))"

subsection \<open>Filtering\<close>

definition marx_kmad :: "u64 \<Rightarrow> u64 \<Rightarrow> int \<Rightarrow> u64" where
  "marx_kmad median mad k =
     (if mad = 0 then 0
      else if k = 0 then 0
      else (let k64 = word_of_int k :: u64
            in if 0xFFFFFFFFFFFFFFFF div mad < k64 then 0xFFFFFFFFFFFFFFFF
               else (let kmad = k64 * mad
                     in if 0xFFFFFFFFFFFFFFFF - median < kmad then 0xFFFFFFFFFFFFFFFF else kmad)))"

definition marx_threshold :: "u64 \<Rightarrow> u64 \<Rightarrow> u64" where
  "marx_threshold median kmad =
     (if kmad = 0 then median
      else if 0xFFFFFFFFFFFFFFFF - median < kmad then 0xFFFFFFFFFFFFFFFF
      else median + kmad)"

fun filter_loop ::
    "u64 \<Rightarrow> nat list \<Rightarrow> nat \<Rightarrow> 'z sample_state_scheme \<Rightarrow> (nat \<times> 'z sample_state_scheme) run" where
  "filter_loop threshold [] filtered s = Inr (filtered, s)"
| "filter_loop threshold (i # is) filtered s =
     (if smp_delay (g_samples s ! i) \<le> threshold then
        filter_loop threshold is (filtered + 1)
          (if filtered \<noteq> i then s\<lparr>g_samples := (g_samples s)[filtered := g_samples s ! i]\<rparr> else s)
      else bindR (marx_remove_sample (int i) s) (\<lambda>(_, s'). filter_loop threshold is filtered s'))"

definition marx_filter_outliers ::
    "int \<Rightarrow> int \<Rightarrow> 'z sample_state_scheme \<Rightarrow> (int \<times> 'z sample_state_scheme) run" where
  "marx_filter_outliers count0 k s =
     (if count0 < 3 then Inr (count0, s)
      else (let cnt = (if int MAX_SAMPLES < count0 then int MAX_SAMPLES else count0);
                original_count = cnt;
                delays = map smp_delay (take (nat cnt) (g_samples s))
            in bindR (marx_median (Some delays) cnt) (\<lambda>(median, _).
               let abs_devs = map (\<lambda>x. if median < smp_delay x then smp_delay x - median
                                       else median - smp_delay x) (take (nat cnt) (g_samples s))
               in bindR (marx_median (Some abs_devs) cnt) (\<lambda>(mad, _).
                  let threshold = marx_threshold median (marx_kmad median mad k)
                  in bindR (filter_loop threshold [0..<nat cnt] 0 s) (\<lambda>(filtered, s').
                     Inr (if int filtered < original_count then int filtered else original_count, s'))))))"

subsection \<open>Jitter\<close>

definition offset_mean :: "fpu \<Rightarrow> int list \<Rightarrow> rat" where
  "offset_mean F xs =
     rndl F (fold (\<lambda>x m. rndl F (m + rndl F (of_int x))) xs 0 / of_nat (length xs))"

definition offset_variance :: "fpu \<Rightarrow> int list \<Rightarrow> rat" where
  "offset_variance F xs =
     (let mean = offset_mean F xs;
          var = fold (\<lambda>x v. let d = rndl F (rndl F (of_int x) - mean)
                             in rndl F (v + rndl F (d * d))) xs 0
      in rndl F (var / of_nat (length xs - 1)))"

definition ntp_offset_jitter_us_locked ::
    "fpu \<Rightarrow> 'z sample_state_scheme \<Rightarrow> (u64 \<times> 'z sample_state_scheme) run" where
  "ntp_offset_jitter_us_locked F =
     with_g_mutex (\<lambda>s.
       if g_sample_count s \<le> 1 then Inr (0, s)
       else (let var0 = offset_variance F (map smp_offset (take (g_sample_count s) (g_samples s)));
                 var = (if var0 < 0 then 0 else var0);
                 sd0 = fsqrtl F var;
                 sd = (if sd0 < 0 then 0 else sd0)
             in Inr (if 2 ^ 64 - 1 < sd then 0xFFFFFFFFFFFFFFFF else word_of_int (trunc sd), s)))"

subsection \<open>The median is the lower median of the sorted array\<close>

fun bubble :: "u64 list \<Rightarrow> u64 list" where
  "bubble (x # y # zs) = (if y < x then y # bubble (x # zs) else x # bubble (y # zs))"
| "bubble xs = xs"

lemma length_bubble [simp]: "length (bubble xs) = length xs"
  by (induction xs rule: bubble.induct) auto

lemma mset_bubble [simp]: "mset (bubble xs) = mset xs"
  by (induction xs rule: bubble.induct) auto

lemma set_bubble [simp]: "set (bubble xs) = set xs"
  using mset_bubble by (metis set_mset_mset)

lemma bubble_eq_Nil [simp]: "bubble xs = [] \<longleftrightarrow> xs = []"
  by (induction xs rule: bubble.induct) auto

lemma last_bubble: "x \<in> set xs \<Longrightarrow> x \<le> last (bubble xs)"
proof (induction xs arbitrary: x rule: bubble.induct)
  case (1 a b zs)
  show ?case
  proof (cases "b < a")
    case True
    then have "\<And>y. y \<in> set (a # zs) \<Longrightarrow> y \<le> last (bubble (a # zs))" using "1.IH"(1) by blast
    moreover from this have "b \<le> last (bubble (a # zs))" using True by fastforce
    ultimately show ?thesis using True "1.prems" by auto
  next
    case False
    then have "\<And>y. y \<in> set (b # zs) \<Longrightarrow> y \<le> last (bubble (b # zs))" using "1.IH"(2) by blast
    moreover from this have "a \<le> last (bubble (b # zs))" using False by fastforce
    ultimately show ?thesis using False "1.prems" by auto
  qed
qed auto

lemma bubble_inner_append:
  assumes "length P = j" "j + length Q = m + 1" "Q \<noteq> []"
  shows "bubble_inner j m (P @ Q @ R) = P @ bubble Q @ R"
  using assms
proof (induction Q arbitrary: P j rule: bubble.induct)
  case (1 x y zs)
  have j: "j < m" using 1 by simp
  have nth: "(P @ (x # y # zs) @ R) ! j = x" "(P @ (x # y # zs) @ R) ! (j + 1) = y"
    using 1 by (simp_all add: nth_append)
  have upd: "(P @ (x # y # zs) @ R)[j := y, j + 1 := x] = (P @ [y]) @ (x # zs) @ R"
    using 1 by (simp add: list_update_append)
  show ?case
  proof (cases "y < x")
    case True
    have "bubble_inner (j + 1) m ((P @ [y]) @ (x # zs) @ R) = (P @ [y]) @ bubble (x # zs) @ R"
      using True 1 by (intro "1.IH"(1)) auto
    then show ?thesis
      using True j by (subst bubble_inner.simps) (simp only: nth upd if_True, simp)
  next
    case False
    have "bubble_inner (j + 1) m ((P @ [x]) @ (y # zs) @ R) = (P @ [x]) @ bubble (y # zs) @ R"
      using False 1 by (intro "1.IH"(2)) auto
    then show ?thesis
      using False j by (subst bubble_inner.simps) (simp only: nth if_False if_True, simp)
  qed
qed (auto simp: bubble_inner.simps)

lemma bubble_outer_eq:
  assumes "length P + length T = n" "length T = i" "P \<noteq> []" "sorted T"
      "\<forall>x\<in>set P. \<forall>y\<in>set T. x \<le> y"
  shows "bubble_outer i n (P @ T @ R) = sort P @ T @ R"
  using assms
proof (induction "length P" arbitrary: P T i)
  case (Suc k)
  show ?case
  proof (cases "k = 0")
    case True
    then obtain x where "P = [x]" using Suc.hyps(2) by (cases P) auto
    then show ?thesis using Suc.prems by (subst bubble_outer.simps) auto
  next
    case False
    obtain Q m where Qm: "bubble P = Q @ [m]"
      using Suc.prems(3) by (metis bubble_eq_Nil rev_exhaust)
    have len: "length Q = k" using arg_cong [OF Qm, of length] Suc.hyps(2) by simp
    have mx: "\<forall>x\<in>set P. x \<le> m" using last_bubble [of _ P] Qm by simp
    have setP: "set P = insert m (set Q)" using set_bubble [of P] Qm by auto
    have sortP: "sort P = sort Q @ [m]"
    proof (rule properties_for_sort)
      show "mset (sort Q @ [m]) = mset P"
        using mset_bubble [of P] unfolding Qm by simp
      show "sorted (sort Q @ [m])" using mx setP by (simp add: sorted_append)
    qed
    have inner: "bubble_inner 0 (n - i - 1) (P @ T @ R) = Q @ (m # T) @ R"
    proof -
      have "n - i - 1 + 1 = length P" using Suc.prems Suc.hyps(2) by simp
      then show ?thesis
        using bubble_inner_append [of "[]" 0 P "n - i - 1" "T @ R"] Qm Suc.prems(3) by simp
    qed
    have "bubble_outer (i + 1) n (Q @ (m # T) @ R) = sort Q @ (m # T) @ R"
    proof (rule Suc.hyps(1))
      show "Q \<noteq> []" using len False by auto
      show "sorted (m # T)" using Suc.prems(4,5) setP by simp
      show "\<forall>x\<in>set Q. \<forall>y\<in>set (m # T). x \<le> y" using Suc.prems(5) mx setP by auto
    qed (use Suc.prems Suc.hyps(2) len in auto)
    then show ?thesis
      using inner False Suc.prems Suc.hyps(2) sortP by (subst bubble_outer.simps) simp
  qed
qed simp

definition lower_median :: "u64 list \<Rightarrow> u64" where
  "lower_median xs = sort xs ! ((length xs - 1) div 2)"

lemma half_pred: "(if n mod 2 = 0 then n div 2 - 1 else n div 2) = (n - 1) div 2" for n :: nat
  by presburger

lemma marx_median_eq:
  assumes "0 < c" "c \<le> length a"
  shows "marx_median (Some a) (int c) =
           Inr (lower_median (take c a), Some (sort (take c a) @ drop c a))"
proof -
  let ?a = "sort (take c a) @ drop c a"
  have b: "bubble_outer 0 c a = ?a"
    using bubble_outer_eq [of "take c a" "[]" c 0 "drop c a"] assms by force
  have "(if int c mod 2 = 0 then ?a ! (c div 2 - 1) else ?a ! (c div 2)) = ?a ! ((c - 1) div 2)"
  proof -
    have "int c mod 2 = 0 \<longleftrightarrow> c mod 2 = 0" by presburger
    then show ?thesis unfolding half_pred [of c, symmetric] by (simp only: split: if_split) simp
  qed
  also have "(c - 1) div 2 < c" using assms by linarith
  then have "?a ! ((c - 1) div 2) = lower_median (take c a)"
    using assms by (simp add: lower_median_def nth_append min_def)
  finally show ?thesis
    using assms by (simp add: marx_median_def Let_def b split del: if_split cong: if_cong)
qed


text \<open>
  C30: \<open>marx_median\<close> sorts the array (its first \<open>count\<close> entries, in place) and returns the
  lower median: the entry at index \<open>(count - 1) div 2\<close> of the sorted array. For an even
  count it is the smaller of the two middle values and not their average, which its
  comment announces.
\<close>

theorem marx_median_exact:
  assumes "0 < c" "c \<le> length a"
  shows "marx_median (Some a) (int c) =
           Inr (sort (take c a) ! ((c - 1) div 2), Some (sort (take c a) @ drop c a))"
  using marx_median_eq [OF assms] assms by (simp add: lower_median_def)

lemma marx_median_exact_witness:
  "marx_median (Some [40, 10, 30, 20, 5]) 4 = Inr (20, Some [10, 20, 30, 40, 5])"
proof -
  have "sort [40, 10, 30, 20 :: u64] = [10, 20, 30, 40]" by simp
  moreover have "take 4 [40, 10, 30, 20, 5 :: u64] = [40, 10, 30, 20]"
    "drop 4 [40, 10, 30, 20, 5 :: u64] = [5]" "(4 - 1) div 2 = (1 :: nat)"
    by simp_all
  ultimately show ?thesis
    using marx_median_exact [of 4 "[40, 10, 30, 20, 5]"] by simp
qed

subsection \<open>Samples as a bounded list\<close>

text \<open>What the buffer stands for: its first \<open>g_sample_count\<close> entries.\<close>

definition samples :: "'z sample_state_scheme \<Rightarrow> NtpSample list" where
  "samples s = take (g_sample_count s) (g_samples s)"

lemma length_samples: "sample_wf s \<Longrightarrow> length (samples s) = g_sample_count s"
  by (simp add: samples_def sample_wf_def)

lemma with_g_mutex_free:
  assumes "\<not> g_mutex s" "body (s\<lparr>g_mutex := True\<rparr>) = Inr (r, s')" "g_mutex s'"
  shows "with_g_mutex body s = Inr (r, s'\<lparr>g_mutex := False\<rparr>)"
  using gmx.section_returns [of s body r s'] assms by (simp add: with_g_mutex_def)

lemma with_g_mutex_held: "g_mutex s \<Longrightarrow> with_g_mutex body s = Inl Deadlock"
  by (simp add: with_g_mutex_def gmx.relock_deadlocks)

lemma mutex_same [simp]: "\<not> g_mutex s \<Longrightarrow> s\<lparr>g_mutex := False\<rparr> = s"
  by simp

lemma marx_add_eq:
  assumes "\<not> g_mutex s"
  shows "marx_add_sample_us t d off s =
    Inr ((), if MAX_SAMPLES \<le> g_sample_count s then s
             else s\<lparr>g_samples := (g_samples s)[g_sample_count s :=
                      \<lparr>smp_ts = t, smp_delay = d, smp_offset = off\<rparr>],
                    g_sample_count := g_sample_count s + 1\<rparr>)"
  using assms unfolding marx_add_sample_us_def
  by (cases "MAX_SAMPLES \<le> g_sample_count s") (simp_all add: with_g_mutex_def with_mutex_def)

lemma marx_remove_eq:
  assumes "\<not> g_mutex s" "i < g_sample_count s"
  shows "marx_remove_sample (int i) s =
    Inr ((), s\<lparr>g_samples := shift_down (g_samples s) i (g_sample_count s - i - 1),
              g_sample_count := g_sample_count s - 1\<rparr>)"
  using assms unfolding marx_remove_sample_def
  by (simp add: with_g_mutex_def with_mutex_def Let_def)

lemma length_shift_down:
  "i + 1 + n \<le> length xs \<Longrightarrow> length (shift_down xs i n) = length xs"
  by (simp add: shift_down_def)

lemma take_shift_down:
  "i + 1 + n \<le> length xs \<Longrightarrow> take (i + n) (shift_down xs i n) = take i xs @ take n (drop (i + 1) xs)"
  by (simp add: shift_down_def)

text \<open>
  Adding a sample appends it to the buffer while there is room, and does nothing once
  the buffer holds 64 samples; the mutex is free again afterwards. Nothing evicts an
  old sample, so the filter goes on with the samples it first collected.
\<close>

theorem marx_add_appends_until_full:
  assumes "sample_wf s" "\<not> g_mutex s"
  shows "\<exists>s'. marx_add_sample_us t d off s = Inr ((), s') \<and> sample_wf s' \<and> \<not> g_mutex s' \<and>
           samples s' = (if length (samples s) < 64
                         then samples s @ [\<lparr>smp_ts = t, smp_delay = d, smp_offset = off\<rparr>]
                         else samples s)"
  unfolding marx_add_eq [OF assms(2)] length_samples [OF assms(1)]
  using assms by (auto simp: sample_wf_def samples_def take_Suc_conv_app_nth)

definition empty_samples :: sample_state where
  "empty_samples = \<lparr>g_samples = replicate 64 \<lparr>smp_ts = 0, smp_delay = 0, smp_offset = 0\<rparr>,
                    g_sample_count = 0, g_mutex = False\<rparr>"

lemma marx_add_appends_until_full_witness:
  "\<exists>s'. marx_add_sample_us 5 6 7 empty_samples = Inr ((), s') \<and>
     samples s' = [\<lparr>smp_ts = 5, smp_delay = 6, smp_offset = 7\<rparr>]"
  using marx_add_appends_until_full [of empty_samples 5 6 7]
  by (auto simp: empty_samples_def sample_wf_def samples_def)

text \<open>
  Removing the sample at an index of the buffer deletes exactly that entry.\<close>

theorem marx_remove_deletes:
  assumes "sample_wf s" "\<not> g_mutex s" "i < length (samples s)"
  shows "\<exists>s'. marx_remove_sample (int i) s = Inr ((), s') \<and> sample_wf s' \<and> \<not> g_mutex s' \<and>
           samples s' = take i (samples s) @ drop (i + 1) (samples s)"
proof -
  have i: "i < g_sample_count s" using assms(3) by (simp add: length_samples [OF assms(1)])
  then obtain n where n: "g_sample_count s = i + 1 + n" using less_iff_Suc_add by auto
  then have "i + 1 + n \<le> length (g_samples s)" using assms(1) by (simp add: sample_wf_def)
  then show ?thesis
    unfolding marx_remove_eq [OF assms(2) i]
    using assms(1,2) by (simp add: sample_wf_def samples_def n take_shift_down length_shift_down
        drop_take min_def)
qed

definition sample_of :: "nat \<Rightarrow> NtpSample" where
  "sample_of d = \<lparr>smp_ts = 0, smp_delay = of_nat d, smp_offset = 0\<rparr>"

definition buffer_of :: "nat list \<Rightarrow> sample_state" where
  "buffer_of ds = \<lparr>g_samples = map sample_of ds @ replicate (64 - length ds) (sample_of 0),
                   g_sample_count = length ds, g_mutex = False\<rparr>"

lemma buffer_of_wf: "length ds \<le> 64 \<Longrightarrow> sample_wf (buffer_of ds)"
  by (simp add: buffer_of_def sample_wf_def)

lemma samples_buffer_of: "samples (buffer_of ds) = map sample_of ds"
  by (simp add: buffer_of_def samples_def)

lemma marx_remove_deletes_witness:
  "\<exists>s'. marx_remove_sample 1 (buffer_of [7, 8, 9]) = Inr ((), s') \<and>
     samples s' = [sample_of 7, sample_of 9]"
proof -
  have "\<not> g_mutex (buffer_of [7, 8, 9])" by (simp add: buffer_of_def)
  then show ?thesis
    using marx_remove_deletes [of "buffer_of [7, 8, 9]" 1]
    by (auto simp: buffer_of_wf samples_buffer_of)
qed

subsection \<open>What the outlier filter does to the buffer\<close>

text \<open>The cut-off that the filter uses: median plus \<open>k\<close> times the median absolute deviation.\<close>

definition abs_dev :: "u64 \<Rightarrow> u64 \<Rightarrow> u64" where
  "abs_dev m x = (if m < x then x - m else m - x)"

definition cut_off :: "u64 list \<Rightarrow> int \<Rightarrow> u64" where
  "cut_off ds k =
     (let m = lower_median ds
      in marx_threshold m (marx_kmad m (lower_median (map (abs_dev m) ds)) k))"

lemma marx_filter_eq:
  assumes "sample_wf s" "3 \<le> g_sample_count s"
  shows "marx_filter_outliers (int (g_sample_count s)) k s =
    bindR (filter_loop (cut_off (map smp_delay (samples s)) k) [0..<g_sample_count s] 0 s)
      (\<lambda>(filtered, s'). Inr (if int filtered < int (g_sample_count s) then int filtered
                               else int (g_sample_count s), s'))"
proof -
  let ?c = "g_sample_count s"
  have c: "0 < ?c" "?c \<le> 64" "length (g_samples s) = 64"
    using assms by (auto simp: sample_wf_def)
  have dev: "map (\<lambda>x. if m < smp_delay x then smp_delay x - m else m - smp_delay x) xs =
             map (abs_dev m) (map smp_delay xs)" for m xs
    by (simp add: abs_dev_def)
  have len: "length (map smp_delay (take ?c (g_samples s))) = ?c"
    "length (map (abs_dev m) (map smp_delay (take ?c (g_samples s)))) = ?c" for m
    using c by simp_all
  show ?thesis
    using assms c unfolding marx_filter_outliers_def dev
    by (simp add: Let_def marx_median_eq len cut_off_def samples_def)
qed

lemma filter_loop_append:
  "filter_loop th (is @ js) n s =
     bindR (filter_loop th is n s) (\<lambda>(n', s'). filter_loop th js n' s')"
  by (induction th "is" n s rule: filter_loop.induct) (auto simp: bindR_assoc split_def)

lemma upt_step: "[a..<Suc (a + n)] = a # [Suc a..<Suc (a + n)]"
  by (simp add: upt_conv_Cons del: upt_Suc)

lemma filter_loop_keeps:
  assumes "\<forall>i. a \<le> i \<and> i < a + n \<longrightarrow> smp_delay (g_samples s ! i) \<le> th"
  shows "filter_loop th [a..<a + n] a s = Inr (a + n, s)"
  using assms
proof (induction n arbitrary: a)
  case (Suc n)
  have "filter_loop th [Suc a..<Suc a + n] (Suc a) s = Inr (Suc a + n, s)"
    using Suc.prems by (intro Suc.IH) auto
  then show ?case using Suc.prems by (simp add: upt_step del: upt_Suc)
qed simp

text \<open>Once entries have been dropped, the loop copies the later ones to the front.\<close>

lemma filter_loop_moves:
  assumes "p < i" "length P = p" "g_samples s = P @ M @ Q @ R" "length P + length M = i"
    "\<forall>x\<in>set Q. smp_delay x \<le> th" "length Q = n"
  shows "\<exists>M'. filter_loop th [i..<i + n] p s = Inr (p + n, s\<lparr>g_samples := P @ Q @ M' @ R\<rparr>)"
  using assms
proof (induction n arbitrary: p i P M Q s)
  case 0
  then show ?case by (intro exI [of _ M]) (cases s, simp)
next
  case (Suc n)
  obtain q Q' where Q: "Q = q # Q'" using Suc.prems(6) by (cases Q) auto
  obtain m M' where M: "M = m # M'" using Suc.prems(1,2,4) by (cases M) auto
  have nth: "g_samples s ! i = q"
    using Suc.prems(2,3,4) by (simp add: Q nth_append)
  define t where "t = s\<lparr>g_samples := (P @ [q]) @ (M' @ [q]) @ Q' @ R\<rparr>"
  have t: "(if p \<noteq> i then s\<lparr>g_samples := (g_samples s)[p := g_samples s ! i]\<rparr> else s) = t"
    using Suc.prems(1,2,3) unfolding nth by (simp add: t_def M Q list_update_append)
  obtain M'' where IH: "filter_loop th [i + 1..<i + 1 + n] (p + 1) t =
      Inr (p + 1 + n, t\<lparr>g_samples := (P @ [q]) @ Q' @ M'' @ R\<rparr>)"
    using Suc.IH [of "p + 1" "i + 1" "P @ [q]" t "M' @ [q]" Q'] Suc.prems
    by (auto simp: t_def M Q)
  have "filter_loop th [i..<i + Suc n] p s = filter_loop th [i + 1..<i + 1 + n] (p + 1) t"
    using Suc.prems(5) nth t by (simp add: upt_step Q del: upt_Suc)
  then show ?case unfolding IH by (intro exI [of _ M'']) (simp add: t_def Q)
qed

text \<open>
  When no sample's delay exceeds the cut-off, the filter keeps every sample in its
  place and reports them all.
\<close>

theorem marx_filter_keeps_inliers:
  assumes "sample_wf s" "3 \<le> g_sample_count s"
    "\<forall>x\<in>set (samples s). smp_delay x \<le> cut_off (map smp_delay (samples s)) k"
  shows "marx_filter_outliers (int (g_sample_count s)) k s = Inr (int (g_sample_count s), s)"
proof -
  have "filter_loop (cut_off (map smp_delay (samples s)) k) [0..<0 + g_sample_count s] 0 s =
          Inr (0 + g_sample_count s, s)"
    using assms(1,3) nth_mem [of _ "samples s"]
    by (intro filter_loop_keeps) (force simp: samples_def sample_wf_def)
  then show ?thesis by (simp add: marx_filter_eq [OF assms(1,2)])
qed


lemma shift_down_outlier:
  assumes "ys \<noteq> []"
  shows "shift_down (xs @ out # ys @ R) (length xs) (length ys) = xs @ ys @ [last ys] @ R"
proof -
  let ?A = "xs @ out # butlast ys"
  have "xs @ out # ys @ R = ?A @ [last ys] @ R" using assms by simp
  moreover have "length ?A = length xs + length ys" using assms by (cases ys) auto
  ultimately have "drop (length xs + length ys) (xs @ out # ys @ R) = [last ys] @ R"
    by (metis append_eq_conv_conj)
  then show ?thesis by (simp add: shift_down_def)
qed

text \<open>
  One outlier before the last sample costs two samples. \<open>marx_filter_outliers\<close> removes the
  outlier from the array it is walking, which shifts the rest down, and then goes on at
  the next index: the good sample that followed the outlier is overwritten, and the last
  sample is there twice, though the returned count and the buffer's count both say that
  exactly one sample is gone.
\<close>

theorem marx_filter_loses_a_good_sample:
  assumes "sample_wf s" "\<not> g_mutex s" "3 \<le> g_sample_count s"
    "samples s = xs @ out # ys" "ys \<noteq> []"
    "th = cut_off (map smp_delay (samples s)) k"
    "\<forall>x\<in>set (xs @ ys). smp_delay x \<le> th" "th < smp_delay out"
  shows "\<exists>s'. marx_filter_outliers (int (g_sample_count s)) k s =
                Inr (int (g_sample_count s) - 1, s') \<and>
              samples s' = xs @ tl ys @ [last ys]"
proof -
  obtain y zs where ys: "ys = y # zs" using assms(5) by (cases ys) auto
  define p n R where "p = length xs" and "n = length ys" and "R = drop (g_sample_count s) (g_samples s)"
  have g: "g_samples s = xs @ out # ys @ R"
    using assms(4) by (metis R_def samples_def append_take_drop_id append_assoc append_Cons)
  have c: "g_sample_count s = p + 1 + n"
    using length_samples [OF assms(1)] assms(4) by (simp add: p_def n_def)
  have first: "filter_loop th [0..<0 + p] 0 s = Inr (0 + p, s)"
    using assms(7) by (intro filter_loop_keeps) (simp add: g p_def nth_append)
  define t where "t = s\<lparr>g_samples := xs @ (ys @ [last ys]) @ R, g_sample_count := p + n\<rparr>"
  have "shift_down (g_samples s) p n = xs @ ys @ [last ys] @ R"
    using shift_down_outlier [OF assms(5)] by (simp add: g p_def n_def)
  then have rem: "marx_remove_sample (int p) s = Inr ((), t)"
    using marx_remove_eq [OF assms(2), of p] c by (simp add: t_def)
  have moves: "length xs = p" "g_samples t = xs @ [y] @ (zs @ [last ys]) @ R"
    "length xs + length [y] = p + 1" "length (zs @ [last ys]) = n"
    by (simp_all add: t_def p_def n_def ys)
  have good: "\<forall>x\<in>set (zs @ [last ys]). smp_delay x \<le> th"
    using assms(7) last_in_set [OF assms(5)] by (auto simp: ys simp del: last.simps)
  obtain M' where rest: "filter_loop th [p + 1..<p + 1 + n] p t =
      Inr (p + n, t\<lparr>g_samples := xs @ (zs @ [last ys]) @ M' @ R\<rparr>)"
    using filter_loop_moves [OF _ moves(1-3) good moves(4)] by auto
  have "smp_delay (g_samples s ! p) = smp_delay out" by (simp add: g p_def)
  then have "filter_loop th [0..<g_sample_count s] 0 s =
      Inr (p + n, t\<lparr>g_samples := xs @ (zs @ [last ys]) @ M' @ R\<rparr>)"
  proof -
    assume o: "smp_delay (g_samples s ! p) = smp_delay out"
    have "[0..<g_sample_count s] = [0..<p] @ p # [p + 1..<p + 1 + n]"
      using upt_add_eq_append [of 0 p "1 + n"] upt_step [of p n] by (simp add: c del: upt_Suc)
    then show ?thesis
      using first rest rem o assms(8) by (simp add: filter_loop_append not_le [THEN iffD2] del: upt_Suc)
  qed
  then have "marx_filter_outliers (int (g_sample_count s)) k s =
      Inr (int (p + n), t\<lparr>g_samples := xs @ (zs @ [last ys]) @ M' @ R\<rparr>)"
    unfolding marx_filter_eq [OF assms(1,3)] assms(6) [symmetric] by (simp add: c)
  moreover have "samples (t\<lparr>g_samples := xs @ (zs @ [last ys]) @ M' @ R\<rparr>) = xs @ tl ys @ [last ys]"
    by (simp add: samples_def t_def p_def n_def ys)
  ultimately show ?thesis by (simp add: c)
qed


definition spiked :: sample_state where
  "spiked = buffer_of [10, 12, 11, 900, 13, 12, 14]"

lemma spiked_samples:
  "samples spiked = map sample_of [10, 12, 11] @ sample_of 900 # map sample_of [13, 12, 14]"
  by (simp add: spiked_def samples_buffer_of)

lemma cut_off_spiked: "cut_off (map smp_delay (samples spiked)) 3 = 15"
proof -
  have ds: "map smp_delay (samples spiked) = [10, 12, 11, 900, 13, 12, 14]"
    by (simp add: spiked_samples sample_of_def)
  have m: "lower_median [10, 12, 11, 900, 13, 12, 14] = 12"
    by (simp add: lower_median_def numeral_eq_Suc flip: numeral_eq_Suc)
  have d: "map (abs_dev 12) [10, 12, 11, 900, 13, 12, 14] = [2, 0, 1, 888, 1, 0, 2]"
    by (simp add: abs_dev_def)
  have m2: "lower_median [2, 0, 1, 888, 1, 0, 2] = 1"
    by code_simp
  show ?thesis
    unfolding cut_off_def ds m Let_def d m2 by (simp add: marx_kmad_def marx_threshold_def)
qed

lemma marx_filter_loses_a_good_sample_witness:
  "\<exists>s'. marx_filter_outliers 7 3 spiked = Inr (6, s') \<and>
     samples s' = map sample_of [10, 12, 11, 12, 14, 14]"
proof -
  have "sample_wf spiked" "\<not> g_mutex spiked" "g_sample_count spiked = 7"
    by (simp_all add: spiked_def buffer_of_wf) (simp_all add: buffer_of_def)
  then show ?thesis
    using marx_filter_loses_a_good_sample [OF _ _ _ spiked_samples, of 15 3]
    by (simp add: cut_off_spiked) (simp add: sample_of_def)
qed

lemma marx_filter_keeps_inliers_witness:
  "marx_filter_outliers 3 3 (buffer_of [10, 10, 10]) = Inr (3, buffer_of [10, 10, 10])"
proof -
  have "lower_median [10, 10, 10] = 10" "lower_median [0, 0, 0] = 0"
    by (simp_all add: lower_median_def)
  then have "cut_off (map smp_delay (samples (buffer_of [10, 10, 10]))) 3 = 10"
    by (simp add: samples_buffer_of sample_of_def cut_off_def Let_def abs_dev_def marx_kmad_def
        marx_threshold_def)
  moreover have "g_sample_count (buffer_of [10, 10, 10]) = 3" by (simp add: buffer_of_def)
  ultimately show ?thesis
    using marx_filter_keeps_inliers [of "buffer_of [10, 10, 10]" 3]
    by (simp add: buffer_of_wf) (simp add: samples_buffer_of sample_of_def)
qed


subsection \<open>Jitter\<close>

lemma jitter_deadlocks: "g_mutex s \<Longrightarrow> ntp_offset_jitter_us_locked F s = Inl Deadlock"
  by (simp add: ntp_offset_jitter_us_locked_def with_g_mutex_held)

lemma jitter_returns:
  assumes "\<not> g_mutex s"
  obtains j where "ntp_offset_jitter_us_locked F s = Inr (j, s)"
proof (cases "g_sample_count s \<le> 1")
  case True
  then show ?thesis
    using assms that unfolding ntp_offset_jitter_us_locked_def
    by (subst (asm) with_g_mutex_free [of _ _ 0 "s\<lparr>g_mutex := True\<rparr>"]) auto
next
  case False
  then show ?thesis
    using assms that unfolding ntp_offset_jitter_us_locked_def Let_def
    by (subst (asm) with_g_mutex_free [of _ _ _ "s\<lparr>g_mutex := True\<rparr>"]) auto
qed

end
