(* ===== verification/CString.thy ===== *)
theory CString
  imports Prelude
begin

section \<open>What the program uses of the C string and number functions\<close>

text \<open>
  A C string is the list of its characters before the terminating NUL. The functions of
  \<open><string.h>\<close>, \<open><stdlib.h>\<close> and \<open><stdio.h>\<close> on the arguments that occur in the
  program:

  \<^item> \<open>strcmp(a, b) == 0\<close> is \<open>a = b\<close>; \<open>strncmp(a, b, n) == 0\<close> is \<open>strn_eq n a b\<close>;
  \<^item> \<open>cut_at c s\<close> is what is left of \<open>s\<close> after writing NUL over its first \<open>c\<close>;
  \<^item> \<open>strtoll\<close> (base 10) returns the value, whether it was out of range (\<open>errno\<close>), and
    what is left of the string at \<open>endptr\<close>; \<open>strtoul\<close> likewise, for a 64-bit \<open>long\<close>;
  \<^item> \<open>scan_word n\<close> is \<open>sscanf\<close>'s \<open>%ns\<close>, which skips white space first;
  \<^item> \<open>scan_uint\<close> is \<open>sscanf\<close>'s \<open>%u\<close>, on a platform with a 64-bit \<open>unsigned long\<close>;
  \<^item> \<open>fgets_lines n\<close> is the sequence of strings that \<open>fgets\<close> with a buffer of \<open>n + 1\<close>
    bytes reads from a file.
\<close>

definition is_space :: "char \<Rightarrow> bool" where
  "is_space c \<longleftrightarrow> c \<in> {CHR '' '', CHR 0x09, CHR 0x0A, CHR 0x0B, CHR 0x0C, CHR 0x0D}"

definition is_digit :: "char \<Rightarrow> bool" where
  "is_digit c \<longleftrightarrow> 48 \<le> (of_char c :: nat) \<and> (of_char c :: nat) \<le> 57"

definition digit_val :: "char \<Rightarrow> nat" where
  "digit_val c = of_char c - 48"

definition strn_eq :: "nat \<Rightarrow> string \<Rightarrow> string \<Rightarrow> bool" where
  "strn_eq n a b \<longleftrightarrow> take n a = take n b"

definition cut_at :: "char \<Rightarrow> string \<Rightarrow> string" where
  "cut_at c s = takeWhile (\<lambda>x. x \<noteq> c) s"

definition from_char :: "char \<Rightarrow> string \<Rightarrow> string" where
  "from_char c s = dropWhile (\<lambda>x. x \<noteq> c) s"

definition skip_space :: "string \<Rightarrow> string" where
  "skip_space s = dropWhile is_space s"

definition digits_val :: "string \<Rightarrow> nat" where
  "digits_val ds = fold (\<lambda>c v. 10 * v + digit_val c) ds 0"

text \<open>Optional sign and digits: whether there is a minus, the digits, the rest.\<close>

definition scan_number :: "string \<Rightarrow> bool \<times> string \<times> string" where
  "scan_number s =
     (let s1 = skip_space s;
          neg = (s1 \<noteq> [] \<and> hd s1 = CHR ''-'');
          s2 = (if s1 \<noteq> [] \<and> (hd s1 = CHR ''-'' \<or> hd s1 = CHR ''+'') then tl s1 else s1)
      in (neg, takeWhile is_digit s2, dropWhile is_digit s2))"

definition strtoll :: "string \<Rightarrow> int \<times> bool \<times> string" where
  "strtoll s =
     (let (neg, ds, rest) = scan_number s;
          v = (if neg then - int (digits_val ds) else int (digits_val ds))
      in if ds = [] then (0, False, s)
         else if v < - (2 ^ 63) then (- (2 ^ 63), True, rest)
         else if 2 ^ 63 \<le> v then (2 ^ 63 - 1, True, rest)
         else (v, False, rest))"

definition strtoul :: "string \<Rightarrow> int \<times> bool \<times> string" where
  "strtoul s =
     (let (neg, ds, rest) = scan_number s; v = int (digits_val ds)
      in if ds = [] then (0, False, s)
         else if 2 ^ 64 \<le> v then (2 ^ 64 - 1, True, rest)
         else (if neg then (- v) mod 2 ^ 64 else v, False, rest))"

definition scan_uint :: "string \<Rightarrow> u32 option" where
  "scan_uint s =
     (let (neg, ds, rest) = scan_number s;
          v = (if 2 ^ 64 \<le> digits_val ds then 2 ^ 64 - 1
               else if neg then - int (digits_val ds) else int (digits_val ds))
      in if ds = [] then None else Some (word_of_int v))"

definition scan_word :: "nat \<Rightarrow> string \<Rightarrow> string \<times> string" where
  "scan_word n s =
     (let s1 = skip_space s; w = take n (takeWhile (\<lambda>c. \<not> is_space c) s1)
      in (w, drop (length w) s1))"

definition cstr :: "string \<Rightarrow> string" where
  "cstr s = cut_at (CHR 0x00) s"

definition fgets_chunk :: "nat \<Rightarrow> string \<Rightarrow> string \<times> string" where
  "fgets_chunk n s =
     (let l = takeWhile (\<lambda>c. c \<noteq> CHR 0x0A) (take n s)
      in if length l < length (take n s) then (l @ [CHR 0x0A], drop (length l + 1) s)
         else (l, drop (length l) s))"

lemma fgets_chunk_progress:
  assumes "0 < n" "s \<noteq> []"
  shows "length (snd (fgets_chunk n s)) < length s"
proof (cases "length (takeWhile (\<lambda>c. c \<noteq> CHR 0x0A) (take n s)) < length (take n s)")
  case True
  then show ?thesis using assms by (simp add: fgets_chunk_def Let_def)
next
  case False
  then have "length (takeWhile (\<lambda>c. c \<noteq> CHR 0x0A) (take n s)) = length (take n s)"
    using length_takeWhile_le order_antisym not_less by blast
  then show ?thesis using assms by (simp add: fgets_chunk_def Let_def)
qed

function fgets_lines :: "nat \<Rightarrow> string \<Rightarrow> string list" where
  "fgets_lines n s =
     (if n = 0 \<or> s = [] then []
      else cstr (fst (fgets_chunk n s)) # fgets_lines n (snd (fgets_chunk n s)))"
  by pat_completeness auto
termination
  by (relation "measure (\<lambda>(n, s). length s)") (auto simp: fgets_chunk_progress)

declare fgets_lines.simps [simp del]

subsection \<open>Facts\<close>


lemma strtoll_range:
  assumes "strtoll s = (v, r, rest)"
  shows "in_i64 v"
  using assms by (auto simp: strtoll_def in_i64_def Let_def split: prod.splits if_splits)

text \<open>A decimal numeral without sign or leading space is read back exactly.\<close>

lemma strtoll_digits:
  assumes "ds \<noteq> []" "\<forall>c\<in>set ds. is_digit c" "digits_val ds < 2 ^ 63"
  shows "strtoll ds = (int (digits_val ds), False, [])"
proof -
  obtain c cs where ds: "ds = c # cs" using assms(1) by (cases ds) auto
  have "\<not> is_space c" "c \<noteq> CHR ''-''" "c \<noteq> CHR ''+''"
    using assms(2) by (auto simp: ds is_digit_def is_space_def)
  moreover have "takeWhile is_digit ds = ds" "dropWhile is_digit ds = []"
    using assms(2) by (auto simp: takeWhile_eq_all_conv)
  ultimately have "scan_number ds = (False, ds, [])"
    by (simp add: scan_number_def skip_space_def Let_def ds)
  moreover have "int (digits_val ds) < 2 ^ 63" using assms(3) by simp
  ultimately show ?thesis
    using assms(1) by (simp add: strtoll_def)
qed

end
