(* ===== verification/ModeHandler.thy ===== *)
theory ModeHandler
  imports CString Packet
begin

section \<open>Access control, rate limiting and mode validation (mode_handler.c)\<close>

text \<open>
  The record \<open>mode_state\<close> is the file's static state: the configuration, the access
  list and the rate limit table (each the array up to its count; nothing reads past the
  count), and \<open>g_mode_mutex\<close>. \<open>inet_addr\<close> is the operating system's and a
  parameter of everything that uses it: it maps a text to the address as the host sees
  the four network-order bytes, \<open>INADDR_NONE\<close> on failure. The host is little-endian,
  so \<open>htonl\<close> swaps bytes. \<open>time(NULL)\<close> is an argument.
\<close>

record ModeConfig =
  enable_control_messages :: u8
  enable_symmetric_mode :: u8
  enable_broadcast :: u8
  drop_unauthenticated_control :: u8
  enable_ntp_auth :: u8
  acl_default_policy :: u8
  rate_limit_interval :: u8
  max_response_ratio :: fval
  initial_stratum :: u8
  panic_threshold :: u16

record AclEntry =
  acl_ip :: u32
  acl_mask :: u32
  acl_flags :: u8
  acl_comment :: "string option"

record RateLimitEntry =
  rl_ip :: u32
  rl_last_request :: int
  rl_count :: u8

record mode_state =
  g_mode_config :: ModeConfig
  g_acl_entries :: "AclEntry list"
  g_rate_limit_entries :: "RateLimitEntry list"
  g_mode_mutex :: bool

abbreviation MAX_ACL_ENTRIES :: nat where "MAX_ACL_ENTRIES \<equiv> 256"
abbreviation MAX_RATE_LIMIT_ENTRIES :: nat where "MAX_RATE_LIMIT_ENTRIES \<equiv> 1024"
abbreviation INADDR_NONE :: u32 where "INADDR_NONE \<equiv> 0xFFFFFFFF"
abbreviation EINVAL :: int where "EINVAL \<equiv> 22"
abbreviation ENOMEM :: int where "ENOMEM \<equiv> 12"
abbreviation ENOENT :: int where "ENOENT \<equiv> 2"
abbreviation E2BIG :: int where "E2BIG \<equiv> 7"
abbreviation ENOTSUP :: int where "ENOTSUP \<equiv> 95"
abbreviation ACL_FLAG_NOQUERY :: u8 where "ACL_FLAG_NOQUERY \<equiv> 1"
abbreviation ACL_FLAG_NOSERVE :: u8 where "ACL_FLAG_NOSERVE \<equiv> 2"
abbreviation ACL_FLAG_LIMITED :: u8 where "ACL_FLAG_LIMITED \<equiv> 4"
abbreviation ACL_FLAG_NOPEER :: u8 where "ACL_FLAG_NOPEER \<equiv> 8"
abbreviation ACL_FLAG_NOTRUST :: u8 where "ACL_FLAG_NOTRUST \<equiv> 16"
abbreviation DEFAULT_ACL_FLAGS :: u8 where "DEFAULT_ACL_FLAGS \<equiv> 7"

definition default_mode_config :: ModeConfig where
  "default_mode_config =
     \<lparr>enable_control_messages = 0, enable_symmetric_mode = 1, enable_broadcast = 0,
      drop_unauthenticated_control = 1, enable_ntp_auth = 0,
      acl_default_policy = DEFAULT_ACL_FLAGS, rate_limit_interval = 2,
      max_response_ratio = Finite 1, initial_stratum = 16, panic_threshold = 1000\<rparr>"

definition initial_mode_state :: mode_state where
  "initial_mode_state =
     \<lparr>g_mode_config = default_mode_config, g_acl_entries = [], g_rate_limit_entries = [],
      g_mode_mutex = False\<rparr>"

definition with_g_mode_mutex ::
    "(mode_state \<Rightarrow> ('a \<times> mode_state) run) \<Rightarrow> mode_state \<Rightarrow> ('a \<times> mode_state) run" where
  "with_g_mode_mutex = with_mutex g_mode_mutex (\<lambda>b s. s\<lparr>g_mode_mutex := b\<rparr>)"

interpretation gmm: mutex g_mode_mutex "\<lambda>b s. s\<lparr>g_mode_mutex := b\<rparr>"
  by unfold_locales simp_all

subsection \<open>Addresses and networks\<close>

definition htonl :: "u32 \<Rightarrow> u32" where
  "htonl x = u32_of_bytes (ucast x) (ucast (drop_bit 8 x)) (ucast (drop_bit 16 x)) (ucast (drop_bit 24 x))"

definition prefix_mask :: "u32 \<Rightarrow> u32" where
  "prefix_mask prefix_len =
     (if prefix_len = 0 then 0 else htonl (push_bit (32 - unat prefix_len) 0xFFFFFFFF))"

text \<open>Result: the address, 0 on failure, and the mask when it was written.\<close>

definition parse_network :: "(string \<Rightarrow> u32) \<Rightarrow> string option \<Rightarrow> u32 \<times> u32 option" where
  "parse_network inet_addr network =
     (case network of
        None \<Rightarrow> (0, None)
      | Some net \<Rightarrow>
          let slash = from_char (CHR ''/'') net;
              buf = cut_at (CHR ''/'') net
          in if 64 \<le> length buf then (0, None)
             else
               (let scanned = (if slash = [] then Some 32 else scan_uint (tl slash))
                in case scanned of
                     None \<Rightarrow> (0, None)
                   | Some prefix_len \<Rightarrow>
                       if 32 < prefix_len then (0, None)
                       else
                         (let ip = inet_addr buf
                          in if ip = INADDR_NONE \<and> buf \<noteq> ''255.255.255.255'' then (0, None)
                             else (ip, Some (prefix_mask prefix_len)))))"

definition parse_ip :: "(string \<Rightarrow> u32) \<Rightarrow> string option \<Rightarrow> u32" where
  "parse_ip inet_addr ip_str = (case ip_str of None \<Rightarrow> 0 | Some s \<Rightarrow> inet_addr s)"

definition ip_in_network :: "u32 \<Rightarrow> u32 \<Rightarrow> u32 \<Rightarrow> bool" where
  "ip_in_network ip net netmask \<longleftrightarrow> ip AND netmask = net AND netmask"

subsection \<open>Initialisation, configuration and the access list\<close>

definition mode_handler_init :: "mode_state \<Rightarrow> (int \<times> mode_state) run" where
  "mode_handler_init =
     with_g_mode_mutex (\<lambda>s. Inr (0, s\<lparr>g_acl_entries := [], g_rate_limit_entries := []\<rparr>))"

definition acl_clear_entries :: "mode_state \<Rightarrow> (int \<times> mode_state) run" where
  "acl_clear_entries = with_g_mode_mutex (\<lambda>s. Inr (0, s\<lparr>g_acl_entries := []\<rparr>))"

definition acl_get_entry_count :: "mode_state \<Rightarrow> (int \<times> mode_state) run" where
  "acl_get_entry_count = with_g_mode_mutex (\<lambda>s. Inr (int (length (g_acl_entries s)), s))"

definition rate_limit_cleanup :: "mode_state \<Rightarrow> (unit \<times> mode_state) run" where
  "rate_limit_cleanup = with_g_mode_mutex (\<lambda>s. Inr ((), s\<lparr>g_rate_limit_entries := []\<rparr>))"

definition mode_handler_cleanup :: "mode_state \<Rightarrow> (unit \<times> mode_state) run" where
  "mode_handler_cleanup =
     with_g_mode_mutex (\<lambda>s.
       bindR (acl_get_entry_count s) (\<lambda>(_, s).
       bindR (acl_clear_entries s) (\<lambda>(_, s).
       bindR (rate_limit_cleanup s) (\<lambda>(_, s).
         Inr ((), s\<lparr>g_acl_entries := [], g_rate_limit_entries := []\<rparr>)))))"

definition mode_handler_set_config :: "ModeConfig option \<Rightarrow> mode_state \<Rightarrow> (int \<times> mode_state) run" where
  "mode_handler_set_config config s =
     (case config of
        None \<Rightarrow> Inr (- EINVAL, s)
      | Some c \<Rightarrow>
          with_g_mode_mutex (\<lambda>s.
            bindR (acl_get_entry_count s) (\<lambda>(_, s). Inr (0, s\<lparr>g_mode_config := c\<rparr>))) s)"

definition mode_handler_get_config ::
    "ModeConfig option \<Rightarrow> mode_state \<Rightarrow> ((int \<times> ModeConfig option) \<times> mode_state) run" where
  "mode_handler_get_config config s =
     (case config of
        None \<Rightarrow> Inr ((- EINVAL, None), s)
      | Some _ \<Rightarrow> with_g_mode_mutex (\<lambda>s. Inr ((0, Some (g_mode_config s)), s)) s)"

definition acl_add_entry ::
    "(string \<Rightarrow> u32) \<Rightarrow> string option \<Rightarrow> u8 \<Rightarrow> mode_state \<Rightarrow> (int \<times> mode_state) run" where
  "acl_add_entry inet_addr network flags s =
     (case network of
        None \<Rightarrow> Inr (- EINVAL, s)
      | Some _ \<Rightarrow>
          with_g_mode_mutex (\<lambda>s.
            if MAX_ACL_ENTRIES \<le> length (g_acl_entries s) then Inr (- ENOMEM, s)
            else
              (let (net, netmask) = parse_network inet_addr network
               in if net = 0 then Inr (- EINVAL, s)
                  else Inr (0, s\<lparr>g_acl_entries := g_acl_entries s @
                              [\<lparr>acl_ip = net, acl_mask = the netmask, acl_flags = flags,
                                acl_comment = None\<rparr>]\<rparr>))) s)"

text \<open>The first entry with this network and mask is taken out of the array.\<close>

fun remove_first_acl :: "u32 \<Rightarrow> u32 \<Rightarrow> AclEntry list \<Rightarrow> AclEntry list option" where
  "remove_first_acl net netmask [] = None"
| "remove_first_acl net netmask (e # es) =
     (if acl_ip e = net \<and> acl_mask e = netmask then Some es
      else (case remove_first_acl net netmask es of None \<Rightarrow> None | Some es' \<Rightarrow> Some (e # es')))"

definition acl_remove_entry ::
    "(string \<Rightarrow> u32) \<Rightarrow> string option \<Rightarrow> mode_state \<Rightarrow> (int \<times> mode_state) run" where
  "acl_remove_entry inet_addr network s =
     (case network of
        None \<Rightarrow> Inr (- EINVAL, s)
      | Some _ \<Rightarrow>
          (let (net, netmask) = parse_network inet_addr network
           in if net = 0 then Inr (- EINVAL, s)
              else with_g_mode_mutex (\<lambda>s.
                (case remove_first_acl net (the netmask) (g_acl_entries s) of
                   Some es \<Rightarrow> Inr (0, s\<lparr>g_acl_entries := es\<rparr>)
                 | None \<Rightarrow> Inr (- ENOENT, s))) s))"

fun acl_lookup :: "u32 \<Rightarrow> AclEntry list \<Rightarrow> AclEntry option" where
  "acl_lookup ip [] = None"
| "acl_lookup ip (e # es) =
     (if ip_in_network ip (acl_ip e) (acl_mask e) then Some e else acl_lookup ip es)"

definition mode_allowed :: "u8 \<Rightarrow> u8 \<Rightarrow> int" where
  "mode_allowed flags packet_mode =
     (if packet_mode = NTP_MODE_CONTROL \<or> packet_mode = NTP_MODE_PRIVATE then
        of_bool (flags AND ACL_FLAG_NOQUERY = 0)
      else if packet_mode = NTP_MODE_CLIENT \<or> packet_mode = NTP_MODE_SERVER \<or>
              packet_mode = NTP_MODE_SYMMETRIC_ACTIVE \<or> packet_mode = NTP_MODE_SYMMETRIC_PASSIVE then
        of_bool (flags AND ACL_FLAG_NOSERVE = 0)
      else if packet_mode = NTP_MODE_BROADCAST then of_bool (flags AND ACL_FLAG_NOSERVE = 0)
      else 0)"

definition acl_check_client ::
    "(string \<Rightarrow> u32) \<Rightarrow> string option \<Rightarrow> u8 \<Rightarrow> mode_state \<Rightarrow> (int \<times> mode_state) run" where
  "acl_check_client inet_addr client_ip packet_mode s =
     (let ip = parse_ip inet_addr client_ip
      in if client_ip = None then Inr (0, s)
         else if ip = 0 then Inr (0, s)
         else
           bindR (if packet_mode = NTP_MODE_SYMMETRIC_ACTIVE \<or>
                     packet_mode = NTP_MODE_SYMMETRIC_PASSIVE
                  then with_g_mode_mutex (\<lambda>s. Inr (enable_symmetric_mode (g_mode_config s) = 0, s)) s
                  else Inr (False, s)) (\<lambda>(refused, s).
           if refused then Inr (0, s)
           else
             bindR (if packet_mode = NTP_MODE_BROADCAST
                    then with_g_mode_mutex (\<lambda>s. Inr (enable_broadcast (g_mode_config s) = 0, s)) s
                    else Inr (False, s)) (\<lambda>(refused, s).
             if refused then Inr (0, s)
             else
               with_g_mode_mutex (\<lambda>s.
                 Inr (mode_allowed
                        (case acl_lookup ip (g_acl_entries s) of
                           Some e \<Rightarrow> acl_flags e
                         | None \<Rightarrow> acl_default_policy (g_mode_config s)) packet_mode, s)) s)))"

definition acl_get_client_flags ::
    "(string \<Rightarrow> u32) \<Rightarrow> string option \<Rightarrow> mode_state \<Rightarrow> (u8 \<times> mode_state) run" where
  "acl_get_client_flags inet_addr client_ip s =
     (let ip = parse_ip inet_addr client_ip
      in if client_ip = None then Inr (acl_default_policy (g_mode_config s), s)
         else if ip = 0 then Inr (acl_default_policy (g_mode_config s), s)
         else
           bindR (with_g_mode_mutex (\<lambda>s. Inr (acl_lookup ip (g_acl_entries s), s)) s) (\<lambda>(entry, s).
             Inr (case entry of Some e \<Rightarrow> acl_flags e
                              | None \<Rightarrow> acl_default_policy (g_mode_config s), s)))"

subsection \<open>Rate limiting\<close>

text \<open>A pointer into the table is the index of the entry.\<close>

fun find_ip :: "u32 \<Rightarrow> RateLimitEntry list \<Rightarrow> nat option" where
  "find_ip ip [] = None"
| "find_ip ip (e # es) = (if rl_ip e = ip then Some 0 else map_option Suc (find_ip ip es))"

definition rate_limit_find :: "(string \<Rightarrow> u32) \<Rightarrow> string option \<Rightarrow> mode_state \<Rightarrow> nat option" where
  "rate_limit_find inet_addr client_ip s =
     (let ip = parse_ip inet_addr client_ip
      in if client_ip = None then None
         else if ip = 0 then None
         else find_ip ip (g_rate_limit_entries s))"

definition rate_limit_insert ::
    "(string \<Rightarrow> u32) \<Rightarrow> string option \<Rightarrow> mode_state \<Rightarrow> nat option \<times> mode_state" where
  "rate_limit_insert inet_addr client_ip s =
     (let ip = parse_ip inet_addr client_ip
      in if client_ip = None then (None, s)
         else if ip = 0 then (None, s)
         else (case rate_limit_find inet_addr client_ip s of
                 Some i \<Rightarrow> (Some i, s)
               | None \<Rightarrow>
                   let es = (if MAX_RATE_LIMIT_ENTRIES \<le> length (g_rate_limit_entries s)
                             then tl (g_rate_limit_entries s) else g_rate_limit_entries s)
                   in (Some (length es),
                       s\<lparr>g_rate_limit_entries :=
                           es @ [\<lparr>rl_ip = ip, rl_last_request = 0, rl_count = 0\<rparr>]\<rparr>)))"

definition rate_limit_check ::
    "(string \<Rightarrow> u32) \<Rightarrow> int \<Rightarrow> string option \<Rightarrow> mode_state \<Rightarrow> (int \<times> mode_state) run" where
  "rate_limit_check inet_addr now client_ip s =
     (if client_ip = None then Inr (- EINVAL, s)
      else
        bindR (with_g_mode_mutex (\<lambda>s. Inr (rate_limit_interval (g_mode_config s), s)) s) (\<lambda>(interval, s).
        case rate_limit_find inet_addr client_ip s of
          None \<Rightarrow> Inr (0, s)
        | Some i \<Rightarrow>
            bindR (i64 (now - rl_last_request (g_rate_limit_entries s ! i))) (\<lambda>d.
              Inr (if d < uint interval then 1 else 0, s))))"

definition rate_limit_update ::
    "(string \<Rightarrow> u32) \<Rightarrow> int \<Rightarrow> string option \<Rightarrow> mode_state \<Rightarrow> mode_state" where
  "rate_limit_update inet_addr now client_ip s =
     (if client_ip = None then s
      else (case rate_limit_insert inet_addr client_ip s of
              (None, s') \<Rightarrow> s'
            | (Some i, s') \<Rightarrow>
                let e = g_rate_limit_entries s' ! i
                in s'\<lparr>g_rate_limit_entries := (g_rate_limit_entries s')[i :=
                        e\<lparr>rl_last_request := now, rl_count := rl_count e + 1\<rparr>]\<rparr>))"

subsection \<open>Defaults and checks on packets\<close>

text \<open>The globals of main.c that these read are arguments.\<close>

definition mode_get_default_li :: "bool \<Rightarrow> u8 \<Rightarrow> mode_state \<Rightarrow> (u8 \<times> mode_state) run" where
  "mode_get_default_li time_synced local_li =
     with_g_mode_mutex (\<lambda>s. Inr (if time_synced then local_li else 3, s))"

definition mode_get_default_stratum :: "bool \<Rightarrow> u8 \<Rightarrow> mode_state \<Rightarrow> (u8 \<times> mode_state) run" where
  "mode_get_default_stratum time_synced local_stratum =
     with_g_mode_mutex (\<lambda>s.
       Inr (if time_synced then local_stratum else initial_stratum (g_mode_config s), s))"

definition mode_get_default_ref_id :: "bool \<Rightarrow> u32 \<Rightarrow> mode_state \<Rightarrow> (u32 \<times> mode_state) run" where
  "mode_get_default_ref_id time_synced local_ref_id =
     with_g_mode_mutex (\<lambda>s. Inr (if time_synced then local_ref_id else 0, s))"

definition validate_packet_mode ::
    "fpu \<Rightarrow> u8 \<Rightarrow> u64 \<Rightarrow> u64 \<Rightarrow> mode_state \<Rightarrow> (int \<times> mode_state) run" where
  "validate_packet_mode F mode req_size resp_size s =
     (if NTP_MODE_PRIVATE < mode then Inr (- EINVAL, s)
      else
        bindR (with_g_mode_mutex (\<lambda>s. Inr (max_response_ratio (g_mode_config s), s)) s) (\<lambda>(max_ratio, s).
        case max_ratio of
          Finite r \<Rightarrow>
            (let limit = trunc (rnd F (rnd F (of_int (uint req_size)) * r))
             in if limit < 0 \<or> 2 ^ 64 \<le> limit then Inl Undefined
                else Inr (if limit < uint resp_size then - E2BIG else 0, s))
        | _ \<Rightarrow> Inl Undefined))"

definition validate_ntp_version :: "u8 \<Rightarrow> int" where
  "validate_ntp_version version = (if version = NTP_VN_4 then 0 else - EINVAL)"

text \<open>The fields of a packet after its header, in steps: type, length, next position.\<close>

definition auth_field :: "u8 list \<Rightarrow> nat \<Rightarrow> (nat \<times> nat) run" where
  "auth_field data pos =
     bindR (mem_read data pos) (\<lambda>t1. bindR (mem_read data (pos + 1)) (\<lambda>t0.
     bindR (mem_read data (pos + 2)) (\<lambda>l1. bindR (mem_read data (pos + 3)) (\<lambda>l0.
       Inr (unat t1 * 256 + unat t0, unat l1 * 256 + unat l0)))))"

function auth_loop :: "u8 list \<Rightarrow> nat \<Rightarrow> nat \<Rightarrow> mode_state \<Rightarrow> (int \<times> mode_state) run" where
  "auth_loop data sz pos s =
     (if pos + 4 \<le> sz then
        (case auth_field data pos of
           Inl e \<Rightarrow> Inl e
         | Inr (field_type, field_len) \<Rightarrow>
             if field_len < 4 \<or> sz < pos + field_len then Inr (0, s)
             else if field_type = 0x0003 then
               bindR (with_g_mode_mutex (\<lambda>s. Inr (enable_ntp_auth (g_mode_config s), s)) s)
                 (\<lambda>(auth_enabled, s). Inr (if auth_enabled = 0 then - ENOTSUP else 1, s))
             else if field_type = 0x0008 then Inr (0, s)
             else auth_loop data sz (pos + (field_len + 3) div 4 * 4) s)
      else Inr (0, s))"
  by pat_completeness auto
termination by (relation "measure (\<lambda>(data, sz, pos, s). sz - pos)") auto

declare auth_loop.simps [simp del]

definition validate_packet_authentication ::
    "u8 list option \<Rightarrow> nat \<Rightarrow> mode_state \<Rightarrow> (int \<times> mode_state) run" where
  "validate_packet_authentication buffer sz s =
     (case buffer of
        None \<Rightarrow> Inr (0, s)
      | Some data \<Rightarrow>
          if sz < 48 then Inr (0, s)
          else if 48 < sz then auth_loop data sz 48 s
          else Inr (0, s))"

definition check_panic_condition :: "int \<Rightarrow> mode_state \<Rightarrow> (int \<times> mode_state) run" where
  "check_panic_condition time_offset s =
     (if time_offset = 0 then Inr (0, s)
      else
        bindR (with_g_mode_mutex (\<lambda>s. Inr (panic_threshold (g_mode_config s), s)) s) (\<lambda>(threshold, s).
        bindR (if time_offset < 0 then i64 (- time_offset) else Inr time_offset) (\<lambda>off.
          Inr (if uint threshold * 1000000000 < off then 1 else 0, s))))"


subsection \<open>Tables searched for the first match\<close>

text \<open>
  Both tables are searched linearly: the first entry that matches the key is the answer.
  The locale is this interface; the access list and the rate limit table interpret it.
\<close>

locale first_match =
  fixes matches :: "'k \<Rightarrow> 'e \<Rightarrow> bool"
    and lookup :: "'k \<Rightarrow> 'e list \<Rightarrow> 'e option"
  assumes lookup_Nil: "lookup k [] = None"
    and lookup_Cons: "lookup k (e # es) = (if matches k e then Some e else lookup k es)"
begin

lemma lookup_append:
  "lookup k (xs @ ys) = (case lookup k xs of Some e \<Rightarrow> Some e | None \<Rightarrow> lookup k ys)"
  by (induction xs) (simp_all add: lookup_Nil lookup_Cons)

lemma lookup_None_iff: "lookup k xs = None \<longleftrightarrow> (\<forall>e\<in>set xs. \<not> matches k e)"
  by (induction xs) (auto simp: lookup_Nil lookup_Cons)

lemma lookup_SomeD: "lookup k xs = Some e \<Longrightarrow> e \<in> set xs \<and> matches k e"
  by (induction xs) (auto simp: lookup_Nil lookup_Cons split: if_splits)

text \<open>A new last entry only decides for keys that no earlier entry matches.\<close>

lemma lookup_snoc:
  "lookup k (xs @ [e]) =
     (if lookup k xs \<noteq> None then lookup k xs else if matches k e then Some e else None)"
  by (auto simp: lookup_append lookup_Nil lookup_Cons split: option.split)

lemma lookup_replace:
  assumes "i < length xs" "\<And>k. matches k e \<longleftrightarrow> matches k (xs ! i)"
    "\<forall>j<i. \<forall>k. matches k (xs ! i) \<longrightarrow> \<not> matches k (xs ! j)"
  shows "lookup k (xs[i := e]) = (if matches k e then Some e else lookup k xs)"
  using assms
proof (induction xs arbitrary: i)
  case (Cons x xs)
  show ?case
  proof (cases i)
    case 0
    then show ?thesis using Cons.prems by (auto simp: lookup_Cons)
  next
    case (Suc j)
    have "lookup k (xs[j := e]) = (if matches k e then Some e else lookup k xs)"
      using Cons.prems by (intro Cons.IH) (auto simp: Suc)
    moreover have "matches k e \<Longrightarrow> \<not> matches k x"
      using Cons.prems(2) Cons.prems(3) by (auto simp: Suc)
    ultimately show ?thesis using Cons.prems by (auto simp: Suc lookup_Cons)
  qed
qed simp

end

definition entry_of_ip :: "u32 \<Rightarrow> RateLimitEntry list \<Rightarrow> RateLimitEntry option" where
  "entry_of_ip ip es = map_option (\<lambda>i. es ! i) (find_ip ip es)"

interpretation acl: first_match "\<lambda>ip e. ip_in_network ip (acl_ip e) (acl_mask e)" acl_lookup
  by unfold_locales simp_all

interpretation rl: first_match "\<lambda>ip e. rl_ip e = ip" entry_of_ip
  by unfold_locales (auto simp: entry_of_ip_def option.map_comp o_def)

subsection \<open>The state invariant and the mutex\<close>

definition mode_wf :: "mode_state \<Rightarrow> bool" where
  "mode_wf s \<longleftrightarrow> length (g_acl_entries s) \<le> MAX_ACL_ENTRIES \<and>
     length (g_rate_limit_entries s) \<le> MAX_RATE_LIMIT_ENTRIES \<and>
     distinct (map rl_ip (g_rate_limit_entries s)) \<and> \<not> g_mode_mutex s"

lemma mode_mutex_same [simp]: "\<not> g_mode_mutex s \<Longrightarrow> s\<lparr>g_mode_mutex := False\<rparr> = s"
  by simp

lemma with_g_mode_mutex_free:
  assumes "\<not> g_mode_mutex s"
  shows "with_g_mode_mutex body s =
    bindR (body (s\<lparr>g_mode_mutex := True\<rparr>))
      (\<lambda>(r, s'). if g_mode_mutex s' then Inr (r, s'\<lparr>g_mode_mutex := False\<rparr>) else Inl Undefined)"
  using assms by (simp add: with_g_mode_mutex_def with_mutex_def)

lemma with_g_mode_mutex_held: "g_mode_mutex s \<Longrightarrow> with_g_mode_mutex body s = Inl Deadlock"
  by (simp add: with_g_mode_mutex_def gmm.relock_deadlocks)

lemma mode_wf_free: "mode_wf s \<Longrightarrow> \<not> g_mode_mutex s"
  by (simp add: mode_wf_def)

lemma remove_first_acl_length:
  "remove_first_acl n m es = Some es' \<Longrightarrow> length es = Suc (length es')"
  by (induction es arbitrary: es') (auto split: if_splits option.splits)

lemma acl_add_eq:
  assumes "\<not> g_mode_mutex s" "parse_network inet_addr (Some network) = (net, m)"
  shows "acl_add_entry inet_addr (Some network) flags s =
    Inr (if MAX_ACL_ENTRIES \<le> length (g_acl_entries s) then (- ENOMEM, s)
         else if net = 0 then (- EINVAL, s)
         else (0, s\<lparr>g_acl_entries := g_acl_entries s @
                \<lparr>acl_ip = net, acl_mask = the m, acl_flags = flags, acl_comment = None\<rparr> # []\<rparr>))"
  using assms by (simp add: acl_add_entry_def with_g_mode_mutex_free)

lemma acl_add_wf:
  assumes "mode_wf s"
  obtains r s' where "acl_add_entry inet_addr (Some network) flags s = Inr (r, s')" "mode_wf s'"
proof -
  obtain net m where "parse_network inet_addr (Some network) = (net, m)" by fastforce
  note eq = acl_add_eq [OF mode_wf_free [OF assms] this, of flags]
  show ?thesis
  proof (cases "MAX_ACL_ENTRIES \<le> length (g_acl_entries s) \<or> net = 0")
    case True
    then show ?thesis using eq assms by (cases "MAX_ACL_ENTRIES \<le> length (g_acl_entries s)") (simp_all add: that)
  next
    case False
    then show ?thesis using eq assms by (intro that) (auto simp: mode_wf_def)
  qed
qed

lemma acl_remove_wf:
  assumes "mode_wf s"
  obtains r s' where "acl_remove_entry inet_addr (Some network) s = Inr (r, s')" "mode_wf s'"
proof -
  obtain net m where p: "parse_network inet_addr (Some network) = (net, m)" by fastforce
  show ?thesis
  proof (cases "net = 0")
    case True
    then show ?thesis using that assms by (simp add: acl_remove_entry_def p)
  next
    case False
    show ?thesis
    proof (cases "remove_first_acl net (the m) (g_acl_entries s)")
      case None
      then show ?thesis
        using that assms False mode_wf_free [OF assms]
        by (simp add: acl_remove_entry_def p with_g_mode_mutex_free)
    next
      case (Some es)
      then show ?thesis
        using that assms False mode_wf_free [OF assms] remove_first_acl_length [OF Some]
        by (simp add: acl_remove_entry_def p with_g_mode_mutex_free mode_wf_def)
    qed
  qed
qed

text \<open>
  \<open>mode_handler_cleanup\<close> and \<open>mode_handler_set_config\<close> (with a configuration) never
  return, in any state: they lock \<open>g_mode_mutex\<close> and then call
  \<open>acl_get_entry_count\<close>, for a log line, which locks it again.
\<close>

theorem mode_cleanup_and_set_config_deadlock:
  "mode_handler_cleanup s = Inl Deadlock \<and> mode_handler_set_config (Some c) s = Inl Deadlock"
  unfolding mode_handler_cleanup_def mode_handler_set_config_def acl_get_entry_count_def
    with_g_mode_mutex_def
  by (simp add: gmm.nested_deadlocks)

subsection \<open>Networks\<close>

lemma bit_htonl:
  "n < 8 \<Longrightarrow> bit (htonl x) n \<longleftrightarrow> bit x (24 + n)"
  "8 \<le> n \<Longrightarrow> n < 16 \<Longrightarrow> bit (htonl x) n \<longleftrightarrow> bit x (n + 8)"
  "16 \<le> n \<Longrightarrow> n < 24 \<Longrightarrow> bit (htonl x) n \<longleftrightarrow> bit x (n - 8)"
  "24 \<le> n \<Longrightarrow> n < 32 \<Longrightarrow> bit (htonl x) n \<longleftrightarrow> bit x (n - 24)"
  by (auto simp: htonl_def u32_of_bytes_def bit_simps add.commute)
lemma htonl_and: "htonl a AND htonl b = htonl (a AND b)"
proof (rule bit_word_eqI)
  fix n assume n: "n < LENGTH(32)"
  then consider "n < 8" | "8 \<le> n" "n < 16" | "16 \<le> n" "n < 24" | "24 \<le> n" "n < 32" by fastforce
  then show "bit (htonl a AND htonl b) n \<longleftrightarrow> bit (htonl (a AND b)) n"
    by cases (simp_all add: bit_htonl bit_and_iff)
qed

lemma htonl_htonl [simp]: "htonl (htonl x) = x"
proof (rule bit_word_eqI)
  fix n assume n: "n < LENGTH(32)"
  then consider "n < 8" | "8 \<le> n" "n < 16" | "16 \<le> n" "n < 24" | "24 \<le> n" "n < 32" by fastforce
  then show "bit (htonl (htonl x)) n \<longleftrightarrow> bit x n"
    by cases (simp_all add: bit_htonl)
qed
lemma and_mask_eq_iff:
  fixes a b :: u32
  assumes "k \<le> 32"
  shows "a AND push_bit k 0xFFFFFFFF = b AND push_bit k 0xFFFFFFFF \<longleftrightarrow> drop_bit k a = drop_bit k b"
proof -
  have m: "(0xFFFFFFFF :: u32) = - 1" by simp
  have "a AND push_bit k (-1) = b AND push_bit k (-1) \<longleftrightarrow>
     (\<forall>n. n < 32 \<and> k \<le> n \<longrightarrow> bit a n = bit b n)"
    by (auto simp: bit_eq_iff bit_simps)
  also have "\<dots> \<longleftrightarrow> (\<forall>n. k + n < 32 \<longrightarrow> bit a (k + n) = bit b (k + n))"
    by (metis le_add1 le_add_diff_inverse)
  also have "\<dots> \<longleftrightarrow> drop_bit k a = drop_bit k b"
    using bit_imp_le_length [of a] bit_imp_le_length [of b] by (fastforce simp: bit_eq_iff bit_simps)
  finally show ?thesis unfolding m .
qed

lemma htonl_eq_iff [simp]: "htonl a = htonl b \<longleftrightarrow> a = b"
  by (metis htonl_htonl)

lemma prefix_mask_eq:
  assumes "p \<le> 32"
  shows "prefix_mask p = htonl (push_bit (32 - unat p) 0xFFFFFFFF)"
proof (cases "p = 0")
  case True
  have "push_bit 32 (0xFFFFFFFF :: u32) = 0" by code_simp
  moreover have "htonl 0 = 0" by (simp add: htonl_def u32_of_bytes_def)
  ultimately show ?thesis
    using True by (simp only: prefix_mask_def if_True unsigned_0 diff_zero if_cancel)
qed (simp add: prefix_mask_def)

text \<open>
  C17: the address test is the CIDR test. For a network \<open>b/p\<close> and a client \<open>a\<close>, both as
  numbers in host order and stored in network order, the client is in the network exactly
  when the first \<open>p\<close> bits of the two addresses agree, for every \<open>p\<close> up to 32.
\<close>

theorem in_network_is_prefix_match:
  assumes "p \<le> 32"
  shows "ip_in_network (htonl a) (htonl b) (prefix_mask p) \<longleftrightarrow>
           drop_bit (32 - unat p) a = drop_bit (32 - unat p) b"
  by (simp add: ip_in_network_def prefix_mask_eq [OF assms] htonl_and and_mask_eq_iff)

lemma in_network_is_prefix_match_witness:
  "ip_in_network (htonl 0xC0A80117) (htonl 0xC0A80100) (prefix_mask 24) \<and>
   \<not> ip_in_network (htonl 0xC0A80217) (htonl 0xC0A80100) (prefix_mask 24)"
  using in_network_is_prefix_match [of 24 "0xC0A80117" "0xC0A80100"]
    in_network_is_prefix_match [of 24 "0xC0A80217" "0xC0A80100"]
  by (simp add: drop_bit_eq_div)

subsection \<open>The access list\<close>

lemma acl_flags_eq:
  assumes "\<not> g_mode_mutex s" "inet_addr c \<noteq> 0"
  shows "acl_get_client_flags inet_addr (Some c) s =
    Inr (case acl_lookup (inet_addr c) (g_acl_entries s) of
           Some e \<Rightarrow> acl_flags e | None \<Rightarrow> acl_default_policy (g_mode_config s), s)"
  using assms by (cases "acl_lookup (inet_addr c) (g_acl_entries s)")
    (simp_all add: acl_get_client_flags_def parse_ip_def with_g_mode_mutex_free)

definition mode_enabled :: "u8 \<Rightarrow> ModeConfig \<Rightarrow> bool" where
  "mode_enabled m c \<longleftrightarrow>
     (m \<in> {NTP_MODE_SYMMETRIC_ACTIVE, NTP_MODE_SYMMETRIC_PASSIVE} \<longrightarrow> enable_symmetric_mode c \<noteq> 0) \<and>
     (m = NTP_MODE_BROADCAST \<longrightarrow> enable_broadcast c \<noteq> 0)"

lemma acl_check_eq:
  assumes "\<not> g_mode_mutex s" "inet_addr c \<noteq> 0"
  shows "acl_check_client inet_addr (Some c) m s =
    Inr (if mode_enabled m (g_mode_config s) then
           mode_allowed (case acl_lookup (inet_addr c) (g_acl_entries s) of
              Some e \<Rightarrow> acl_flags e | None \<Rightarrow> acl_default_policy (g_mode_config s)) m
         else 0, s)"
  using assms
  by (cases "acl_lookup (inet_addr c) (g_acl_entries s)")
    (simp_all add: acl_check_client_def parse_ip_def with_g_mode_mutex_free mode_enabled_def)

text \<open>
  After \<open>acl_add_entry\<close> has put a network with its flags into the list, a client that an
  earlier entry covers keeps that entry's flags; a client in the new network that no
  earlier entry covers gets the new flags; every other client gets the default policy.
\<close>

theorem acl_add_then_flags:
  assumes "mode_wf s" "inet_addr c \<noteq> 0"
    "parse_network inet_addr (Some network) = (net, Some m)"
    "acl_add_entry inet_addr (Some network) flags s = Inr (0, s')"
  shows "acl_get_client_flags inet_addr (Some c) s' =
    Inr (case acl_lookup (inet_addr c) (g_acl_entries s) of
           Some e \<Rightarrow> acl_flags e
         | None \<Rightarrow> if ip_in_network (inet_addr c) net m then flags
                   else acl_default_policy (g_mode_config s), s')"
proof -
  have s': "s' = s\<lparr>g_acl_entries := g_acl_entries s @
      [\<lparr>acl_ip = net, acl_mask = m, acl_flags = flags, acl_comment = None\<rparr>]\<rparr>"
    using acl_add_eq [OF mode_wf_free [OF assms(1)] assms(3), of flags] assms(4)
    by (simp split: if_splits)
  have "\<not> g_mode_mutex s'" using mode_wf_free [OF assms(1)] by (simp add: s')
  from acl_flags_eq [where inet_addr = inet_addr and c = c, OF this assms(2)] show ?thesis
    by (simp add: s' acl.lookup_snoc split: option.split)
qed

definition toy_inet :: "string \<Rightarrow> u32" where
  "toy_inet s =
     (if s = ''192.168.1.0'' then htonl 0xC0A80100
      else if s = ''192.168.1.23'' then htonl 0xC0A80117
      else if s = ''0.0.0.0'' then 0 else INADDR_NONE)"

lemma htonl_numerals:
  "htonl 0xC0A80100 = 0x0001A8C0" "htonl 0xC0A80117 = 0x1701A8C0"
  by code_simp+

lemma toy_parse: "parse_network toy_inet (Some ''192.168.1.0/24'') = (htonl 0xC0A80100, Some (prefix_mask 24))"
proof -
  have "scan_uint ''24'' = Some 24"
    by (simp add: scan_uint_def scan_number_def skip_space_def is_space_def is_digit_def
        digits_val_def digit_val_def)
  then show ?thesis
    by (simp add: parse_network_def from_char_def cut_at_def toy_inet_def Let_def htonl_numerals)
qed

lemma acl_add_then_flags_witness:
  "\<exists>s'. acl_add_entry toy_inet (Some ''192.168.1.0/24'') 0 initial_mode_state = Inr (0, s') \<and>
     acl_get_client_flags toy_inet (Some ''192.168.1.23'') s' = Inr (0, s')"
proof -
  have wf: "mode_wf initial_mode_state" by (simp add: mode_wf_def initial_mode_state_def)
  have c: "toy_inet ''192.168.1.23'' \<noteq> 0" by (simp add: toy_inet_def htonl_numerals)
  obtain s' where add: "acl_add_entry toy_inet (Some ''192.168.1.0/24'') 0 initial_mode_state = Inr (0, s')"
    using acl_add_eq [OF mode_wf_free [OF wf] toy_parse, of 0]
    by (simp add: initial_mode_state_def htonl_numerals)
  have "ip_in_network (toy_inet ''192.168.1.23'') (htonl 0xC0A80100) (prefix_mask 24)"
    by code_simp
  then have "acl_get_client_flags toy_inet (Some ''192.168.1.23'') s' = Inr (0, s')"
    using acl_add_then_flags [OF wf c toy_parse add] by (simp add: initial_mode_state_def)
  then show ?thesis using add by blast
qed

lemma initial_acl_refuses:
  "acl_check_client inet_addr (Some c) m initial_mode_state = Inr (0, initial_mode_state)"
proof (cases "inet_addr c = 0")
  case True
  then show ?thesis by (simp add: acl_check_client_def parse_ip_def)
next
  case False
  have "\<not> g_mode_mutex initial_mode_state" by (simp add: initial_mode_state_def)
  then show ?thesis
    using False by (simp add: acl_check_eq)
      (simp add: initial_mode_state_def default_mode_config_def mode_allowed_def)
qed

text \<open>
  Default deny. With the built-in configuration and an empty access list every client,
  in every mode, is refused, and the refusal changes nothing.
\<close>

theorem empty_acl_refuses_everyone:
  "acl_check_client inet_addr (Some c) m initial_mode_state = Inr (0, initial_mode_state)"
  by (rule initial_acl_refuses)

text \<open>
  The network 0.0.0.0 cannot be put into the list with any prefix length, so no entry
  can match every client: \<open>parse_network\<close> reports an error as the address 0.
\<close>

theorem acl_add_refuses_zero_network:
  assumes "mode_wf s" "length (g_acl_entries s) < 256"
    "inet_addr (cut_at (CHR ''/'') network) = 0"
  shows "acl_add_entry inet_addr (Some network) flags s = Inr (- EINVAL, s)"
proof -
  obtain net m where p: "parse_network inet_addr (Some network) = (net, m)" by fastforce
  then have "net = 0"
    using assms(3) by (auto simp: parse_network_def Let_def split: if_splits option.splits)
  then show ?thesis
    using acl_add_eq [OF mode_wf_free [OF assms(1)] p] assms(2) by simp
qed

lemma acl_add_refuses_zero_network_witness:
  "acl_add_entry toy_inet (Some ''0.0.0.0/0'') 0 initial_mode_state = Inr (- 22, initial_mode_state)"
  by (rule acl_add_refuses_zero_network)
    (simp_all add: mode_wf_def initial_mode_state_def toy_inet_def cut_at_def)

subsection \<open>The rate limit table\<close>

lemma find_ip_None_iff: "find_ip ip es = None \<longleftrightarrow> ip \<notin> rl_ip ` set es"
  by (induction es) auto

lemma find_ip_SomeD:
  "find_ip ip es = Some i \<Longrightarrow> i < length es \<and> rl_ip (es ! i) = ip \<and> (\<forall>j<i. rl_ip (es ! j) \<noteq> ip)"
proof (induction es arbitrary: i)
  case (Cons e es)
  show ?case
  proof (cases "rl_ip e = ip")
    case False
    then obtain j where j: "find_ip ip es = Some j" "i = Suc j" using Cons.prems by auto
    from Cons.IH [OF j(1)] False show ?thesis by (auto simp: j(2) less_Suc_eq_0_disj)
  qed (use Cons.prems in auto)
qed simp

text \<open>When a client was last let in, as far as the table knows.\<close>

definition last_request :: "u32 \<Rightarrow> mode_state \<Rightarrow> int option" where
  "last_request ip s = map_option rl_last_request (entry_of_ip ip (g_rate_limit_entries s))"

lemma rate_limit_update_eq:
  assumes "inet_addr c = ip" "ip \<noteq> 0"
  shows "rate_limit_update inet_addr t (Some c) s =
    (case find_ip ip (g_rate_limit_entries s) of
       Some i \<Rightarrow> s\<lparr>g_rate_limit_entries := (g_rate_limit_entries s)[i :=
                   (g_rate_limit_entries s ! i)\<lparr>rl_last_request := t,
                      rl_count := rl_count (g_rate_limit_entries s ! i) + 1\<rparr>]\<rparr>
     | None \<Rightarrow>
         let es = (if MAX_RATE_LIMIT_ENTRIES \<le> length (g_rate_limit_entries s)
                   then tl (g_rate_limit_entries s) else g_rate_limit_entries s)
         in s\<lparr>g_rate_limit_entries := es @ [\<lparr>rl_ip = ip, rl_last_request = t, rl_count = 1\<rparr>]\<rparr>)"
  using assms by (simp add: rate_limit_update_def rate_limit_insert_def rate_limit_find_def
      parse_ip_def Let_def split: option.split del: length_tl)

lemma entry_of_ip_tl:
  assumes "distinct (map rl_ip es)" "es \<noteq> []"
  shows "entry_of_ip k (tl es) = (if k = rl_ip (hd es) then None else entry_of_ip k es)"
  using assms by (cases es) (auto simp: rl.lookup_Cons rl.lookup_None_iff, metis image_eqI)

lemma rate_limit_update_laws:
  assumes "mode_wf s" "inet_addr c = ip" "ip \<noteq> 0"
    "s' = rate_limit_update inet_addr t (Some c) s"
  shows "mode_wf s' \<and>
    last_request k s' =
      (if k = ip then Some t
       else if last_request ip s = None \<and> length (g_rate_limit_entries s) = 1024 \<and>
               k = rl_ip (hd (g_rate_limit_entries s)) then None
       else last_request k s)"
proof (cases "find_ip ip (g_rate_limit_entries s)")
  case (Some i)
  let ?es = "g_rate_limit_entries s"
  note i = find_ip_SomeD [OF Some]
  have "last_request ip s \<noteq> None" using Some by (simp add: last_request_def entry_of_ip_def)
  moreover have "map rl_ip (?es[i := (?es ! i)\<lparr>rl_last_request := t, rl_count := n\<rparr>]) = map rl_ip ?es" for n
    using i by (simp add: map_update list_update_same_conv)
  moreover have "entry_of_ip k (?es[i := (?es ! i)\<lparr>rl_last_request := t, rl_count := n\<rparr>]) =
      (if k = ip then Some ((?es ! i)\<lparr>rl_last_request := t, rl_count := n\<rparr>)
       else entry_of_ip k ?es)" for n
    using i by (subst rl.lookup_replace) auto
  ultimately show ?thesis
    using assms(1) Some unfolding assms(4) rate_limit_update_eq [of inet_addr c ip t s, OF assms(2,3)]
    by (auto simp: mode_wf_def last_request_def)
next
  case None
  let ?es = "g_rate_limit_entries s"
  let ?t = "if MAX_RATE_LIMIT_ENTRIES \<le> length ?es then tl ?es else ?es"
  have ip: "ip \<notin> rl_ip ` set ?es" using None by (simp add: find_ip_None_iff)
  then have ipt: "ip \<notin> rl_ip ` set ?t" using list.set_sel(2) [of ?es] by (cases ?es) auto
  have es: "?es \<noteq> []" if "MAX_RATE_LIMIT_ENTRIES \<le> length ?es" using that by auto
  have len: "length ?t < 1024" using assms(1) by (auto simp: mode_wf_def)
  have dist: "distinct (map rl_ip ?t)"
    using assms(1) by (auto simp: mode_wf_def distinct_tl map_tl)
  have look: "entry_of_ip k ?t =
      (if MAX_RATE_LIMIT_ENTRIES \<le> length ?es \<and> k = rl_ip (hd ?es) then None else entry_of_ip k ?es)"
    using es assms(1) by (auto simp: entry_of_ip_tl mode_wf_def)
  have noip: "entry_of_ip ip ?t = None" "last_request ip s = None"
    using ip ipt by (auto simp: rl.lookup_None_iff last_request_def)
  have full: "MAX_RATE_LIMIT_ENTRIES \<le> length ?es \<longleftrightarrow> length ?es = 1024"
    using assms(1) by (auto simp: mode_wf_def)
  have eq: "s' = s\<lparr>g_rate_limit_entries := ?t @ [\<lparr>rl_ip = ip, rl_last_request = t, rl_count = 1\<rparr>]\<rparr>"
    unfolding assms(4) rate_limit_update_eq [of inet_addr c ip t s, OF assms(2,3)] using None by simp
  have "mode_wf s'"
    using assms(1) len dist ipt by (auto simp: eq mode_wf_def)
  moreover have "last_request k s' = (if k = ip then Some t else map_option rl_last_request (entry_of_ip k ?t))"
    using noip(1) by (auto simp: eq last_request_def rl.lookup_snoc)
  ultimately show ?thesis
    using noip look full by (auto simp: last_request_def)
qed


text \<open>
  \<open>rate_limit_update\<close> keeps the table within its 1024 entries, one per address, and is
  an insertion: the client's time is now \<open>t\<close>; any other client's is what it was, except
  that a new client in a full table drives out the entry at the front.
\<close>

theorem rate_limit_update_inserts:
  assumes "mode_wf s" "inet_addr c = ip" "ip \<noteq> 0"
    "s' = rate_limit_update inet_addr t (Some c) s"
  shows "mode_wf s' \<and>
    last_request k s' =
      (if k = ip then Some t
       else if last_request ip s = None \<and> length (g_rate_limit_entries s) = 1024 \<and>
               k = rl_ip (hd (g_rate_limit_entries s)) then None
       else last_request k s)"
  by (rule rate_limit_update_laws [OF assms])

lemma rate_limit_update_inserts_witness:
  "last_request 5 (rate_limit_update (\<lambda>_. 5) 100 (Some ''c'') initial_mode_state) = Some 100"
  using rate_limit_update_inserts [of initial_mode_state "\<lambda>_. 5" "''c''" 5 _ 100 5]
  by (simp add: mode_wf_def initial_mode_state_def)

text \<open>
  A client whose request was recorded at time \<open>t\<close> is over the limit at time \<open>t'\<close>
  exactly when less than the configured interval has passed; the check changes nothing.
\<close>

theorem rate_limit_check_after_update:
  assumes "mode_wf s" "inet_addr c \<noteq> 0" "in_i64 (t' - t)"
    "s' = rate_limit_update inet_addr t (Some c) s"
  shows "rate_limit_check inet_addr t' (Some c) s' =
    Inr (if t' - t < uint (rate_limit_interval (g_mode_config s)) then 1 else 0, s')"
proof -
  let ?ip = "inet_addr c" and ?es = "g_rate_limit_entries s'"
  have same: "\<not> g_mode_mutex s'" "g_mode_config s' = g_mode_config s"
    using mode_wf_free [OF assms(1)] unfolding assms(4)
    by (simp_all add: rate_limit_update_eq [of inet_addr c ?ip t s, OF refl assms(2)] Let_def
        split: option.split)
  have "last_request ?ip s' = Some t"
    using rate_limit_update_laws [OF assms(1) refl assms(2,4), of ?ip] by simp
  then obtain i where i: "find_ip ?ip ?es = Some i" "rl_last_request (?es ! i) = t"
    by (auto simp: last_request_def entry_of_ip_def)
  then show ?thesis
    using same assms(2,3)
    by (simp add: rate_limit_check_def with_g_mode_mutex_free rate_limit_find_def parse_ip_def)
qed


lemma rate_limit_check_after_update_witness:
  "\<exists>s'. rate_limit_check (\<lambda>_. 5) 101 (Some ''c'') s' = Inr (1, s') \<and>
        rate_limit_check (\<lambda>_. 5) 102 (Some ''c'') s' = Inr (0, s')"
  using rate_limit_check_after_update [of initial_mode_state "\<lambda>_. 5" "''c''" 101 100]
    rate_limit_check_after_update [of initial_mode_state "\<lambda>_. 5" "''c''" 102 100]
  by (auto simp: mode_wf_def initial_mode_state_def default_mode_config_def in_i64_def)

subsection \<open>The panic threshold\<close>

lemma panic_eq:
  assumes "\<not> g_mode_mutex s" "in_i64 off"
  shows "check_panic_condition off s =
    (if off = - (2 ^ 63) then Inl Undefined
     else Inr (if \<bar>off\<bar> > uint (panic_threshold (g_mode_config s)) * 10 ^ 9 then 1 else 0, s))"
proof -
  have t: "0 \<le> uint (panic_threshold (g_mode_config s))" by simp
  show ?thesis
    using assms t unfolding check_panic_condition_def
    by (auto simp: with_g_mode_mutex_free i64_def in_i64_iff)
qed

text \<open>
  With the mutex free the panic check accepts every offset up to a thousand million
  times the configured threshold, in whatever unit the offset is. The callers pass
  microseconds, so the built-in threshold of 1000 refuses only offsets above
  \<open>10^12\<close> microseconds, eleven days, and the threshold counts units of 1000 seconds.
\<close>

theorem panic_threshold_exact:
  assumes "\<not> g_mode_mutex s" "in_i64 off"
  shows "check_panic_condition off s =
    (if off = - (2 ^ 63) then Inl Undefined
     else Inr (if \<bar>off\<bar> > uint (panic_threshold (g_mode_config s)) * 10 ^ 9 then 1 else 0, s))"
  by (rule panic_eq [OF assms])

lemma panic_threshold_exact_witness:
  "check_panic_condition (10 ^ 12) initial_mode_state = Inr (0, initial_mode_state)"
  using panic_threshold_exact [of initial_mode_state "10 ^ 12"]
  by (simp add: in_i64_def initial_mode_state_def default_mode_config_def)

subsection \<open>Authentication fields\<close>

text \<open>
  The fields of a packet after its header as an inductive relation: \<open>auth_at data sz pos\<close>
  says that a walk over well-formed fields from \<open>pos\<close> reaches a MAC field.
\<close>

definition be16 :: "u8 list \<Rightarrow> nat \<Rightarrow> nat" where
  "be16 data i = unat (data ! i) * 256 + unat (data ! (i + 1))"

inductive auth_at :: "u8 list \<Rightarrow> nat \<Rightarrow> nat \<Rightarrow> bool" for data :: "u8 list" and sz :: nat where
  mac: "\<lbrakk>be16 data pos = 3; 4 \<le> be16 data (pos + 2); pos + be16 data (pos + 2) \<le> sz\<rbrakk>
    \<Longrightarrow> auth_at data sz pos"
| step: "\<lbrakk>be16 data pos \<notin> {3, 8}; 4 \<le> be16 data (pos + 2); pos + be16 data (pos + 2) \<le> sz;
      auth_at data sz (pos + (be16 data (pos + 2) + 3) div 4 * 4)\<rbrakk> \<Longrightarrow> auth_at data sz pos"

inductive_cases auth_atE: "auth_at data sz pos"

lemma auth_field_eq:
  "pos + 4 \<le> length data \<Longrightarrow> auth_field data pos = Inr (be16 data pos, be16 data (pos + 2))"
  by (simp add: auth_field_def be16_def add.assoc numeral_eq_Suc)

lemma auth_loop_eq:
  assumes "sz \<le> length data" "\<not> g_mode_mutex s"
  shows "auth_loop data sz pos s =
    Inr (if auth_at data sz pos
         then if enable_ntp_auth (g_mode_config s) = 0 then - ENOTSUP else 1 else 0, s)"
  using assms
proof (induction data sz pos s rule: auth_loop.induct)
  case (1 data sz pos s)
  show ?case
  proof (cases "pos + 4 \<le> sz \<and> 4 \<le> be16 data (pos + 2) \<and> pos + be16 data (pos + 2) \<le> sz")
    case False
    then have "\<not> auth_at data sz pos" by (auto elim: auth_atE)
    then show ?thesis
      using False "1.prems" by (subst auth_loop.simps) (auto simp: auth_field_eq)
  next
    case True
    then have f: "auth_field data pos = Inr (be16 data pos, be16 data (pos + 2))"
      using "1.prems" by (simp add: auth_field_eq)
    consider "be16 data pos = 3" | "be16 data pos = 8" | "be16 data pos \<notin> {3, 8}" by blast
    then show ?thesis
    proof cases
      case a: 1
      then have "auth_at data sz pos" using True by (auto intro: auth_at.mac)
      then show ?thesis
        using a True "1.prems" f by (subst auth_loop.simps) (simp add: with_g_mode_mutex_free)
    next
      case b: 2
      then have "\<not> auth_at data sz pos" by (auto elim: auth_atE)
      then show ?thesis using b True f by (subst auth_loop.simps) simp
    next
      case c: 3
      then have "auth_at data sz pos \<longleftrightarrow> auth_at data sz (pos + (be16 data (pos + 2) + 3) div 4 * 4)"
        using True by (auto elim: auth_atE intro: auth_at.step)
      moreover have "auth_loop data sz pos s =
          auth_loop data sz (pos + (be16 data (pos + 2) + 3) div 4 * 4) s"
        using c True f by (subst auth_loop.simps) simp
      ultimately show ?thesis
        using "1.IH" [OF _ f refl] c True "1.prems" by simp
    qed
  qed
qed

text \<open>
  C19: for a buffer that holds as many bytes as claimed the check always returns and stays
  inside it. It answers 0 unless a walk over well-formed fields that no field of type 8
  ends reaches a MAC field; then it answers 1, or \<open>-ENOTSUP\<close> when authentication is off.
\<close>

theorem packet_authentication_exact:
  assumes "sz \<le> length data" "\<not> g_mode_mutex s"
  shows "validate_packet_authentication (Some data) sz s =
    Inr (if 48 < sz \<and> auth_at data sz 48
         then if enable_ntp_auth (g_mode_config s) = 0 then - 95 else 1 else 0, s)"
  using assms by (simp add: validate_packet_authentication_def auth_loop_eq)

lemma packet_authentication_exact_witness:
  "validate_packet_authentication (Some (replicate 48 0 @ [0, 3, 0, 4])) 52 initial_mode_state =
     Inr (- 95, initial_mode_state)"
proof -
  have "auth_at (replicate 48 0 @ [0, 3, 0, 4]) 52 48"
    by (rule auth_at.mac) (simp_all add: be16_def nth_append)
  then show ?thesis
    using packet_authentication_exact [of 52 "replicate 48 0 @ [0, 3, 0, 4]" initial_mode_state]
    by (simp add: initial_mode_state_def default_mode_config_def)
qed

end
