(* ===== verification/ModeConfigFile.thy ===== *)
theory ModeConfigFile
  imports ModeHandler
begin

section \<open>The mode configuration file (mode_handler.c)\<close>

text \<open>
  The parser behind \<open>mode_handler_parse_config\<close>: value parsers, one line, the whole file.
  A file is its contents, \<open>None\<close> when it cannot be opened. \<open>strtod\<close> is a parameter
  (value, range error, rest at \<open>endptr\<close>), since its result depends on the format of a
  \<open>double\<close>; so is the rounding to \<open>float\<close>.
\<close>

subsection \<open>Values\<close>

definition parse_bool :: "string option \<Rightarrow> int" where
  "parse_bool v =
     (case v of
        None \<Rightarrow> - EINVAL
      | Some s \<Rightarrow>
          if s = ''1'' \<or> s = ''yes'' \<or> s = ''true'' \<or> s = ''on'' then 1
          else if s = ''0'' \<or> s = ''no'' \<or> s = ''false'' \<or> s = ''off'' then 0
          else - EINVAL)"

text \<open>The parsers with an output pointer: \<open>Inl\<close> the error code, \<open>Inr\<close> the value stored.\<close>

definition parse_uint8 :: "string option \<Rightarrow> int + u8" where
  "parse_uint8 v =
     (case v of
        None \<Rightarrow> Inl (- EINVAL)
      | Some s \<Rightarrow>
          (let (result, range_error, rest) = strtoll s
           in if range_error \<or> rest \<noteq> [] \<or> result < 0 \<or> 255 < result then Inl (- EINVAL)
              else Inr (word_of_int result)))"

definition fval_neg :: "fval \<Rightarrow> bool" where
  "fval_neg x = (case x of Finite r \<Rightarrow> r < 0 | NegInf \<Rightarrow> True | _ \<Rightarrow> False)"

definition fval_round :: "(rat \<Rightarrow> rat) \<Rightarrow> fval \<Rightarrow> fval" where
  "fval_round f x = (case x of Finite r \<Rightarrow> Finite (f r) | _ \<Rightarrow> x)"

definition parse_float ::
    "fpu \<Rightarrow> (string \<Rightarrow> fval \<times> bool \<times> string) \<Rightarrow> string option \<Rightarrow> int + fval" where
  "parse_float F strtod v =
     (case v of
        None \<Rightarrow> Inl (- EINVAL)
      | Some s \<Rightarrow>
          (let (result, range_error, rest) = strtod s
           in if range_error \<or> rest \<noteq> [] \<or> fval_neg result then Inl (- EINVAL)
              else Inr (fval_round (rndf F) result)))"

definition policy_flag :: "string \<Rightarrow> u8" where
  "policy_flag p =
     (if strn_eq 7 p ''noquery'' then ACL_FLAG_NOQUERY
      else if strn_eq 6 p ''noserve'' then ACL_FLAG_NOSERVE
      else if strn_eq 7 p ''limited'' then ACL_FLAG_LIMITED
      else if strn_eq 5 p ''nopeer'' then ACL_FLAG_NOPEER
      else if strn_eq 6 p ''notrust'' then ACL_FLAG_NOTRUST
      else 0)"

function policy_flags :: "string \<Rightarrow> u8 \<Rightarrow> u8" where
  "policy_flags p flags =
     (if p = [] then flags
      else (let flags' = flags OR policy_flag p; p' = from_char (CHR '','') p
            in if p' = [] then flags' else policy_flags (tl p') flags'))"
  by pat_completeness auto
termination
proof (relation "measure (\<lambda>(p, flags). length p)", goal_cases)
  case (2 p flags x xa)
  then have "xa \<noteq> []" "length xa \<le> length p" by (auto simp: from_char_def length_dropWhile_le)
  then show ?case by (cases xa) auto
qed simp

declare policy_flags.simps [simp del]

subsection \<open>Lines\<close>

abbreviation upd_config :: "(ModeConfig \<Rightarrow> ModeConfig) \<Rightarrow> mode_state \<Rightarrow> mode_state" where
  "upd_config f s \<equiv> s\<lparr>g_mode_config := f (g_mode_config s)\<rparr>"

definition set_bool :: "string \<Rightarrow> (u8 \<Rightarrow> ModeConfig \<Rightarrow> ModeConfig) \<Rightarrow> mode_state \<Rightarrow> mode_state" where
  "set_bool v f s = (let b = parse_bool (Some v) in if 0 \<le> b then upd_config (f (word_of_int b)) s else s)"

definition set_panic :: "string \<Rightarrow> mode_state \<Rightarrow> mode_state" where
  "set_panic v s =
     (let (t, range_error, rest) = strtoll v
      in if \<not> range_error \<and> rest = [] \<and> 0 < t \<and> t \<le> 65535
         then upd_config (\<lambda>c. c\<lparr>panic_threshold := word_of_int t\<rparr>) s else s)"

definition config_entry ::
    "fpu \<Rightarrow> (string \<Rightarrow> fval \<times> bool \<times> string) \<Rightarrow> (string \<Rightarrow> u32) \<Rightarrow> string \<Rightarrow> string \<Rightarrow>
     mode_state \<Rightarrow> mode_state run" where
  "config_entry F strtod inet_addr key v s =
     (if key = ''enable_control_messages'' then
        Inr (set_bool v (\<lambda>b c. c\<lparr>enable_control_messages := b\<rparr>) s)
      else if key = ''enable_symmetric_mode'' then
        Inr (set_bool v (\<lambda>b c. c\<lparr>enable_symmetric_mode := b\<rparr>) s)
      else if key = ''enable_broadcast'' then
        Inr (set_bool v (\<lambda>b c. c\<lparr>enable_broadcast := b\<rparr>) s)
      else if key = ''drop_unauthenticated_control'' then
        Inr (set_bool v (\<lambda>b c. c\<lparr>drop_unauthenticated_control := b\<rparr>) s)
      else if key = ''enable_ntp_auth'' then
        Inr (set_bool v (\<lambda>b c. c\<lparr>enable_ntp_auth := b\<rparr>) s)
      else if key = ''acl_default_policy'' then
        Inr (upd_config (\<lambda>c. c\<lparr>acl_default_policy := policy_flags v 0\<rparr>) s)
      else if key = ''rate_limit_interval'' then
        Inr (case parse_uint8 (Some v) of
               Inr n \<Rightarrow> upd_config (\<lambda>c. c\<lparr>rate_limit_interval := n\<rparr>) s | Inl _ \<Rightarrow> s)
      else if key = ''max_response_ratio'' then
        Inr (case parse_float F strtod (Some v) of
               Inr r \<Rightarrow> upd_config (\<lambda>c. c\<lparr>max_response_ratio := r\<rparr>) s | Inl _ \<Rightarrow> s)
      else if key = ''initial_stratum'' then
        Inr (case parse_uint8 (Some v) of
               Inr n \<Rightarrow> upd_config (\<lambda>c. c\<lparr>initial_stratum := n\<rparr>) s | Inl _ \<Rightarrow> s)
      else if key = ''panic_threshold'' then Inr (set_panic v s)
      else if key = ''acl_allow'' then
        bindR (acl_add_entry inet_addr (Some v) 0 s) (\<lambda>(_, s). Inr s)
      else if key = ''acl_remove'' then
        bindR (acl_remove_entry inet_addr (Some v) s) (\<lambda>(_, s). Inr s)
      else Inr s)"

definition config_line ::
    "fpu \<Rightarrow> (string \<Rightarrow> fval \<times> bool \<times> string) \<Rightarrow> (string \<Rightarrow> u32) \<Rightarrow> string \<Rightarrow>
     mode_state \<Rightarrow> mode_state run" where
  "config_line F strtod inet_addr line s =
     (let (key, rest) = scan_word 63 (cut_at (CHR ''#'') line);
          (v, _) = scan_word 127 rest
      in if key = [] \<or> v = [] then Inr s else config_entry F strtod inet_addr key v s)"

fun config_lines ::
    "fpu \<Rightarrow> (string \<Rightarrow> fval \<times> bool \<times> string) \<Rightarrow> (string \<Rightarrow> u32) \<Rightarrow> string list \<Rightarrow>
     mode_state \<Rightarrow> mode_state run" where
  "config_lines F strtod inet_addr [] s = Inr s"
| "config_lines F strtod inet_addr (l # ls) s =
     bindR (config_line F strtod inet_addr l s) (config_lines F strtod inet_addr ls)"

definition mode_handler_parse_config ::
    "fpu \<Rightarrow> (string \<Rightarrow> fval \<times> bool \<times> string) \<Rightarrow> (string \<Rightarrow> u32) \<Rightarrow> (string \<Rightarrow> string option) \<Rightarrow>
     string option \<Rightarrow> mode_state \<Rightarrow> (int \<times> mode_state) run" where
  "mode_handler_parse_config F strtod inet_addr files config_file s =
     (case config_file of
        None \<Rightarrow> Inr (- EINVAL, s)
      | Some name \<Rightarrow>
          (case files name of
             None \<Rightarrow> Inr (0, s)
           | Some contents \<Rightarrow>
               bindR (config_lines F strtod inet_addr (fgets_lines 255 contents) s)
                 (\<lambda>s. Inr (0, s))))"

subsection \<open>Every file is accepted\<close>

lemma upd_config_wf [simp]: "mode_wf (s\<lparr>g_mode_config := c\<rparr>) \<longleftrightarrow> mode_wf s"
  by (simp add: mode_wf_def)

definition ends_wf :: "mode_state run \<Rightarrow> bool" where
  "ends_wf r \<longleftrightarrow> (\<exists>s'. r = Inr s' \<and> mode_wf s')"

lemma ends_wf_if: "ends_wf a \<Longrightarrow> ends_wf b \<Longrightarrow> ends_wf (if c then a else b)"
  by simp

lemma ends_wf_Inr: "mode_wf s \<Longrightarrow> ends_wf (Inr s)"
  by (simp add: ends_wf_def)

lemma config_entry_wf:
  assumes wf: "mode_wf s"
  shows "ends_wf (config_entry F strtod inet_addr key v s)"
proof -
  have "ends_wf (bindR (acl_add_entry inet_addr (Some v) 0 s) (\<lambda>(_, s). Inr s))"
    by (rule acl_add_wf [OF assms, of inet_addr v 0]) (simp add: ends_wf_def)
  moreover have "ends_wf (bindR (acl_remove_entry inet_addr (Some v) s) (\<lambda>(_, s). Inr s))"
    by (rule acl_remove_wf [OF assms, of inet_addr v]) (simp add: ends_wf_def)
  moreover have "mode_wf (set_bool v f s)" for f
    using assms by (simp add: set_bool_def Let_def)
  moreover have "mode_wf (set_panic v s)"
    using assms by (simp add: set_panic_def split: prod.split)
  ultimately show ?thesis
    unfolding config_entry_def
    by (intro ends_wf_if ends_wf_Inr) (simp_all add: wf split: sum.split)
qed

lemma config_lines_wf:
  "mode_wf s \<Longrightarrow> \<exists>s'. config_lines F strtod inet_addr ls s = Inr s' \<and> mode_wf s'"
proof (induction ls arbitrary: s)
  case (Cons l ls)
  obtain s1 where "config_line F strtod inet_addr l s = Inr s1" "mode_wf s1"
    unfolding config_line_def split_def Let_def
    using config_entry_wf [OF Cons.prems, of F strtod inet_addr] Cons.prems
    by (metis ends_wf_def)
  then show ?case using Cons.IH by simp
qed simp

text \<open>
  C36: whatever a configuration file contains, and whatever \<open>inet_addr\<close> and \<open>strtod\<close>
  make of it, the parser returns 0 and leaves tables within their bounds and the mutex
  free; no line is ever an error. A missing file changes nothing.
\<close>

theorem parse_config_accepts_every_file:
  assumes "mode_wf s"
  shows "\<exists>s'. mode_handler_parse_config F strtod inet_addr files (Some name) s = Inr (0, s') \<and>
           mode_wf s' \<and> (files name = None \<longrightarrow> s' = s)"
proof (cases "files name")
  case None
  then show ?thesis using assms by (simp add: mode_handler_parse_config_def)
next
  case (Some contents)
  then show ?thesis
    using config_lines_wf [OF assms, of F strtod inet_addr "fgets_lines 255 contents"]
    by (auto simp: mode_handler_parse_config_def)
qed

lemma parse_config_accepts_every_file_witness:
  "\<exists>s'. mode_handler_parse_config exact_fpu (\<lambda>s. (NaN, False, [])) (\<lambda>_. 0)
          (\<lambda>_. Some ''garbage in 1'') (Some ''modes.conf'') initial_mode_state = Inr (0, s') \<and>
        mode_wf s'"
  using parse_config_accepts_every_file [of initial_mode_state exact_fpu "\<lambda>s. (NaN, False, [])" "\<lambda>_. 0"
      "\<lambda>_. Some ''garbage in 1''" "''modes.conf''"]
  by (auto simp: mode_wf_def initial_mode_state_def)

subsection \<open>A number is read back\<close>

lemma scan_word_prefix:
  assumes "w \<noteq> []" "\<forall>c\<in>set w. \<not> is_space c" "is_space b" "length w \<le> n"
  shows "scan_word n (w @ b # rest) = (w, b # rest)"
proof -
  obtain c cs where w: "w = c # cs" using assms(1) by (cases w) auto
  have "skip_space (w @ b # rest) = w @ b # rest" using assms(2) by (simp add: skip_space_def w)
  moreover have "takeWhile (\<lambda>c. \<not> is_space c) (w @ b # rest) = w"
    using assms(2,3) by (simp add: takeWhile_append)
  ultimately show ?thesis using assms(4) by (simp add: scan_word_def)
qed

lemma digits_plain:
  assumes "\<forall>c\<in>set ds. is_digit c"
  shows "\<forall>c\<in>set ds. \<not> is_space c" "\<forall>c\<in>set ds. c \<noteq> CHR ''#''"
  using assms by (auto simp: is_digit_def is_space_def)

text \<open>
  A line \<open>panic_threshold n\<close> with a decimal numeral sets the threshold to \<open>n\<close> when
  \<open>n\<close> is between 1 and 65535, and leaves the state alone otherwise.
\<close>

theorem panic_threshold_line:
  assumes "ds \<noteq> []" "\<forall>c\<in>set ds. is_digit c" "length ds \<le> 18"
  shows "config_line F strtod inet_addr (''panic_threshold '' @ ds @ [CHR 0x0A]) s =
    Inr (if 0 < digits_val ds \<and> digits_val ds \<le> 65535
         then s\<lparr>g_mode_config := (g_mode_config s)\<lparr>panic_threshold := of_nat (digits_val ds)\<rparr>\<rparr>
         else s)"
proof -
  have bound: "digits_val xs < 10 ^ length xs" if "\<forall>c\<in>set xs. is_digit c" for xs
    using that
  proof (induction xs rule: rev_induct)
    case (snoc x xs)
    have "digit_val x \<le> 9" using snoc.prems by (simp add: digit_val_def is_digit_def le_diff_conv)
    moreover have "digits_val (xs @ [x]) = 10 * digits_val xs + digit_val x"
      by (simp add: digits_val_def)
    ultimately show ?case using snoc by auto
  qed (simp add: digits_val_def)
  have "digits_val ds < 10 ^ 18"
    using bound [OF assms(2)] power_increasing [OF assms(3), of "10 :: nat"] by simp
  then have n: "strtoll ds = (int (digits_val ds), False, [])"
    using assms by (intro strtoll_digits) auto
  have cut: "cut_at (CHR ''#'') (''panic_threshold '' @ ds @ [CHR 0x0A]) = ''panic_threshold '' @ ds @ [CHR 0x0A]"
    using digits_plain(2) [OF assms(2)] by (simp add: cut_at_def takeWhile_eq_all_conv)
  have w1: "scan_word 63 (''panic_threshold'' @ CHR '' '' # ds @ [CHR 0x0A]) =
      (''panic_threshold'', CHR '' '' # ds @ [CHR 0x0A])"
    by (rule scan_word_prefix) (auto simp: is_space_def)
  have "scan_word 127 (CHR '' '' # ds @ [CHR 0x0A]) = scan_word 127 (ds @ [CHR 0x0A])"
    by (simp add: scan_word_def skip_space_def is_space_def)
  also have "\<dots> = (ds, [CHR 0x0A])"
    using assms digits_plain(1) [OF assms(2)] by (intro scan_word_prefix) (auto simp: is_space_def)
  finally have "config_line F strtod inet_addr (''panic_threshold '' @ ds @ [CHR 0x0A]) s =
      config_entry F strtod inet_addr ''panic_threshold'' ds s"
    unfolding config_line_def cut using w1 assms(1) by simp
  then show ?thesis by (simp add: config_entry_def set_panic_def n)
qed

lemma panic_threshold_line_witness:
  "config_line exact_fpu (\<lambda>s. (NaN, False, [])) (\<lambda>_. 0) (''panic_threshold '' @ ''100'' @ [CHR 0x0A])
     initial_mode_state =
   Inr (initial_mode_state\<lparr>g_mode_config := default_mode_config\<lparr>panic_threshold := 100\<rparr>\<rparr>)"
  using panic_threshold_line [of "''100''" exact_fpu "\<lambda>s. (NaN, False, [])" "\<lambda>_. 0" initial_mode_state]
  by (simp add: is_digit_def digits_val_def digit_val_def initial_mode_state_def)

end
