(* ===== verification/Cli.thy ===== *)
theory Cli
  imports CString
begin

section \<open>Command line (config.c)\<close>

text \<open>
  \<open>parse_arguments\<close> over the arguments after the program name. The result is the
  return code (0, 2 after the help text, 3 after the version, -1 on an error) and the
  configuration, which keeps what was set before an error. One branch points behind its
  argument: \<open>--user=\<close> is compared on 8 characters, which its 7 and the NUL are, and
  the user name then starts behind the NUL (\<open>PastEnd\<close>), where nothing may be read. \<open>nport\<close> and \<open>npton\<close> are the
  byte swap of a 16-bit number and its decimal text.
\<close>

datatype user_name = NoUser | UserName string | PastEnd

record CliConfig =
  config_file :: "string option"
  pid_file :: "string option"
  log_file :: "string option"
  run_user :: user_name
  iface :: "string option"
  foreground :: int
  debug_level :: int
  no_daemonize :: int
  timeout_sec :: int
  quit_after_sync :: int
  family_preference :: int
  broadcast_mode :: int
  broadcast_addr :: "string option"
  broadcast_interval :: int

abbreviation RET_HELP :: int where "RET_HELP \<equiv> 2"
abbreviation RET_VERSION :: int where "RET_VERSION \<equiv> 3"
abbreviation MAX_DEBUG_LEVEL :: int where "MAX_DEBUG_LEVEL \<equiv> 3"
abbreviation MIN_TIMEOUT_SEC :: int where "MIN_TIMEOUT_SEC \<equiv> 1"
abbreviation MAX_TIMEOUT_SEC :: int where "MAX_TIMEOUT_SEC \<equiv> 86400"
abbreviation INET_ADDRSTRLEN :: nat where "INET_ADDRSTRLEN \<equiv> 16"
abbreviation SYNC_INTERVAL_SECONDS :: int where "SYNC_INTERVAL_SECONDS \<equiv> 30"

definition default_cli :: CliConfig where
  "default_cli =
     \<lparr>config_file = Some ''/etc/dntpd/dntpd.conf'', pid_file = Some ''/var/run/dntpd.pid'',
      log_file = None, run_user = NoUser, iface = None, foreground = 0, debug_level = 0,
      no_daemonize = 0, timeout_sec = SYNC_INTERVAL_SECONDS, quit_after_sync = 0,
      family_preference = 0, broadcast_mode = 0, broadcast_addr = None, broadcast_interval = 64\<rparr>"

definition htons :: "u16 \<Rightarrow> u16" where
  "htons x = push_bit 8 x OR drop_bit 8 x"

definition nport :: "u16 \<Rightarrow> u16" where
  "nport port = htons port"

function decimal :: "nat \<Rightarrow> string" where
  "decimal n = (if n < 10 then [char_of (48 + n)] else decimal (n div 10) @ [char_of (48 + n mod 10)])"
  by pat_completeness auto
termination by (relation "measure (\<lambda>n. n)") auto

declare decimal.simps [simp del]

lemma digits_val_snoc: "digits_val (xs @ [x]) = 10 * digits_val xs + digit_val x"
  by (simp add: digits_val_def)

lemma digits_val_append: "digits_val (xs @ ys) = digits_val xs * 10 ^ length ys + digits_val ys"
proof (induction ys rule: rev_induct)
  case (snoc y ys)
  then show ?case using digits_val_snoc [of "xs @ ys" y] digits_val_snoc [of ys y] by simp
qed (simp add: digits_val_def)

lemma digit_char:
  assumes "n < 10"
  shows "is_digit (char_of (48 + n))" "digit_val (char_of (48 + n)) = n"
  using assms by (simp_all add: is_digit_def digit_val_def)

lemma decimal_digits: "decimal n \<noteq> [] \<and> (\<forall>c\<in>set (decimal n). is_digit c) \<and> digits_val (decimal n) = n"
proof (induction n rule: decimal.induct)
  case (1 n)
  show ?case
  proof (cases "n < 10")
    case True
    then show ?thesis using digit_char [OF True] by (simp add: decimal.simps [of n] digits_val_def)
  next
    case False
    have m: "n mod 10 < 10" by simp
    show ?thesis
      using 1 [OF False] digit_char [OF m] False
      by (simp add: decimal.simps [of n] digits_val_append) (simp add: digits_val_def)
  qed
qed

lemma decimal_length: "n < 10 ^ Suc k \<Longrightarrow> length (decimal n) \<le> Suc k"
proof (induction n arbitrary: k rule: decimal.induct)
  case (1 n)
  show ?case
  proof (cases "n < 10")
    case False
    with 1 obtain j where k: "k = Suc j" by (cases k) auto
    have "n div 10 < 10 ^ Suc j" using "1.prems" by (simp add: k)
    then show ?thesis using "1.IH" [OF False, of j] False by (simp add: decimal.simps [of n] k)
  qed (simp add: decimal.simps [of n])
qed

text \<open>Result: the number of characters the text has, and the buffer's text.\<close>

definition npton :: "u16 \<Rightarrow> bool \<Rightarrow> nat \<Rightarrow> int \<times> string option" where
  "npton port buf_is_null buf_size =
     (if buf_size = 0 \<or> buf_is_null then (- 1, None)
      else (let t = decimal (unat (htons port)) in (int (length t), Some (take (buf_size - 1) t))))"

definition parse_positive_int :: "string option \<Rightarrow> int \<Rightarrow> int \<Rightarrow> int option" where
  "parse_positive_int str min_val max_val =
     (case str of
        None \<Rightarrow> None
      | Some s \<Rightarrow>
          if s = [] then None
          else (let (val, range_error, rest) = strtoll s
                in if rest = s \<or> range_error then None
                   else if val < min_val \<or> max_val < val then None
                   else Some val))"

text \<open>The value of an option in the next argument: it must not start with a dash.\<close>

definition opt_value :: "string list \<Rightarrow> (string \<times> string list) option" where
  "opt_value rest =
     (case rest of [] \<Rightarrow> None
      | v # vs \<Rightarrow> if v \<noteq> [] \<and> hd v = CHR ''-'' then None else Some (v, vs))"

definition starts :: "string \<Rightarrow> string \<Rightarrow> bool" where
  "starts arg p \<longleftrightarrow> strn_eq (length p) arg p"

datatype arg_step =
    ArgReturn int CliConfig
  | ArgNext "string list" CliConfig

definition string_opt ::
    "string list \<Rightarrow> (string option \<Rightarrow> CliConfig \<Rightarrow> CliConfig) \<Rightarrow> CliConfig \<Rightarrow> arg_step" where
  "string_opt rest upd cli =
     (case opt_value rest of
        Some (v, vs) \<Rightarrow> ArgNext vs (upd (Some v) cli)
      | None \<Rightarrow> ArgReturn (- 1) cli)"

definition int_opt ::
    "string \<Rightarrow> int \<Rightarrow> int \<Rightarrow> string list \<Rightarrow> (int \<Rightarrow> CliConfig \<Rightarrow> CliConfig) \<Rightarrow> CliConfig \<Rightarrow> arg_step" where
  "int_opt v lo hi rest upd cli =
     (case parse_positive_int (Some v) lo hi of
        Some n \<Rightarrow> ArgNext rest (upd n cli)
      | None \<Rightarrow> ArgReturn (- 1) cli)"

definition parse_arg :: "string \<Rightarrow> string list \<Rightarrow> CliConfig \<Rightarrow> arg_step" where
  "parse_arg arg rest cli =
     (if arg = ''-h'' \<or> arg = ''--help'' then ArgReturn RET_HELP cli
      else if arg = ''-v'' \<or> arg = ''--version'' \<or> arg = ''-V'' \<or> arg = ''--verbose'' then
        ArgReturn RET_VERSION cli
      else if arg = ''-c'' \<or> arg = ''--config'' then string_opt rest (\<lambda>v c. c\<lparr>config_file := v\<rparr>) cli
      else if starts arg ''--config='' then ArgNext rest (cli\<lparr>config_file := Some (drop 9 arg)\<rparr>)
      else if arg = ''-f'' \<or> arg = ''--foreground'' then ArgNext rest (cli\<lparr>foreground := 1\<rparr>)
      else if arg = ''-n'' \<or> arg = ''--no-daemonize'' then ArgNext rest (cli\<lparr>no_daemonize := 1\<rparr>)
      else if arg = ''-D'' then
        (case opt_value rest of
           Some (v, vs) \<Rightarrow> int_opt v 0 MAX_DEBUG_LEVEL vs (\<lambda>n c. c\<lparr>debug_level := n\<rparr>) cli
         | None \<Rightarrow> ArgNext rest (cli\<lparr>debug_level := 1\<rparr>))
      else if starts arg ''-D='' then
        int_opt (drop 3 arg) 0 MAX_DEBUG_LEVEL rest (\<lambda>n c. c\<lparr>debug_level := n\<rparr>) cli
      else if starts arg ''--debug='' then
        int_opt (drop 8 arg) 0 MAX_DEBUG_LEVEL rest (\<lambda>n c. c\<lparr>debug_level := n\<rparr>) cli
      else if arg = ''-d'' \<or> arg = ''--debug'' then ArgNext rest (cli\<lparr>debug_level := 1\<rparr>)
      else if arg = ''-l'' \<or> arg = ''--log'' then string_opt rest (\<lambda>v c. c\<lparr>log_file := v\<rparr>) cli
      else if starts arg ''--log='' then ArgNext rest (cli\<lparr>log_file := Some (drop 6 arg)\<rparr>)
      else if arg = ''-t'' \<or> arg = ''--timeout'' then
        (case opt_value rest of
           Some (v, vs) \<Rightarrow>
             int_opt v MIN_TIMEOUT_SEC MAX_TIMEOUT_SEC vs (\<lambda>n c. c\<lparr>timeout_sec := n\<rparr>) cli
         | None \<Rightarrow> ArgReturn (- 1) cli)
      else if starts arg ''--timeout='' then
        int_opt (drop 10 arg) MIN_TIMEOUT_SEC MAX_TIMEOUT_SEC rest (\<lambda>n c. c\<lparr>timeout_sec := n\<rparr>) cli
      else if arg = ''-I'' \<or> arg = ''--interface'' then string_opt rest (\<lambda>v c. c\<lparr>iface := v\<rparr>) cli
      else if starts arg ''--interface='' then ArgNext rest (cli\<lparr>iface := Some (drop 12 arg)\<rparr>)
      else if arg = ''-u'' \<or> arg = ''--user'' then string_opt rest (\<lambda>v c. c\<lparr>run_user := UserName (the v)\<rparr>) cli
      else if strn_eq 8 arg ''--user='' then ArgNext rest (cli\<lparr>run_user := PastEnd\<rparr>)
      else if arg = ''-p'' \<or> arg = ''--pid'' then string_opt rest (\<lambda>v c. c\<lparr>pid_file := v\<rparr>) cli
      else if starts arg ''--pid='' then ArgNext rest (cli\<lparr>pid_file := Some (drop 6 arg)\<rparr>)
      else if arg = ''-4'' \<or> arg = ''--ipv4'' then
        (if family_preference cli = 2 then ArgReturn (- 1) cli
         else ArgNext rest (cli\<lparr>family_preference := 1\<rparr>))
      else if arg = ''-6'' \<or> arg = ''--ipv6'' then
        (if family_preference cli = 1 then ArgReturn (- 1) cli
         else ArgNext rest (cli\<lparr>family_preference := 2\<rparr>))
      else if arg = ''-b'' \<or> arg = ''--broadcast'' then ArgNext rest (cli\<lparr>broadcast_mode := 1\<rparr>)
      else if starts arg ''-B='' then
        ArgNext rest (cli\<lparr>broadcast_addr := Some (take (INET_ADDRSTRLEN - 1) (drop 3 arg))\<rparr>)
      else if starts arg ''--broadcast-addr='' then
        ArgNext rest (cli\<lparr>broadcast_addr := Some (take (INET_ADDRSTRLEN - 1) (drop 17 arg))\<rparr>)
      else if arg = ''-q'' \<or> arg = ''--quit'' then ArgNext rest (cli\<lparr>quit_after_sync := 1\<rparr>)
      else ArgReturn (- 1) cli)"

lemma opt_value_shorter: "opt_value rest = Some (v, vs) \<Longrightarrow> length vs < length rest"
  by (auto simp: opt_value_def split: list.splits if_splits)

definition never_longer :: "string list \<Rightarrow> arg_step \<Rightarrow> bool" where
  "never_longer rest st \<longleftrightarrow> (case st of ArgNext r c \<Rightarrow> length r \<le> length rest | _ \<Rightarrow> True)"

lemma never_longer_if:
  "never_longer rest a \<Longrightarrow> never_longer rest b \<Longrightarrow> never_longer rest (if c then a else b)"
  by simp

lemma never_longer_opts:
  "never_longer rest (ArgReturn r c)" "never_longer rest (ArgNext rest c)"
  "never_longer rest (string_opt rest f cli)" "never_longer rest (int_opt v lo hi rest g cli)"
  "never_longer rest (case opt_value rest of Some (v, vs) \<Rightarrow> int_opt v lo hi vs g cli | None \<Rightarrow> ArgNext rest c)"
  "never_longer rest (case opt_value rest of Some (v, vs) \<Rightarrow> int_opt v lo hi vs g cli | None \<Rightarrow> ArgReturn r c)"
  using opt_value_shorter [of rest]
  by (fastforce simp: never_longer_def string_opt_def int_opt_def split: option.split)+

lemma parse_arg_shorter: "parse_arg arg rest cli = ArgNext rest' cli' \<Longrightarrow> length rest' \<le> length rest"
proof -
  have "never_longer rest (parse_arg arg rest cli)"
    unfolding parse_arg_def by (intro never_longer_if never_longer_opts)
  then show "parse_arg arg rest cli = ArgNext rest' cli' \<Longrightarrow> length rest' \<le> length rest"
    by (simp add: never_longer_def)
qed

function parse_args :: "string list \<Rightarrow> CliConfig \<Rightarrow> int \<times> CliConfig" where
  "parse_args [] cli = (0, cli)"
| "parse_args (arg # rest) cli =
     (case parse_arg arg rest cli of
        ArgReturn r cli' \<Rightarrow> (r, cli')
      | ArgNext rest' cli' \<Rightarrow> parse_args rest' cli')"
  by pat_completeness auto
termination
  by (relation "measure (\<lambda>(args, cli). length args)") (auto dest: parse_arg_shorter)

definition parse_arguments :: "string list \<Rightarrow> CliConfig \<Rightarrow> int \<times> CliConfig" where
  "parse_arguments argv cli = parse_args (tl argv) cli"


subsection \<open>Properties\<close>

definition cli_wf :: "CliConfig \<Rightarrow> bool" where
  "cli_wf c \<longleftrightarrow> 0 \<le> debug_level c \<and> debug_level c \<le> 3 \<and> 1 \<le> timeout_sec c \<and>
     timeout_sec c \<le> 86400 \<and> family_preference c \<in> {0, 1, 2} \<and>
     (\<forall>a. broadcast_addr c = Some a \<longrightarrow> length a < INET_ADDRSTRLEN)"

definition keeps_wf :: "arg_step \<Rightarrow> bool" where
  "keeps_wf st \<longleftrightarrow>
     (case st of ArgNext r c \<Rightarrow> cli_wf c | ArgReturn r c \<Rightarrow> cli_wf c \<and> r \<in> {-1, 2, 3})"

lemma keeps_wf_if: "keeps_wf a \<Longrightarrow> keeps_wf b \<Longrightarrow> keeps_wf (if c then a else b)"
  by simp

lemma parse_positive_int_range:
  "parse_positive_int s lo hi = Some n \<Longrightarrow> lo \<le> n \<and> n \<le> hi"
  by (auto simp: parse_positive_int_def split: option.splits prod.splits if_splits)

lemma keeps_wf_string_opt:
  "cli_wf c \<Longrightarrow> (\<And>v. cli_wf (f v c)) \<Longrightarrow> keeps_wf (string_opt rest f c)"
  by (simp add: keeps_wf_def string_opt_def split: option.split)

lemma keeps_wf_int_opt:
  "cli_wf c \<Longrightarrow> (\<And>n. lo \<le> n \<Longrightarrow> n \<le> hi \<Longrightarrow> cli_wf (f n c)) \<Longrightarrow> keeps_wf (int_opt v lo hi rest f c)"
  by (auto simp: keeps_wf_def int_opt_def dest: parse_positive_int_range split: option.split)

lemma keeps_wf_opt_value:
  "(\<And>v vs. keeps_wf (f v vs)) \<Longrightarrow> keeps_wf x \<Longrightarrow>
   keeps_wf (case opt_value rest of Some (v, vs) \<Rightarrow> f v vs | None \<Rightarrow> x)"
  by (simp split: option.split)

lemma keeps_wf_leaf:
  "cli_wf c \<Longrightarrow> keeps_wf (ArgNext r c)"
  "cli_wf c \<Longrightarrow> n \<in> {-1, 2, 3} \<Longrightarrow> keeps_wf (ArgReturn n c)"
  by (simp_all add: keeps_wf_def)

lemma parse_arg_wf: "cli_wf c \<Longrightarrow> keeps_wf (parse_arg arg rest c)"
  unfolding parse_arg_def
  by (intro keeps_wf_if keeps_wf_string_opt keeps_wf_int_opt keeps_wf_opt_value keeps_wf_leaf)
    (simp_all add: cli_wf_def)

lemma parse_args_wf:
  "cli_wf c \<Longrightarrow> parse_args args c = (r, c') \<Longrightarrow> cli_wf c' \<and> r \<in> {-1, 0, 2, 3}"
proof (induction args c rule: parse_args.induct)
  case (2 arg rest c)
  then show ?case
    using parse_arg_wf [OF "2.prems"(1), of arg rest]
    by (auto simp: keeps_wf_def split: arg_step.splits)
qed simp

text \<open>
  C38: whatever the command line, when parsing returns, the debug level is between 0 and 3,
  the timeout between one second and a day, the address family preference one of its
  three values and the broadcast address fits its buffer, also after an error.
\<close>

theorem parse_arguments_keeps_bounds:
  assumes "parse_arguments argv default_cli = (r, c)"
  shows "0 \<le> debug_level c \<and> debug_level c \<le> 3 \<and> 1 \<le> timeout_sec c \<and> timeout_sec c \<le> 86400 \<and>
    family_preference c \<in> {0, 1, 2} \<and> (\<forall>a. broadcast_addr c = Some a \<longrightarrow> length a < 16) \<and>
    r \<in> {-1, 0, 2, 3}"
proof -
  have "cli_wf default_cli" by (simp add: cli_wf_def default_cli_def)
  from parse_args_wf [OF this] show ?thesis
    using assms by (fastforce simp: parse_arguments_def cli_wf_def)
qed

lemma parse_t: "parse_positive_int (Some ''60'') 1 86400 = Some 60"
  by (simp add: parse_positive_int_def strtoll_def scan_number_def skip_space_def is_space_def
      is_digit_def digits_val_def digit_val_def)

lemma parse_arguments_t60:
  "parse_arguments [''dntpd'', ''-t'', ''60''] default_cli = (0, default_cli\<lparr>timeout_sec := 60\<rparr>)"
  by (simp add: parse_arguments_def parse_arg_def starts_def strn_eq_def opt_value_def int_opt_def
      parse_t)

lemma parse_arguments_keeps_bounds_witness:
  "timeout_sec (default_cli\<lparr>timeout_sec := 60\<rparr>) \<le> 86400"
  using parse_arguments_keeps_bounds [OF parse_arguments_t60] by simp

text \<open>
  \<open>--user=NAME\<close>, which the help text announces, is refused as an unknown option for
  every non-empty name: the comparison takes one character too many.
\<close>

theorem user_long_option_refused:
  assumes "name \<noteq> []"
  shows "parse_arguments (prog # (''--user='' @ name) # rest) cli = (- 1, cli)"
  using assms by (cases name)
    (simp_all add: parse_arguments_def parse_arg_def starts_def strn_eq_def)

lemma user_long_option_refused_witness:
  "parse_arguments [''dntpd'', ''--user=ntp''] default_cli = (- 1, default_cli)"
  using user_long_option_refused [of "''ntp''" "''dntpd''" "[]" default_cli] by simp

end
