(* ===== verification/Daemon.thy ===== *)
theory Daemon
  imports Clock ModeConfigFile Cli SampleFilter
begin

section \<open>The state of the daemon\<close>

text \<open>
  The record \<open>daemon\<close> is the program's global and static data: the sample buffer with
  \<open>g_mutex\<close> (by extension), the state of mode_handler.c, and the variables of main.c,
  time_sync.c, leap_second.c, reference_clock.c, socket.c and threads.c. \<open>int8_t\<close>
  variables are integers kept in range by \<open>int8\<close>. Static local variables are fields of
  the component that has them.

  A mutex that \<open>pthread_mutex_destroy\<close> has destroyed may not be used again: \<open>ck_mutex_ok\<close>
  and \<open>px_mutex_ok\<close> say that it has not been, and that its
  initialisation has not failed. A mutex in a zeroed static object is usable,
  as \<open>PTHREAD_MUTEX_INITIALIZER\<close> is zero on the daemon's platform.

  The arrays of the eight peer threads are functions of the index, which every access checks.

  What the daemon does to the system clock is the list \<open>clock_cmds\<close> of the commands it
  has given to the kernel, latest first; the kernel's answer is a parameter.
\<close>

definition int8 :: "int \<Rightarrow> int" where
  "int8 x = (x + 128) mod 256 - 128"

datatype clock_cmd =
    SetTime timespec
  | AdjTime int int
  | AdjFreq int

record LeapSecondState =
  lp_initialized :: bool
  lp_last_check_time :: int
  lp_next_check_time :: int
  lp_pending_offset_us :: int
  lp_pending_leap_dir :: u8
  lp_event_scheduled :: bool
  lp_event_time :: int
  lp_file_dir :: string
  lp_file_prefix :: string
  lp_file_suffix :: string
  lp_check_interval_sec :: int
  lp_event_interval_sec :: int

datatype ReferenceClockType = REF_CLOCK_NONE | REF_CLOCK_GPS | REF_CLOCK_ATOMIC | REF_CLOCK_PPS

record ReferenceClockState =
  rc_type :: ReferenceClockType
  rc_device :: string
  rc_enabled :: bool
  rc_last_update :: int
  rc_offset_us :: int
  rc_jitter_us :: u64
  rc_stratum :: u8
  rc_ref_ts :: NtpTimestamp
  rc_ref_id :: string

record ClockAccuracyState =
  ca_precision :: rat
  ca_resolution :: rat
  ca_accuracy_estimate :: rat
  ca_stability_metric :: rat
  ca_last_update :: int
  ca_offset_history :: "u64 list"
  ca_offset_history_time :: "int list"
  ca_history_idx :: nat
  ca_variance :: rat
  ca_prev_freq :: rat

datatype freq_st = FREQ_STATE_NSET | FREQ_STATE_FSET | FREQ_STATE_SYNC | FREQ_STATE_RECOVER

record FreqState =
  fr_ppm :: rat
  fr_last_update :: int
  fr_last_offset_us :: int
  fr_state :: freq_st
  fr_ppm_filter :: rat
  fr_ppm_error_history :: rat
  fr_pll_stable_count :: int
  fr_fll_recovery_count :: int
  fr_dynamic_pll_gain :: rat
  fr_dynamic_fll_gain :: rat
  fr_recent_jitter_us :: u64
  fr_last_applied_ppm :: int
  fr_last_apply_time :: int

record ServerConfig =
  srv_ip :: string
  srv_port :: string
  srv_next_allowed_sync :: int

record PeerState =
  peer_ip :: string
  peer_port :: string
  peer_stratum :: u8
  peer_delay_us :: u64
  peer_offset_us :: int
  peer_jitter_us :: u64
  peer_root_disp :: u32
  peer_last_update :: int
  peer_reachable :: bool
  peer_ido_state :: IdoState

record ClockThreadContext =
  ck_interval_ms :: int
  ck_mutex_ok :: bool
  ck_last_offset_us :: int
  ck_last_correction :: int

record PeerThreadContext =
  px_sock_fd :: int
  px_ip :: string
  px_port :: string
  px_mutex :: bool
  px_mutex_ok :: bool
  px_sock_valid :: bool

record daemon = sample_state +
  g_mode :: mode_state
  g_ido_state :: IdoState
  g_leap :: LeapSecondState
  g_leap_mutex :: bool
  g_reference_clock :: ReferenceClockState
  g_clock_accuracy :: ClockAccuracyState
  g_freq_state :: FreqState
  g_servers :: "ServerConfig list"
  g_peer_pool :: "PeerState list"
  g_cli :: CliConfig
  g_time_synced :: bool
  g_local_stratum :: u8
  g_local_ref_id :: u32
  g_local_ref_ts :: NtpTimestamp
  g_last_sync_ts :: NtpTimestamp
  g_local_root_delay :: u32
  g_local_root_disp :: u32
  g_local_li :: u8
  g_last_dispersion_update :: int
  g_local_precision :: int
  g_local_poll :: int
  g_peer_poll :: int
  g_last_broadcast :: int
  g_sync_sock :: int
  g_tcp_sock :: int
  g_clock_ctx :: ClockThreadContext
  g_clock_thread_running :: bool
  g_peer_ctx :: "nat \<Rightarrow> PeerThreadContext"
  g_peer_threads_running :: "nat \<Rightarrow> bool"
  clock_cmds :: "clock_cmd list"

subsection \<open>The initial state\<close>

definition zero_ts :: NtpTimestamp where
  "zero_ts = \<lparr>ts_sec = 0, ts_frac = 0\<rparr>"

definition zero_leap :: LeapSecondState where
  "zero_leap =
     \<lparr>lp_initialized = False, lp_last_check_time = 0, lp_next_check_time = 0,
      lp_pending_offset_us = 0, lp_pending_leap_dir = 0, lp_event_scheduled = False,
      lp_event_time = 0, lp_file_dir = [], lp_file_prefix = [], lp_file_suffix = [],
      lp_check_interval_sec = 0, lp_event_interval_sec = 0\<rparr>"

definition zero_refclock :: ReferenceClockState where
  "zero_refclock =
     \<lparr>rc_type = REF_CLOCK_NONE, rc_device = [], rc_enabled = False, rc_last_update = 0,
      rc_offset_us = 0, rc_jitter_us = 0, rc_stratum = 0, rc_ref_ts = zero_ts, rc_ref_id = []\<rparr>"

definition zero_accuracy :: ClockAccuracyState where
  "zero_accuracy =
     \<lparr>ca_precision = 0, ca_resolution = 0, ca_accuracy_estimate = 0, ca_stability_metric = 0,
      ca_last_update = 0, ca_offset_history = replicate 16 0,
      ca_offset_history_time = replicate 16 0, ca_history_idx = 0, ca_variance = 0,
      ca_prev_freq = 0\<rparr>"

definition zero_freq :: FreqState where
  "zero_freq =
     \<lparr>fr_ppm = 0, fr_last_update = 0, fr_last_offset_us = 0, fr_state = FREQ_STATE_NSET,
      fr_ppm_filter = 0, fr_ppm_error_history = 0, fr_pll_stable_count = 0,
      fr_fll_recovery_count = 0, fr_dynamic_pll_gain = 0, fr_dynamic_fll_gain = 0,
      fr_recent_jitter_us = 0, fr_last_applied_ppm = 0, fr_last_apply_time = 0\<rparr>"

definition zero_clock_ctx :: ClockThreadContext where
  "zero_clock_ctx =
     \<lparr>ck_interval_ms = 0, ck_mutex_ok = True, ck_last_offset_us = 0, ck_last_correction = 0\<rparr>"

definition zero_peer_ctx :: PeerThreadContext where
  "zero_peer_ctx =
     \<lparr>px_sock_fd = 0, px_ip = [], px_port = [], px_mutex = False, px_mutex_ok = True,
      px_sock_valid = False\<rparr>"

definition initial_daemon :: daemon where
  "initial_daemon =
     \<lparr>g_samples = replicate MAX_SAMPLES \<lparr>smp_ts = 0, smp_delay = 0, smp_offset = 0\<rparr>,
      g_sample_count = 0, g_mutex = False, g_mode = initial_mode_state, g_ido_state = ido_zero,
      g_leap = zero_leap, g_leap_mutex = False, g_reference_clock = zero_refclock,
      g_clock_accuracy = zero_accuracy, g_freq_state = zero_freq, g_servers = [],
      g_peer_pool = [], g_cli = default_cli, g_time_synced = False, g_local_stratum = 16,
      g_local_ref_id = 0x4C4F434C, g_local_ref_ts = zero_ts, g_last_sync_ts = zero_ts,
      g_local_root_delay = 0, g_local_root_disp = 0, g_local_li = 3,
      g_last_dispersion_update = 0, g_local_precision = - 20, g_local_poll = 4,
      g_peer_poll = 4, g_last_broadcast = 0, g_sync_sock = - 1, g_tcp_sock = - 1,
      g_clock_ctx = zero_clock_ctx, g_clock_thread_running = False,
      g_peer_ctx = (\<lambda>_. zero_peer_ctx), g_peer_threads_running = (\<lambda>_. False),
      clock_cmds = []\<rparr>"

subsection \<open>Parts of the state\<close>

definition byte_of :: "int \<Rightarrow> u8" where
  "byte_of x = word_of_int x"

text \<open>An operation of mode_handler.c on the daemon's state.\<close>

definition on_mode :: "(mode_state \<Rightarrow> ('a \<times> mode_state) run) \<Rightarrow> daemon \<Rightarrow> ('a \<times> daemon) run" where
  "on_mode f d = bindR (f (g_mode d)) (\<lambda>(r, m). Inr (r, d\<lparr>g_mode := m\<rparr>))"

definition with_g_leap_mutex ::
    "(daemon \<Rightarrow> ('a \<times> daemon) run) \<Rightarrow> daemon \<Rightarrow> ('a \<times> daemon) run" where
  "with_g_leap_mutex = with_mutex g_leap_mutex (\<lambda>b d. d\<lparr>g_leap_mutex := b\<rparr>)"

interpretation glm: mutex g_leap_mutex "\<lambda>b d. d\<lparr>g_leap_mutex := b\<rparr>"
  by unfold_locales simp_all

definition clock_command :: "(clock_cmd \<Rightarrow> int) \<Rightarrow> clock_cmd \<Rightarrow> daemon \<Rightarrow> int \<times> daemon" where
  "clock_command kern c d = (kern c, d\<lparr>clock_cmds := c # clock_cmds d\<rparr>)"

lemma on_mode_same:
  assumes "f (g_mode d) = Inr (r, g_mode d)"
  shows "on_mode f d = Inr (r, d)"
  using assms by (simp add: on_mode_def)

lemma with_g_leap_mutex_free:
  assumes "\<not> g_leap_mutex d"
  shows "with_g_leap_mutex body d =
    bindR (body (d\<lparr>g_leap_mutex := True\<rparr>))
      (\<lambda>(r, d'). if g_leap_mutex d' then Inr (r, d'\<lparr>g_leap_mutex := False\<rparr>) else Inl Undefined)"
  using assms by (simp add: with_g_leap_mutex_def with_mutex_def)

lemma with_g_leap_mutex_held: "g_leap_mutex d \<Longrightarrow> with_g_leap_mutex body d = Inl Deadlock"
  by (simp add: with_g_leap_mutex_def glm.relock_deadlocks)

text \<open>No mutex is held: what holds of the daemon between two operations.\<close>

definition unlocked :: "daemon \<Rightarrow> bool" where
  "unlocked d \<longleftrightarrow> \<not> g_mutex d \<and> \<not> g_leap_mutex d \<and> \<not> g_mode_mutex (g_mode d)"

lemma unlockedD:
  "unlocked d \<Longrightarrow> \<not> g_mutex d" "unlocked d \<Longrightarrow> \<not> g_leap_mutex d"
  "unlocked d \<Longrightarrow> \<not> g_mode_mutex (g_mode d)"
  by (simp_all add: unlocked_def)

lemma initial_daemon_unlocked: "unlocked initial_daemon"
  by (simp add: unlocked_def initial_daemon_def initial_mode_state_def)

end
