(* ===== verification/TimeSync.thy ===== *)
theory TimeSync
  imports Daemon Algorithms
begin

section \<open>Correcting the clock, dispersion and poll interval (time_sync.c)\<close>

text \<open>
  \<open>apply_time_correction_slew_or_step\<close> steps the clock (\<open>clock_settime\<close>) for offsets
  above half a second and slews it (\<open>adjtime\<close>) otherwise, after the panic check of
  mode_handler.c. \<open>now\<close> is what \<open>clock_gettime\<close> answers, \<open>kern\<close> the kernel's answer to
  a command. \<open>tv_sec\<close> and \<open>tv_nsec\<close> are \<open>int\<close>; the 64-bit products and sums that the
  code does not guard go through \<open>i64\<close>.
\<close>

abbreviation STEP_THRESHOLD_US :: int where "STEP_THRESHOLD_US \<equiv> 500000"

subsection \<open>Step or slew\<close>

definition step_target :: "int \<Rightarrow> timespec" where
  "step_target ns =
     (let s = ns sdiv 1000000000; n = ns smod 1000000000
      in if n < 0 then \<lparr>tv_sec = s - 1, tv_nsec = n + 1000000000\<rparr>
         else \<lparr>tv_sec = s, tv_nsec = n\<rparr>)"

definition slew_delta :: "int \<Rightarrow> int \<times> int" where
  "slew_delta offset_us =
     (let s = offset_us sdiv 1000000; u = offset_us smod 1000000
      in if u < 0 then (s - 1, u + 1000000) else (s, u))"

definition apply_time_correction_slew_or_step ::
    "(clock_cmd \<Rightarrow> int) \<Rightarrow> timespec option \<Rightarrow> int \<Rightarrow> daemon \<Rightarrow> (int \<times> daemon) run" where
  "apply_time_correction_slew_or_step kern now offset_us d =
     bindR (on_mode (check_panic_condition offset_us) d) (\<lambda>(panic, d).
     if panic \<noteq> 0 then Inr (- 1, d)
     else if STEP_THRESHOLD_US < offset_us \<or> offset_us < - STEP_THRESHOLD_US then
       (case now of
          None \<Rightarrow> Inr (- 1, d)
        | Some ts \<Rightarrow>
            bindR (i64 (offset_us * 1000)) (\<lambda>offset_ns.
            bindR (i64 (tv_sec ts * 1000000000)) (\<lambda>sec_ns.
            bindR (i64 (sec_ns + tv_nsec ts)) (\<lambda>ns.
            if 0 < offset_ns \<and> INT64_MAX - offset_ns < ns then Inr (- 1, d)
            else if offset_ns < 0 \<and> ns < INT64_MIN - offset_ns then Inr (- 1, d)
            else Inr (clock_command kern (SetTime (step_target (ns + offset_ns))) d)))))
     else (let (s, u) = slew_delta offset_us in Inr (clock_command kern (AdjTime s u) d)))"

subsection \<open>Dispersion and poll interval\<close>

definition update_root_dispersion ::
    "fpu \<Rightarrow> int \<Rightarrow> u32 \<Rightarrow> u64 \<Rightarrow> u64 \<Rightarrow> daemon \<Rightarrow> (u32 \<times> daemon) run" where
  "update_root_dispersion F now current_disp offset_us jitter_us d =
     bindR (with_g_mutex (\<lambda>d.
       if g_last_dispersion_update d = 0 then
         Inr (None, d\<lparr>g_last_dispersion_update := now\<rparr>)
       else
         bindR (i64 (now - g_last_dispersion_update d)) (\<lambda>e.
         let elapsed_sec = (if e < 0 then 0 else e);
             phi = rnd F (rnd F (15 * rnd F (of_int elapsed_sec)) / 1000000);
             disp_us = (if 0xFFFFFFFF < offset_us then 0xFFFFFFFF else offset_us);
             dd = rnd F (of_int (uint disp_us));
             dj = rnd F (of_int (uint jitter_us));
             new_disp = (if rnd F (rnd F (4294967295 - dd) - dj) < phi then 4294967295
                         else rnd F (rnd F (phi + dd) + dj))
         in Inr (Some new_disp, d\<lparr>g_last_dispersion_update := now\<rparr>))) d)
       (\<lambda>(res, d). case res of
          None \<Rightarrow> Inr (current_disp, d)
        | Some new_disp \<Rightarrow>
            if trunc new_disp < 0 \<or> 2 ^ 64 \<le> trunc new_disp then Inl Undefined
            else Inr (ntp_u16_16_from_us (word_of_int (trunc new_disp)), d))"

definition adjust_poll_interval :: "int \<Rightarrow> int \<Rightarrow> u64 \<Rightarrow> int \<Rightarrow> int" where
  "adjust_poll_interval current_poll peer_poll delay_us offset_us =
     (let new_poll = (if peer_poll < current_poll then peer_poll else current_poll)
      in if 100000 < delay_us \<or> 50000 < offset_us \<or> offset_us < - 50000 then
           (if new_poll < 12 then new_poll + 1 else new_poll)
         else if delay_us < 10000 \<and> - 10000 < offset_us \<and> offset_us < 10000 then
           (if 4 < new_poll then new_poll - 1 else new_poll)
         else new_poll)"


subsection \<open>Properties\<close>

definition ns_of :: "timespec \<Rightarrow> int" where
  "ns_of ts = tv_sec ts * 1000000000 + tv_nsec ts"

lemma step_target_exact:
  "ns_of (step_target ns) = ns \<and> 0 \<le> tv_nsec (step_target ns) \<and> tv_nsec (step_target ns) < 1000000000"
  using sdiv_smod [of 1000000000 ns]
  by (auto simp: step_target_def ns_of_def Let_def algebra_simps)

lemma slew_delta_exact:
  assumes "slew_delta off = (s, u)"
  shows "s * 1000000 + u = off \<and> 0 \<le> u \<and> u < 1000000"
  using assms sdiv_smod [of 1000000 off]
  by (auto simp: slew_delta_def Let_def algebra_simps split: if_splits)

definition panic_limit :: "daemon \<Rightarrow> int" where
  "panic_limit d = uint (panic_threshold (g_mode_config (g_mode d))) * 10 ^ 9"

lemma panic_limit_bounds: "0 \<le> panic_limit d" "panic_limit d \<le> 65535 * 10 ^ 9"
proof -
  have "uint (panic_threshold (g_mode_config (g_mode d))) < 2 ^ 16"
    using uint_bounded [of "panic_threshold (g_mode_config (g_mode d))"] by simp
  then show "0 \<le> panic_limit d" "panic_limit d \<le> 65535 * 10 ^ 9" by (simp_all add: panic_limit_def)
qed

lemma on_mode_panic:
  assumes "unlocked d" "in_i64 off" "off \<noteq> - (2 ^ 63)"
  shows "on_mode (check_panic_condition off) d = Inr (if \<bar>off\<bar> > panic_limit d then 1 else 0, d)"
  using panic_eq [OF unlockedD(3) [OF assms(1)] assms(2)] assms(3)
  by (intro on_mode_same) (simp add: panic_limit_def)

lemma correction_panic:
  assumes "unlocked d" "in_i64 off" "off \<noteq> - (2 ^ 63)" "\<bar>off\<bar> > panic_limit d"
  shows "apply_time_correction_slew_or_step kern now off d = Inr (- 1, d)"
  using assms(4) by (simp add: apply_time_correction_slew_or_step_def on_mode_panic [OF assms(1-3)])

lemma correction_slew:
  assumes "unlocked d" "\<bar>off\<bar> \<le> panic_limit d" "\<bar>off\<bar> \<le> STEP_THRESHOLD_US" "slew_delta off = (s, u)"
  shows "apply_time_correction_slew_or_step kern now off d = Inr (clock_command kern (AdjTime s u) d)"
proof -
  have "in_i64 off" "off \<noteq> - (2 ^ 63)" using assms(3) by (auto simp: in_i64_def)
  from on_mode_panic [OF assms(1) this] assms show ?thesis
    by (auto simp: apply_time_correction_slew_or_step_def)
qed

lemma correction_step:
  assumes "unlocked d" "\<bar>off\<bar> \<le> panic_limit d" "STEP_THRESHOLD_US < \<bar>off\<bar>"
    "\<bar>tv_sec ts\<bar> \<le> 2 ^ 33" "0 \<le> tv_nsec ts" "tv_nsec ts < 1000000000"
  shows "apply_time_correction_slew_or_step kern (Some ts) off d =
    Inr (clock_command kern (SetTime (step_target (ns_of ts + off * 1000))) d)"
proof -
  have off: "\<bar>off\<bar> \<le> 65535000000000" using assms(2) panic_limit_bounds(2) [of d] by simp
  then have "in_i64 off" "off \<noteq> - (2 ^ 63)" "in_i64 (off * 1000)" by (auto simp: in_i64_iff)
  moreover have "in_i64 (tv_sec ts * 1000000000)" "in_i64 (tv_sec ts * 1000000000 + tv_nsec ts)"
    using assms(4-6) by (auto simp: in_i64_iff)
  moreover have "\<not> (0 < off * 1000 \<and> INT64_MAX - off * 1000 < tv_sec ts * 1000000000 + tv_nsec ts)"
    "\<not> (off * 1000 < 0 \<and> tv_sec ts * 1000000000 + tv_nsec ts < INT64_MIN - off * 1000)"
    using assms(4-6) off by auto
  ultimately show ?thesis
    using assms on_mode_panic [OF assms(1), of off]
    by (auto simp: apply_time_correction_slew_or_step_def ns_of_def)
qed

text \<open>
  C13: what a correction does, for every offset whose negation exists in 64 bits and every
  clock reading within 270 years of 1970. Beyond the panic limit nothing is done.
  Otherwise exactly one command goes to the kernel: above half a second the clock is set
  to its reading plus the offset, to the nanosecond and in normal form; up to half a
  second it is slewed by exactly the offset, in normal form. No 64-bit sum overflows.
\<close>

theorem time_correction_exact:
  assumes "unlocked d" "in_i64 off" "off \<noteq> - (2 ^ 63)"
    "\<bar>tv_sec ts\<bar> \<le> 2 ^ 33" "0 \<le> tv_nsec ts" "tv_nsec ts < 1000000000"
  shows "if \<bar>off\<bar> > uint (panic_threshold (g_mode_config (g_mode d))) * 10 ^ 9 then
      apply_time_correction_slew_or_step kern (Some ts) off d = Inr (- 1, d)
    else if \<bar>off\<bar> > 500000 then
      (\<exists>new. apply_time_correction_slew_or_step kern (Some ts) off d =
          Inr (kern (SetTime new), d\<lparr>clock_cmds := SetTime new # clock_cmds d\<rparr>) \<and>
        tv_sec new * 10 ^ 9 + tv_nsec new = tv_sec ts * 10 ^ 9 + tv_nsec ts + off * 1000 \<and>
        0 \<le> tv_nsec new \<and> tv_nsec new < 10 ^ 9)
    else
      (\<exists>s u. apply_time_correction_slew_or_step kern (Some ts) off d =
          Inr (kern (AdjTime s u), d\<lparr>clock_cmds := AdjTime s u # clock_cmds d\<rparr>) \<and>
        s * 10 ^ 6 + u = off \<and> 0 \<le> u \<and> u < 10 ^ 6)"
proof -
  have step: "\<exists>new. Inr (clock_command kern (SetTime (step_target (ns_of ts + off * 1000))) d) =
          Inr (kern (SetTime new), d\<lparr>clock_cmds := SetTime new # clock_cmds d\<rparr>) \<and>
        tv_sec new * 10 ^ 9 + tv_nsec new = tv_sec ts * 10 ^ 9 + tv_nsec ts + off * 1000 \<and>
        0 \<le> tv_nsec new \<and> tv_nsec new < 10 ^ 9"
    using step_target_exact [of "ns_of ts + off * 1000"]
    by (intro exI [of _ "step_target (ns_of ts + off * 1000)"]) (simp add: clock_command_def ns_of_def)
  obtain s u where su: "slew_delta off = (s, u)" by fastforce
  show ?thesis
    using correction_panic [OF assms(1-3), of kern "Some ts"] correction_step [OF assms(1) _ _ assms(4-6), of off kern]
      correction_slew [OF assms(1) _ _ su, of kern "Some ts"] slew_delta_exact [OF su] step
    unfolding panic_limit_def by (auto simp: clock_command_def)
qed

lemma time_correction_exact_witness:
  "\<exists>new. apply_time_correction_slew_or_step (\<lambda>_. 0) (Some \<lparr>tv_sec = 1700000000, tv_nsec = 0\<rparr>) (- 1500000)
       initial_daemon = Inr (0, initial_daemon\<lparr>clock_cmds := [SetTime new]\<rparr>) \<and>
     tv_sec new * 10 ^ 9 + tv_nsec new = 1699999998500000000"
  using time_correction_exact [OF initial_daemon_unlocked, of "- 1500000"
      "\<lparr>tv_sec = 1700000000, tv_nsec = 0\<rparr>" "\<lambda>_. 0"]
  by (auto simp: in_i64_def initial_daemon_def initial_mode_state_def default_mode_config_def)

text \<open>
  The poll interval never leaves its upper bound 12, and stays at least 4 when the
  peer's does; but a peer that asks for less than 3 takes it below the minimum 4.
\<close>

theorem poll_interval_bounds:
  assumes "4 \<le> c" "c \<le> 12"
  shows "adjust_poll_interval c p delay off \<le> 12 \<and>
    (4 \<le> p \<longrightarrow> 4 \<le> adjust_poll_interval c p delay off) \<and>
    (p < 3 \<longrightarrow> adjust_poll_interval c p delay off < 4)"
  using assms by (simp add: adjust_poll_interval_def Let_def)

lemma poll_interval_bounds_witness: "adjust_poll_interval 6 0 5 5 < 4"
  using poll_interval_bounds [of 6 0 5 5] by simp

lemma root_dispersion_deadlocks: "g_mutex d \<Longrightarrow> update_root_dispersion F now c off j d = Inl Deadlock"
  by (simp add: update_root_dispersion_def with_g_mutex_held)

end
