(* ===== verification/RefClock.thy ===== *)
theory RefClock
  imports TimeSync
begin

section \<open>Reference clock (reference_clock.c)\<close>

text \<open>
  The operations on \<open>g_reference_clock\<close>. A type argument outside the enumeration is
  \<open>None\<close>; \<open>device\<close> is \<open>None\<close> for a null pointer. The hardware reading is the constant
  0 that the code puts in its place.
\<close>

abbreviation upd_rc :: "(ReferenceClockState \<Rightarrow> ReferenceClockState) \<Rightarrow> daemon \<Rightarrow> daemon" where
  "upd_rc f d \<equiv> d\<lparr>g_reference_clock := f (g_reference_clock d)\<rparr>"

definition reference_clock_init :: "daemon \<Rightarrow> int \<times> daemon" where
  "reference_clock_init d =
     (0, d\<lparr>g_reference_clock := zero_refclock\<lparr>rc_type := REF_CLOCK_NONE, rc_device := ''/dev/null'',
             rc_stratum := 16, rc_ref_id := [], rc_ref_ts := zero_ts\<rparr>\<rparr>)"

definition reference_clock_cleanup :: "daemon \<Rightarrow> int \<times> daemon" where
  "reference_clock_cleanup d = (0, d)"

definition reference_clock_set_enabled :: "bool \<Rightarrow> daemon \<Rightarrow> int \<times> daemon" where
  "reference_clock_set_enabled enabled d = (0, upd_rc (\<lambda>r. r\<lparr>rc_enabled := enabled\<rparr>) d)"

definition reference_clock_configure ::
    "string option \<Rightarrow> ReferenceClockType option \<Rightarrow> daemon \<Rightarrow> int \<times> daemon" where
  "reference_clock_configure device typ d =
     (case device of
        None \<Rightarrow> (- 1, d)
      | Some dev \<Rightarrow>
          (let d = upd_rc (\<lambda>r. r\<lparr>rc_device := take 63 dev\<rparr>) d
           in case typ of
                None \<Rightarrow> (- 1, d)
              | Some t \<Rightarrow> reference_clock_set_enabled True (upd_rc (\<lambda>r. r\<lparr>rc_type := t\<rparr>) d)))"

definition reference_clock_get_status :: "daemon \<Rightarrow> int" where
  "reference_clock_get_status d =
     (if \<not> rc_enabled (g_reference_clock d) then 1
      else if rc_type (g_reference_clock d) = REF_CLOCK_NONE then 2
      else 0)"

text \<open>The two getters with an output pointer: the value, \<open>None\<close> for the return code -1.\<close>

definition reference_clock_get_offset :: "daemon \<Rightarrow> int option" where
  "reference_clock_get_offset d =
     (if \<not> rc_enabled (g_reference_clock d) then None
      else if rc_type (g_reference_clock d) = REF_CLOCK_NONE then None
      else Some (rc_offset_us (g_reference_clock d)))"

definition reference_clock_get_jitter :: "daemon \<Rightarrow> u64 option" where
  "reference_clock_get_jitter d =
     (if \<not> rc_enabled (g_reference_clock d) then None
      else if rc_type (g_reference_clock d) = REF_CLOCK_NONE then None
      else Some (rc_jitter_us (g_reference_clock d)))"

definition reference_clock_check ::
    "(clock_cmd \<Rightarrow> int) \<Rightarrow> timespec \<Rightarrow> int \<Rightarrow> timespec option \<Rightarrow> daemon \<Rightarrow> (int \<times> daemon) run" where
  "reference_clock_check kern ts now clk d =
     (if \<not> rc_enabled (g_reference_clock d) then Inr (0, d)
      else if rc_type (g_reference_clock d) = REF_CLOCK_NONE then Inr (0, d)
      else
        (let d = upd_rc (\<lambda>r. r\<lparr>
               rc_ref_ts := \<lparr>ts_sec = word_of_int (tv_sec ts), ts_frac = word_of_int (tv_nsec ts)\<rparr>,
               rc_last_update := now, rc_offset_us := 0, rc_jitter_us := 0\<rparr>) d
         in case reference_clock_get_offset d of
              None \<Rightarrow> Inr (0, d)
            | Some offset_us \<Rightarrow>
                if \<bar>offset_us\<bar> < 1000000 then
                  bindR (apply_time_correction_slew_or_step kern clk offset_us d) (\<lambda>(_, d). Inr (0, d))
                else Inr (0, d)))"

definition get_reference_clock_state :: "daemon \<Rightarrow> ReferenceClockState" where
  "get_reference_clock_state d = g_reference_clock d"

definition reference_clock_type_to_string :: "ReferenceClockType option \<Rightarrow> string" where
  "reference_clock_type_to_string t =
     (case t of
        Some REF_CLOCK_NONE \<Rightarrow> ''none''
      | Some REF_CLOCK_GPS \<Rightarrow> ''gps''
      | Some REF_CLOCK_ATOMIC \<Rightarrow> ''atomic''
      | Some REF_CLOCK_PPS \<Rightarrow> ''pps''
      | None \<Rightarrow> ''unknown'')"

definition reference_clock_is_available :: "daemon \<Rightarrow> bool" where
  "reference_clock_is_available d \<longleftrightarrow>
     rc_enabled (g_reference_clock d) \<and> rc_type (g_reference_clock d) \<noteq> REF_CLOCK_NONE"

subsection \<open>Properties\<close>

lemma status_iff_available: "reference_clock_get_status d = 0 \<longleftrightarrow> reference_clock_is_available d"
  by (simp add: reference_clock_get_status_def reference_clock_is_available_def)

lemma offset_iff_available: "reference_clock_get_offset d \<noteq> None \<longleftrightarrow> reference_clock_is_available d"
  by (simp add: reference_clock_get_offset_def reference_clock_is_available_def)

lemma unlocked_upd_rc [simp]: "unlocked (d\<lparr>g_reference_clock := x\<rparr>) = unlocked d"
  by (simp add: unlocked_def)

text \<open>
  Every check of an available reference clock gives the kernel one command, a slew by
  zero. The reading is always 0, and \<open>adjtime\<close> replaces a correction that is still
  under way, so the check cancels what the daemon has asked for; an unavailable clock
  changes nothing.
\<close>

theorem reference_clock_check_slews_by_zero:
  assumes "unlocked d"
  shows "if reference_clock_is_available d then
      (\<exists>d'. reference_clock_check kern ts now clk d = Inr (0, d') \<and>
         clock_cmds d' = AdjTime 0 0 # clock_cmds d)
    else reference_clock_check kern ts now clk d = Inr (0, d)"
proof (cases "reference_clock_is_available d")
  case False
  then show ?thesis
    by (auto simp: reference_clock_check_def reference_clock_is_available_def)
next
  case True
  have s: "slew_delta 0 = (0, 0)" by (simp add: slew_delta_def)
  have c: "apply_time_correction_slew_or_step kern clk 0 (d\<lparr>g_reference_clock := x\<rparr>) =
      Inr (clock_command kern (AdjTime 0 0) (d\<lparr>g_reference_clock := x\<rparr>))" for x
    using assms panic_limit_bounds(1) by (intro correction_slew [OF _ _ _ s]) simp_all
  show ?thesis
    using True c
    by (simp add: reference_clock_check_def reference_clock_is_available_def Let_def
        reference_clock_get_offset_def clock_command_def)
qed

lemma reference_clock_check_slews_by_zero_witness:
  "\<exists>d d'. reference_clock_configure (Some ''/dev/gps0'') (Some REF_CLOCK_GPS) initial_daemon = (0, d) \<and>
     reference_clock_check (\<lambda>_. 0) \<lparr>tv_sec = 7, tv_nsec = 0\<rparr> 7 None d = Inr (0, d') \<and>
     clock_cmds d' = [AdjTime 0 0]"
proof -
  obtain d where d: "reference_clock_configure (Some ''/dev/gps0'') (Some REF_CLOCK_GPS) initial_daemon = (0, d)"
    "unlocked d" "reference_clock_is_available d" "clock_cmds d = []"
    using initial_daemon_unlocked
    by (simp add: reference_clock_configure_def reference_clock_set_enabled_def Let_def unlocked_def
        reference_clock_is_available_def) (simp add: initial_daemon_def)
  obtain d' where "reference_clock_check (\<lambda>_. 0) \<lparr>tv_sec = 7, tv_nsec = 0\<rparr> 7 None d = Inr (0, d')"
    "clock_cmds d' = AdjTime 0 0 # clock_cmds d"
    using reference_clock_check_slews_by_zero [OF d(2), of "\<lambda>_. 0" "\<lparr>tv_sec = 7, tv_nsec = 0\<rparr>" 7 None] d(3)
    by auto
  then show ?thesis using d by metis
qed

end
