(* ===== verification/Frequency.thy ===== *)
theory Frequency
  imports RefClock
begin

section \<open>Frequency discipline and clock accuracy (time_sync.c)\<close>

text \<open>
  The computations are in \<open>double\<close>; every operation is rounded by \<open>rnd F\<close>, and so are
  the constants that are not binary fractions. The frequency file is the number it holds
  (\<open>None\<close> when it cannot be opened or read); what is saved is returned as the number
  given to \<open>fprintf\<close>. \<open>adjtimex\<close> answers through \<open>kern\<close>; \<open>unsynced\<close> is the bit
  \<open>STA_UNSYNC\<close> of the status it reports.
\<close>

abbreviation FREQ_OFFSET_MAX_PPM :: rat where "FREQ_OFFSET_MAX_PPM \<equiv> 128"
abbreviation FREQ_UPDATE_INTERVAL_MIN_SEC :: int where "FREQ_UPDATE_INTERVAL_MIN_SEC \<equiv> 64"
abbreviation CLOCK_ALLAN_INTERCEPT :: int where "CLOCK_ALLAN_INTERCEPT \<equiv> 1500"
abbreviation MAXPOLL :: int where "MAXPOLL \<equiv> 17"

abbreviation upd_freq :: "(FreqState \<Rightarrow> FreqState) \<Rightarrow> daemon \<Rightarrow> daemon" where
  "upd_freq f d \<equiv> d\<lparr>g_freq_state := f (g_freq_state d)\<rparr>"

subsection \<open>Persistence and initialisation\<close>

definition load_frequency_persistent :: "rat option \<Rightarrow> daemon \<Rightarrow> int \<times> daemon" where
  "load_frequency_persistent file d =
     (case file of
        Some ppm \<Rightarrow>
          if - FREQ_OFFSET_MAX_PPM < ppm \<and> ppm < FREQ_OFFSET_MAX_PPM
          then (0, upd_freq (\<lambda>f. f\<lparr>fr_ppm := ppm, fr_state := FREQ_STATE_FSET\<rparr>) d)
          else (- 1, upd_freq (\<lambda>f. f\<lparr>fr_state := FREQ_STATE_NSET\<rparr>) d)
      | None \<Rightarrow> (- 1, upd_freq (\<lambda>f. f\<lparr>fr_state := FREQ_STATE_NSET\<rparr>) d))"

definition save_frequency_persistent :: "daemon \<Rightarrow> int \<times> rat option" where
  "save_frequency_persistent d =
     (if fr_state (g_freq_state d) \<noteq> FREQ_STATE_SYNC then (0, None)
      else (0, Some (fr_ppm (g_freq_state d))))"

definition init_clock_accuracy :: "daemon \<Rightarrow> daemon" where
  "init_clock_accuracy d =
     d\<lparr>g_clock_accuracy := (g_clock_accuracy d)\<lparr>
         ca_precision := 0, ca_resolution := 0, ca_accuracy_estimate := 0,
         ca_stability_metric := 0, ca_last_update := 0,
         ca_offset_history := replicate 16 0, ca_offset_history_time := replicate 16 0\<rparr>\<rparr>"

definition init_frequency_discipline :: "fpu \<Rightarrow> daemon \<Rightarrow> int \<times> daemon" where
  "init_frequency_discipline F d =
     (let d = d\<lparr>g_freq_state := zero_freq\<lparr>fr_state := FREQ_STATE_NSET,
                  fr_dynamic_pll_gain := rnd F (1 / 100), fr_dynamic_fll_gain := rnd F (1 / 100)\<rparr>\<rparr>;
          d = init_clock_accuracy d;
          d = snd (reference_clock_init d)
      in (0, upd_freq (\<lambda>f. f\<lparr>fr_last_applied_ppm := 0, fr_last_apply_time := 0\<rparr>) d))"

subsection \<open>Loop filter and gain\<close>

text \<open>Result: the value, and the filter's new content.\<close>

definition apply_loop_filter :: "fpu \<Rightarrow> rat \<Rightarrow> rat option \<Rightarrow> rat \<Rightarrow> rat \<times> rat option" where
  "apply_loop_filter F new_ppm filter_ppm alpha =
     (case filter_ppm of
        None \<Rightarrow> (0, None)
      | Some flt \<Rightarrow>
          if \<bar>flt\<bar> < rnd F (1 / 1000) \<and> \<bar>new_ppm\<bar> < rnd F (1 / 1000) then (flt, Some flt)
          else (let filtered = rnd F (flt + rnd F (alpha * rnd F (new_ppm - flt)))
                in (filtered, Some filtered)))"

definition update_dynamic_gain :: "fpu \<Rightarrow> u64 \<Rightarrow> daemon \<Rightarrow> daemon" where
  "update_dynamic_gain F recent_jitter_us d =
     (if 200000 < recent_jitter_us then
        upd_freq (\<lambda>f. f\<lparr>fr_dynamic_fll_gain := rnd F (1 / 10), fr_dynamic_pll_gain := rnd F (1 / 1000)\<rparr>) d
      else if recent_jitter_us < 50000 then
        upd_freq (\<lambda>f. f\<lparr>fr_dynamic_fll_gain := 1 / 2, fr_dynamic_pll_gain := rnd F (1 / 10)\<rparr>) d
      else
        upd_freq (\<lambda>f. f\<lparr>fr_dynamic_fll_gain := rnd F (1 / 100), fr_dynamic_pll_gain := rnd F (1 / 100)\<rparr>) d)"

subsection \<open>Adjusting the frequency\<close>

definition freq_delta :: "fpu \<Rightarrow> rat \<Rightarrow> int \<times> int" where
  "freq_delta F ppm =
     (let adj_sec = rnd F (ppm / 1000000);
          s0 = trunc adj_sec;
          u0 = trunc (rnd F (rnd F (adj_sec - of_int s0) * 1000000));
          (s1, u1) = (if u0 < 0 then (s0 - 1, u0 + 1000000) else (s0, u0));
          (s2, u2) = (if 0 < s1 \<or> s1 = 0 \<and> 100 < u1 then (0, 100) else (s1, u1))
      in if s2 < 0 \<or> s2 = 0 \<and> u2 < - 100 then (0, - 100) else (s2, u2))"

definition apply_freq_adjtime :: "fpu \<Rightarrow> (clock_cmd \<Rightarrow> int) \<Rightarrow> rat \<Rightarrow> daemon \<Rightarrow> int \<times> daemon" where
  "apply_freq_adjtime F kern ppm d =
     (let (s, u) = freq_delta F ppm in clock_command kern (AdjTime s u) d)"

definition apply_freq_adjtimex ::
    "fpu \<Rightarrow> (clock_cmd \<Rightarrow> int) \<Rightarrow> bool \<Rightarrow> rat \<Rightarrow> daemon \<Rightarrow> int \<times> daemon" where
  "apply_freq_adjtimex F kern unsynced ppm d =
     (let (ret, d) = clock_command kern (AdjFreq (trunc (rnd F (ppm * 65536)))) d
      in if ret < 0 then (- 1, d) else if unsynced then (- 1, d) else (ret, d))"

definition clamp_frequency :: "rat \<Rightarrow> rat" where
  "clamp_frequency ppm =
     (if FREQ_OFFSET_MAX_PPM < ppm then FREQ_OFFSET_MAX_PPM
      else if ppm < - FREQ_OFFSET_MAX_PPM then - FREQ_OFFSET_MAX_PPM
      else ppm)"

definition apply_frequency_adjustment ::
    "fpu \<Rightarrow> (clock_cmd \<Rightarrow> int) \<Rightarrow> bool \<Rightarrow> rat \<Rightarrow> daemon \<Rightarrow> int \<times> daemon" where
  "apply_frequency_adjustment F kern unsynced ppm d =
     (let clamped = clamp_frequency ppm
      in if \<bar>clamped\<bar> < rnd F (1 / 1000) then (0, d)
         else (let (ret, d) = apply_freq_adjtimex F kern unsynced clamped d
               in if ret = 0 then (0, upd_freq (\<lambda>f. f\<lparr>fr_ppm := clamped\<rparr>) d)
                  else apply_freq_adjtime F kern clamped d))"

subsection \<open>Frequency from an offset\<close>

definition calculate_fll_ppm :: "fpu \<Rightarrow> int \<Rightarrow> int \<Rightarrow> int \<Rightarrow> rat" where
  "calculate_fll_ppm F offset_us delta_sec poll_exp =
     (if delta_sec \<le> 0 then 0
      else
        (let e0 = MAXPOLL + 1 - poll_exp;
             etemp = (if e0 < 4 then 4 else e0);
             offset_s = rnd F (rnd F (of_int offset_us) / 1000000);
             denom = rnd F (max (rnd F (of_int delta_sec)) (of_int CLOCK_ALLAN_INTERCEPT) * of_int etemp)
         in if denom \<le> 0 then 0 else clamp_frequency (rnd F (offset_s / denom))))"

definition calculate_pll_ppm :: "fpu \<Rightarrow> int \<Rightarrow> int \<Rightarrow> int \<Rightarrow> rat" where
  "calculate_pll_ppm F offset_us delta_sec poll_exp =
     (if delta_sec \<le> 0 then 0
      else
        (let poll_interval = 2 ^ nat poll_exp :: int;
             etemp = (if delta_sec < poll_interval then delta_sec else poll_interval);
             pd = rnd F (of_int poll_interval);
             dtemp = rnd F (rnd F (262144 * pd) * pd);
             offset_s = rnd F (rnd F (of_int offset_us) / 1000000)
         in if dtemp \<le> 0 then 0
            else clamp_frequency (rnd F (rnd F (offset_s * rnd F (of_int etemp)) / dtemp))))"

definition calculate_frequency_ppm :: "fpu \<Rightarrow> int \<Rightarrow> int \<Rightarrow> rat" where
  "calculate_frequency_ppm F offset_us delta_sec =
     (if delta_sec \<le> 0 then 0
      else
        (let offset_s = rnd F (rnd F (of_int offset_us) / 1000000)
         in clamp_frequency (rnd F (rnd F (offset_s / rnd F (of_int delta_sec)) * 1000000))))"

subsection \<open>Clock accuracy\<close>

text \<open>\<open>pow(2.0, -precision)\<close> with an integer exponent is exact.\<close>

definition pow2 :: "int \<Rightarrow> rat" where
  "pow2 e = (if 0 \<le> e then 2 ^ nat e else 1 / 2 ^ nat (- e))"

definition calculate_clock_precision :: "fpu \<Rightarrow> timespec \<Rightarrow> timespec option \<Rightarrow> rat run" where
  "calculate_clock_precision F ts res =
     (let read_time = rnd F (rnd F (of_int (tv_sec ts)) + rnd F (rnd F (of_int (tv_nsec ts)) / 1000000000))
      in bindR (get_system_precision res) (\<lambda>precision. Inr (max (pow2 (- precision)) read_time)))"

text \<open>The two static variables are in \<open>g_clock_accuracy\<close>.\<close>

definition calculate_allan_variance ::
    "fpu \<Rightarrow> int \<Rightarrow> int \<Rightarrow> ClockAccuracyState \<Rightarrow> rat \<times> ClockAccuracyState" where
  "calculate_allan_variance F offset_us delta_sec a =
     (if delta_sec \<le> 0 then (0, a)
      else
        (let freq_offset = rnd F (rnd F (of_int offset_us) / 1000000);
             freq_stability = rnd F (freq_offset / rnd F (of_int delta_sec));
             delta_freq = rnd F (freq_stability - ca_prev_freq a);
             variance = rnd F (1 / 4 * rnd F (rnd F (delta_freq * delta_freq) + ca_variance a))
         in (fsqrt F variance, a\<lparr>ca_variance := variance, ca_prev_freq := freq_stability\<rparr>)))"

definition update_clock_accuracy ::
    "fpu \<Rightarrow> timespec \<Rightarrow> timespec option \<Rightarrow> int \<Rightarrow> int \<Rightarrow> int \<Rightarrow> daemon \<Rightarrow> daemon run" where
  "update_clock_accuracy F ts res now offset_us delta_sec d =
     bindR (calculate_clock_precision F ts res) (\<lambda>precision.
       let a0 = (g_clock_accuracy d)\<lparr>ca_precision := precision\<rparr>;
           (stability, a1) = calculate_allan_variance F offset_us delta_sec a0;
           i = ca_history_idx a1
       in Inr (d\<lparr>g_clock_accuracy := a1\<lparr>ca_stability_metric := stability,
            ca_offset_history := (ca_offset_history a1)[i := word_of_int offset_us],
            ca_offset_history_time := (ca_offset_history_time a1)[i := delta_sec],
            ca_history_idx := (i + 1) mod 16,
            ca_last_update := now\<rparr>\<rparr>))"

definition get_clock_accuracy_state :: "daemon \<Rightarrow> ClockAccuracyState" where
  "get_clock_accuracy_state d = g_clock_accuracy d"

definition get_clock_precision :: "daemon \<Rightarrow> rat" where
  "get_clock_precision d = ca_precision (g_clock_accuracy d)"

definition get_clock_stability :: "daemon \<Rightarrow> rat" where
  "get_clock_stability d = ca_stability_metric (g_clock_accuracy d)"

subsection \<open>The state machine\<close>

text \<open>
  \<open>1LL << poll_exp\<close> is defined for exponents from 0 to 62. \<open>now\<close> is \<open>time(NULL)\<close>;
  \<open>ts\<close> and \<open>res\<close> are the readings for the accuracy estimate.
\<close>

definition discipline_step ::
    "fpu \<Rightarrow> timespec \<Rightarrow> timespec option \<Rightarrow> int \<Rightarrow> int \<Rightarrow> int \<Rightarrow> u64 \<Rightarrow> int \<Rightarrow> daemon \<Rightarrow> daemon run" where
  "discipline_step F ts res now offset_us poll_exp jitter_us delta d =
     (case fr_state (g_freq_state d) of
        FREQ_STATE_NSET \<Rightarrow>
          Inr (upd_freq (\<lambda>f. f\<lparr>fr_ppm := calculate_fll_ppm F offset_us delta poll_exp,
                                fr_state := FREQ_STATE_FSET\<rparr>) d)
      | FREQ_STATE_FSET \<Rightarrow>
          (let old = fr_ppm (g_freq_state d);
               calc = calculate_fll_ppm F offset_us delta poll_exp
           in Inr (upd_freq (\<lambda>f. f\<lparr>fr_ppm := rnd F (old + rnd F (rnd F (calc - old) / 16)),
                                    fr_state := FREQ_STATE_SYNC\<rparr>) d))
      | _ \<Rightarrow>
          bindR (update_clock_accuracy F ts res now offset_us delta d) (\<lambda>d.
            let calc = (if 11 \<le> poll_exp
                        then calculate_fll_ppm F offset_us CLOCK_ALLAN_INTERCEPT poll_exp
                        else calculate_pll_ppm F offset_us delta poll_exp);
                d = update_dynamic_gain F jitter_us d;
                (filtered, flt) = apply_loop_filter F calc
                   (Some (fr_ppm_filter (g_freq_state d))) (rnd F (1 / 100))
            in Inr (upd_freq (\<lambda>f. f\<lparr>fr_ppm_filter := the flt, fr_ppm := filtered\<rparr>) d)))"

definition update_frequency_discipline_internal ::
    "fpu \<Rightarrow> (clock_cmd \<Rightarrow> int) \<Rightarrow> bool \<Rightarrow> timespec \<Rightarrow> timespec option \<Rightarrow> int \<Rightarrow>
     int \<Rightarrow> int \<Rightarrow> u64 \<Rightarrow> daemon \<Rightarrow> (int \<times> daemon) run" where
  "update_frequency_discipline_internal F kern unsynced ts res now offset_us poll_exp jitter_us d =
     (if poll_exp < 0 \<or> 62 < poll_exp then Inl Undefined
      else
        (let tc = max (2 ^ nat poll_exp) FREQ_UPDATE_INTERVAL_MIN_SEC;
             delta = now - fr_last_update (g_freq_state d)
         in bindR (if delta < tc then Inr d
                   else discipline_step F ts res now offset_us poll_exp jitter_us delta d)
              (\<lambda>d.
                 let d = upd_freq (\<lambda>f. f\<lparr>fr_last_update := now, fr_last_offset_us := offset_us\<rparr>) d
                 in Inr (apply_frequency_adjustment F kern unsynced (fr_ppm (g_freq_state d)) d))))"

definition update_frequency_discipline ::
    "fpu \<Rightarrow> (clock_cmd \<Rightarrow> int) \<Rightarrow> bool \<Rightarrow> timespec \<Rightarrow> timespec option \<Rightarrow> int \<Rightarrow>
     int \<Rightarrow> int \<Rightarrow> daemon \<Rightarrow> (int \<times> daemon) run" where
  "update_frequency_discipline F kern unsynced ts res now offset_us poll_exp =
     with_g_mutex (\<lambda>d.
       bindR (ntp_offset_jitter_us_locked F d) (\<lambda>(jitter_us, d).
         update_frequency_discipline_internal F kern unsynced ts res now offset_us poll_exp jitter_us d))"


subsection \<open>Properties\<close>

text \<open>
  The frequency discipline never runs. \<open>update_frequency_discipline\<close> locks
  \<open>g_mutex\<close> and calls \<open>ntp_offset_jitter_us_locked\<close>, which locks it again, so it waits
  for itself in every state and for every input; its comment says the call is made under
  the mutex to avoid a double lock.
\<close>

theorem frequency_discipline_deadlocks:
  "update_frequency_discipline F kern unsynced ts res now off poll d = Inl Deadlock"
  unfolding update_frequency_discipline_def ntp_offset_jitter_us_locked_def with_g_mutex_def
  by (rule gmx.nested_deadlocks)

lemma freq_delta_range:
  assumes "freq_delta F ppm = (s, u)"
  shows "s = 0 \<and> \<bar>u\<bar> \<le> 100"
  using assms by (auto simp: freq_delta_def Let_def split: if_splits)

lemma clamp_bounds: "\<bar>clamp_frequency x\<bar> \<le> 128"
  by (auto simp: clamp_frequency_def)

lemma trunc_bound: "\<bar>x\<bar> \<le> of_int i \<Longrightarrow> \<bar>trunc x\<bar> \<le> i"
  by (auto simp: trunc_def abs_if floor_le_iff ceiling_le_iff le_floor_iff le_ceiling_iff split: if_splits)
     linarith+

lemma adjtimex_cmds:
  "clock_cmds (snd (apply_freq_adjtimex F kern unsynced c d)) =
     AdjFreq (trunc (rnd F (c * 65536))) # clock_cmds d"
  by (simp add: apply_freq_adjtimex_def clock_command_def Let_def)

lemma adjtime_cmds:
  "clock_cmds (snd (apply_freq_adjtime F kern c d)) =
     AdjTime (fst (freq_delta F c)) (snd (freq_delta F c)) # clock_cmds d"
  by (simp add: apply_freq_adjtime_def clock_command_def split_def Let_def)

lemma adjustment_cmds:
  "clock_cmds (snd (apply_frequency_adjustment F kern unsynced ppm d)) \<in>
    (let c = clamp_frequency ppm; f = AdjFreq (trunc (rnd F (c * 65536)));
         a = AdjTime (fst (freq_delta F c)) (snd (freq_delta F c))
     in {clock_cmds d, f # clock_cmds d, a # f # clock_cmds d})"
  unfolding apply_frequency_adjustment_def Let_def split_def
  by (simp add: adjtimex_cmds adjtime_cmds)

definition bounded_cmd :: "clock_cmd \<Rightarrow> bool" where
  "bounded_cmd c \<longleftrightarrow>
     (case c of AdjFreq f \<Rightarrow> \<bar>f\<bar> \<le> 128 * 65536 | AdjTime s u \<Rightarrow> s = 0 \<and> \<bar>u\<bar> \<le> 100 | SetTime _ \<Rightarrow> False)"

text \<open>
  C25: whatever frequency is asked for, what reaches the kernel is bounded: a frequency of
  at most 128 ppm (in units of \<open>2^-16\<close> ppm), or a slew of at most 100 microseconds.
\<close>

theorem frequency_commands_bounded:
  assumes "fpu_ok F" "apply_frequency_adjustment F kern unsynced ppm d = (r, d')"
  shows "\<exists>cs. clock_cmds d' = cs @ clock_cmds d \<and> length cs \<le> 2 \<and> (\<forall>c\<in>set cs. bounded_cmd c)"
proof -
  define c f where "c = clamp_frequency ppm" and "f = trunc (rnd F (c * 65536))"
  have "\<bar>c * 65536\<bar> \<le> of_int 8388608" using clamp_bounds [of ppm] by (simp add: c_def abs_mult)
  then have "\<bar>rnd F (c * 65536)\<bar> \<le> of_int 8388608" by (intro fpu_ok_bound [OF assms(1)]) simp_all
  then have f: "\<bar>f\<bar> \<le> 8388608" unfolding f_def by (rule trunc_bound)
  define a where "a = AdjTime (fst (freq_delta F c)) (snd (freq_delta F c))"
  have ok: "bounded_cmd (AdjFreq f)" "bounded_cmd a"
    using f freq_delta_range [OF surjective_pairing, of F c] by (simp_all add: bounded_cmd_def a_def)
  have "clock_cmds d' \<in> {clock_cmds d, AdjFreq f # clock_cmds d, a # AdjFreq f # clock_cmds d}"
    using adjustment_cmds [of F kern unsynced ppm d] assms(2)
    by (simp only: Let_def c_def f_def a_def snd_conv)
  then consider "clock_cmds d' = [] @ clock_cmds d" | "clock_cmds d' = [AdjFreq f] @ clock_cmds d"
    | "clock_cmds d' = [a, AdjFreq f] @ clock_cmds d" by auto
  then show ?thesis
  proof cases
    case 1
    then show ?thesis by (intro exI [of _ "[]"]) simp
  next
    case 2
    then show ?thesis using ok by (intro exI [of _ "[AdjFreq f]"]) simp
  next
    case 3
    then show ?thesis using ok by (intro exI [of _ "[a, AdjFreq f]"]) simp
  qed
qed

lemma frequency_commands_bounded_witness:
  "\<exists>r d' cs. apply_frequency_adjustment exact_fpu (\<lambda>_. 0) False 500 initial_daemon = (r, d') \<and>
     clock_cmds d' = cs @ clock_cmds initial_daemon \<and> (\<forall>c\<in>set cs. bounded_cmd c)"
proof -
  obtain r d' where run: "apply_frequency_adjustment exact_fpu (\<lambda>_. 0) False 500 initial_daemon = (r, d')"
    by (metis surj_pair)
  obtain cs where "clock_cmds d' = cs @ clock_cmds initial_daemon" "\<forall>c\<in>set cs. bounded_cmd c"
    using frequency_commands_bounded [OF exact_fpu_ok run] by metis
  then show ?thesis using run by metis
qed

lemma rnd_le_fraction:
  assumes "fpu_ok F" "x \<le> of_int i / 2 ^ k" "\<bar>i\<bar> \<le> 2 ^ 53" "k \<le> 1000"
  shows "rnd F x \<le> of_int i / 2 ^ k"
  using fpu_ok_mono [OF assms(1,2)] assms(1,3,4) by (simp add: fpu_ok_def)

lemma rnd_ge_fraction:
  assumes "fpu_ok F" "of_int i / 2 ^ k \<le> x" "\<bar>i\<bar> \<le> 2 ^ 53" "k \<le> 1000"
  shows "of_int i / 2 ^ k \<le> rnd F x"
  using fpu_ok_mono [OF assms(1,2)] assms(1,3,4) by (simp add: fpu_ok_def)

text \<open>
  The \<open>adjtime\<close> fallback turns every negative frequency from -2 to -128 ppm into the
  same slew of -100 microseconds. The number of microseconds is brought into normal form
  first, which makes the seconds -1, and the limit for negative values then only sees
  the sign of the seconds.
\<close>

theorem negative_frequency_slews_by_100:
  assumes "fpu_ok F" "- 128 \<le> ppm" "ppm \<le> - 2"
  shows "freq_delta F ppm = (0, - 100)"
proof -
  define a where "a = rnd F (ppm / 1000000)"
  have lo: "- (1 / 2) \<le> a"
    unfolding a_def using rnd_ge_fraction [OF assms(1), of "- 1" 1 "ppm / 1000000"] assms(2) by simp
  have hi: "a \<le> - (2147 / 2 ^ 30)"
    unfolding a_def using rnd_le_fraction [OF assms(1), of "ppm / 1000000" "- 2147" 30] assms(3) by simp
  have t: "trunc a = 0" using lo hi by (auto simp: trunc_def ceiling_eq_iff)
  define b where "b = rnd F (rnd F a * 1000000)"
  have "rnd F a \<le> - (2147 / 2 ^ 30)"
    using rnd_le_fraction [OF assms(1), of a "- 2147" 30] hi by simp
  then have b1: "b \<le> - 1"
    unfolding b_def using rnd_le_fraction [OF assms(1), of "rnd F a * 1000000" "- 1" 0] by simp
  have "- (1 / 2) \<le> rnd F a" using rnd_ge_fraction [OF assms(1), of "- 1" 1 a] lo by simp
  then have b2: "- 500000 \<le> b"
    unfolding b_def using rnd_ge_fraction [OF assms(1), of "- 500000" 0 "rnd F a * 1000000"] by simp
  have "trunc b < 0" "- 500000 \<le> trunc b"
    using b1 b2 by (auto simp: trunc_def le_ceiling_iff ceiling_less_iff)
  then show ?thesis
    by (simp add: freq_delta_def a_def [symmetric] t b_def [symmetric] Let_def)
qed

lemma negative_frequency_slews_by_100_witness:
  "freq_delta exact_fpu (- 2) = (0, - 100) \<and> freq_delta exact_fpu (- 128) = (0, - 100)"
  using negative_frequency_slews_by_100 [OF exact_fpu_ok, of "- 2"]
    negative_frequency_slews_by_100 [OF exact_fpu_ok, of "- 128"] by simp

text \<open>
  The clock precision that the accuracy state reports, in seconds, is at least the
  current Unix time in seconds: the time taken to read the clock is not measured, the
  reading itself is used.
\<close>

theorem clock_precision_is_at_least_unix_time:
  assumes "fpu_ok F" "0 \<le> tv_sec ts" "tv_sec ts \<le> 2 ^ 53" "0 \<le> tv_nsec ts"
    "calculate_clock_precision F ts res = Inr p"
  shows "of_int (tv_sec ts) \<le> p"
proof -
  have sec: "rnd F (of_int (tv_sec ts)) = of_int (tv_sec ts)"
    using fpu_ok_int [OF assms(1), of "tv_sec ts"] assms(2,3) by simp
  have nonneg: "0 \<le> rnd F x" if "0 \<le> x" for x
    using rnd_ge_fraction [OF assms(1), of 0 0 x] that by simp
  then have "0 \<le> rnd F (rnd F (of_int (tv_nsec ts)) / 1000000000)" using assms(4) by simp
  then have "rnd F (of_int (tv_sec ts)) \<le>
      rnd F (of_int (tv_sec ts) + rnd F (rnd F (of_int (tv_nsec ts)) / 1000000000))"
    by (intro fpu_ok_mono [OF assms(1)]) simp
  then show ?thesis
    using assms(5) sec by (auto simp: calculate_clock_precision_def Let_def bindR_eq_Inr_iff)
qed

lemma clock_precision_is_at_least_unix_time_witness:
  "\<exists>p. calculate_clock_precision exact_fpu \<lparr>tv_sec = 1700000000, tv_nsec = 5\<rparr> None = Inr p \<and>
     1700000000 \<le> p"
proof -
  obtain p where "calculate_clock_precision exact_fpu \<lparr>tv_sec = 1700000000, tv_nsec = 5\<rparr> None = Inr p"
    by (simp add: calculate_clock_precision_def get_system_precision_def Let_def)
  then show ?thesis
    using clock_precision_is_at_least_unix_time [OF exact_fpu_ok, of "\<lparr>tv_sec = 1700000000, tv_nsec = 5\<rparr>" None p]
    by simp
qed

subsubsection \<open>Transitions of the discipline\<close>

inductive freq_trans :: "freq_st \<Rightarrow> freq_st \<Rightarrow> bool" where
  estimated: "freq_trans FREQ_STATE_NSET FREQ_STATE_FSET"
| locked: "freq_trans FREQ_STATE_FSET FREQ_STATE_SYNC"
| tracking: "freq_trans FREQ_STATE_SYNC FREQ_STATE_SYNC"
| recovering: "freq_trans FREQ_STATE_RECOVER FREQ_STATE_RECOVER"

inductive_simps freq_trans_simps [simp]:
  "freq_trans FREQ_STATE_NSET s" "freq_trans FREQ_STATE_FSET s" "freq_trans FREQ_STATE_SYNC s"
  "freq_trans FREQ_STATE_RECOVER s"

text \<open>The states in the order of their numbers in the code (\<open>FREQ_STATE_NSET\<close> is 0).\<close>

fun freq_number :: "freq_st \<Rightarrow> nat" where
  "freq_number FREQ_STATE_NSET = 0"
| "freq_number FREQ_STATE_FSET = 1"
| "freq_number FREQ_STATE_SYNC = 2"
| "freq_number FREQ_STATE_RECOVER = 3"

instantiation freq_st :: linorder
begin

definition "x \<le> y \<longleftrightarrow> freq_number x \<le> freq_number y" for x y :: freq_st

definition "x < y \<longleftrightarrow> freq_number x < freq_number y" for x y :: freq_st

instance
proof
  fix x y z :: freq_st
  show "x \<le> y \<Longrightarrow> y \<le> x \<Longrightarrow> x = y" by (cases x; cases y) (simp_all add: less_eq_freq_st_def)
qed (auto simp: less_eq_freq_st_def less_freq_st_def)

end

lemma freq_trans_le: "freq_trans x y \<Longrightarrow> x \<le> y"
  by (induction rule: freq_trans.induct) (simp_all add: less_eq_freq_st_def)

abbreviation disc_state :: "daemon \<Rightarrow> freq_st" where
  "disc_state d \<equiv> fr_state (g_freq_state d)"

lemma adjustment_keeps_state:
  "disc_state (snd (apply_frequency_adjustment F kern unsynced ppm d)) = disc_state d"
  by (simp add: apply_frequency_adjustment_def apply_freq_adjtimex_def apply_freq_adjtime_def
      clock_command_def Let_def split_def)

lemma gain_keeps_state: "disc_state (update_dynamic_gain F j d) = disc_state d"
  by (simp add: update_dynamic_gain_def)

lemma accuracy_keeps_state:
  "update_clock_accuracy F ts res now off delta d = Inr d' \<Longrightarrow> disc_state d' = disc_state d"
  by (auto simp: update_clock_accuracy_def bindR_eq_Inr_iff Let_def split_def)

lemma step_moves:
  assumes "discipline_step F ts res now off poll jit delta d = Inr d'"
  shows "freq_trans (disc_state d) (disc_state d')"
  using assms
  by (cases "disc_state d")
    (auto simp: discipline_step_def bindR_eq_Inr_iff Let_def split_def gain_keeps_state
      dest!: accuracy_keeps_state)

lemma internal_update_trans:
  assumes "update_frequency_discipline_internal F kern unsynced ts res now off poll jit d = Inr (r, d')"
  shows "if now - fr_last_update (g_freq_state d) < max (2 ^ nat poll) 64
    then disc_state d' = disc_state d
    else freq_trans (disc_state d) (disc_state d')"
proof -
  let ?delta = "now - fr_last_update (g_freq_state d)"
  let ?stamp = "\<lambda>d. upd_freq (\<lambda>f. f\<lparr>fr_last_update := now, fr_last_offset_us := off\<rparr>) d"
  let ?step = "if ?delta < max (2 ^ nat poll) 64 then Inr d
        else discipline_step F ts res now off poll jit ?delta d"
  have ok: "\<not> (poll < 0 \<or> 62 < poll)"
    using assms by (auto simp: update_frequency_discipline_internal_def)
  have "bindR ?step (\<lambda>d. Inr (apply_frequency_adjustment F kern unsynced
      (fr_ppm (g_freq_state (?stamp d))) (?stamp d))) = Inr (r, d')"
    using assms ok unfolding update_frequency_discipline_internal_def Let_def by (simp only: if_False)
  then obtain d1 where step: "?step = Inr d1"
    and d': "apply_frequency_adjustment F kern unsynced (fr_ppm (g_freq_state (?stamp d1))) (?stamp d1) = (r, d')"
    by (elim bindR_eq_InrE) (simp only: sum.inject)
  have "disc_state d' = disc_state (?stamp d1)"
    using adjustment_keeps_state [of F kern unsynced "fr_ppm (g_freq_state (?stamp d1))" "?stamp d1"]
    by (simp only: d' snd_conv)
  then have "disc_state d' = disc_state d1" by simp
  then show ?thesis using step by (auto dest: step_moves split: if_splits)
qed

text \<open>
  One update of the discipline keeps the state while less than the larger of 64 seconds
  and \<open>2^poll\<close> have passed, and otherwise moves it exactly one step along NSET, FSET, SYNC;
  SYNC is never left, and nothing ever enters RECOVER. So the state never goes back.
\<close>

theorem discipline_moves_one_step:
  assumes "update_frequency_discipline_internal F kern unsynced ts res now off poll jit d = Inr (r, d')"
  shows "(if now - fr_last_update (g_freq_state d) < max (2 ^ nat poll) 64
    then fr_state (g_freq_state d') = fr_state (g_freq_state d)
    else freq_trans (fr_state (g_freq_state d)) (fr_state (g_freq_state d'))) \<and>
    fr_state (g_freq_state d) \<le> fr_state (g_freq_state d')"
  using internal_update_trans [OF assms] freq_trans_le by (auto split: if_splits)

lemma discipline_moves_one_step_witness:
  "\<exists>r d'. update_frequency_discipline_internal exact_fpu (\<lambda>_. 0) False \<lparr>tv_sec = 1000, tv_nsec = 0\<rparr> None
       1000 250 6 0 initial_daemon = Inr (r, d') \<and> fr_state (g_freq_state d') = FREQ_STATE_FSET"
proof -
  have "\<exists>p. update_frequency_discipline_internal exact_fpu (\<lambda>_. 0) False
      \<lparr>tv_sec = 1000, tv_nsec = 0\<rparr> None 1000 250 6 0 initial_daemon = Inr p"
    by (simp add: update_frequency_discipline_internal_def discipline_step_def initial_daemon_def
        zero_freq_def Let_def)
  then obtain r d' where run: "update_frequency_discipline_internal exact_fpu (\<lambda>_. 0) False
      \<lparr>tv_sec = 1000, tv_nsec = 0\<rparr> None 1000 250 6 0 initial_daemon = Inr (r, d')"
    by fastforce
  have "fr_last_update (g_freq_state initial_daemon) = 0"
    "fr_state (g_freq_state initial_daemon) = FREQ_STATE_NSET"
    by (simp_all add: initial_daemon_def zero_freq_def)
  then show ?thesis using discipline_moves_one_step [OF run] run by auto
qed

end
