(* ===== verification/LeapSecond.thy ===== *)
theory LeapSecond
  imports TimeSync
begin

section \<open>Leap seconds (leap_second.c, handle_leap_indicator)\<close>

text \<open>
  Scheduling and applying leap second events, on \<open>g_leap\<close> under the file's own mutex.
  The clock readings are arguments: \<open>clk\<close> what \<open>clock_gettime\<close> answers, \<open>now\<close> what
  \<open>time\<close> answers (a function may ask both). The file system is an argument too:
  \<open>leap_file\<close> maps a name to \<open>None\<close> when it does not exist and otherwise to what opening
  and reading a number from it gives.
\<close>

datatype leap_dir_file =
    CannotOpen
  | NoNumber
  | Direction u8

abbreviation LEAP_SECOND_DIR_POSITIVE :: u8 where "LEAP_SECOND_DIR_POSITIVE \<equiv> 1"
abbreviation LEAP_SECOND_DIR_NEGATIVE :: u8 where "LEAP_SECOND_DIR_NEGATIVE \<equiv> 2"

abbreviation upd_leap :: "(LeapSecondState \<Rightarrow> LeapSecondState) \<Rightarrow> daemon \<Rightarrow> daemon" where
  "upd_leap f d \<equiv> d\<lparr>g_leap := f (g_leap d)\<rparr>"

subsection \<open>Helpers\<close>

definition leap_second_get_end_of_minute_time :: "timespec option \<Rightarrow> int" where
  "leap_second_get_end_of_minute_time clk =
     (case clk of None \<Rightarrow> 0 | Some ts \<Rightarrow> tv_sec ts + (60 - tv_sec ts smod 60))"

text \<open>\<open>%0wd\<close>: at least \<open>w\<close> digits, zeros in front.\<close>

definition padded :: "nat \<Rightarrow> nat \<Rightarrow> string" where
  "padded w n = replicate (w - length (decimal n)) (CHR ''0'') @ decimal n"

definition leap_second_get_file_name ::
    "nat \<Rightarrow> nat \<Rightarrow> nat \<Rightarrow> nat \<Rightarrow> daemon \<Rightarrow> string option" where
  "leap_second_get_file_name year month day buf_size d =
     (if buf_size = 0 then None
      else if 9999 < year then None
      else Some (take (buf_size - 1)
             (lp_file_dir (g_leap d) @ ''leap-'' @ padded 4 year @ padded 2 month @ padded 2 day @
              lp_file_suffix (g_leap d))))"

subsection \<open>Scheduling\<close>

definition leap_second_schedule_event ::
    "timespec option \<Rightarrow> int \<Rightarrow> u8 \<Rightarrow> daemon \<Rightarrow> (int \<times> daemon) run" where
  "leap_second_schedule_event clk now leap_dir =
     with_g_leap_mutex (\<lambda>d.
       if lp_event_scheduled (g_leap d) then Inr (- 1, d)
       else
         (let end_of_minute = leap_second_get_end_of_minute_time clk
          in if end_of_minute = 0 then Inr (- 1, d)
             else
               (let t = end_of_minute - lp_event_interval_sec (g_leap d);
                    event_time = (if t \<le> now then end_of_minute + lp_event_interval_sec (g_leap d) else t)
                in Inr (0, upd_leap (\<lambda>l. l\<lparr>
                     lp_pending_offset_us :=
                       (if leap_dir = LEAP_SECOND_DIR_POSITIVE then 60000000 else - 60000000),
                     lp_pending_leap_dir := leap_dir,
                     lp_event_time := event_time,
                     lp_event_scheduled := True\<rparr>) d))))"

definition handle_leap_indicator ::
    "timespec option \<Rightarrow> int \<Rightarrow> u8 \<Rightarrow> daemon \<Rightarrow> (bool \<times> daemon) run" where
  "handle_leap_indicator clk now li d =
     (if li = 0 then Inr (False, d)
      else if li = 1 then
        bindR (leap_second_schedule_event clk now LEAP_SECOND_DIR_POSITIVE d) (\<lambda>(_, d). Inr (False, d))
      else if li = 2 then
        bindR (leap_second_schedule_event clk now LEAP_SECOND_DIR_NEGATIVE d) (\<lambda>(_, d). Inr (False, d))
      else Inr (True, d))"

definition leap_second_get_current_date :: "(nat \<times> nat \<times> nat) option \<Rightarrow> (nat \<times> nat \<times> nat) option" where
  "leap_second_get_current_date tm_info = map_option (\<lambda>(y, m, day). (y + 1900, m + 1, day)) tm_info"

text \<open>
  \<open>date\<close> is what \<open>localtime\<close> makes of the time: years since 1900, months since January, day.
\<close>

definition leap_second_check_file ::
    "(string \<Rightarrow> leap_dir_file option) \<Rightarrow> timespec option \<Rightarrow> int \<Rightarrow> (nat \<times> nat \<times> nat) option \<Rightarrow>
     daemon \<Rightarrow> (int \<times> daemon) run" where
  "leap_second_check_file leap_file clk now date =
     with_g_leap_mutex (\<lambda>d.
       if \<not> lp_initialized (g_leap d) then Inr (- 1, d)
       else if now - lp_last_check_time (g_leap d) < lp_check_interval_sec (g_leap d) then Inr (0, d)
       else
         (case leap_second_get_current_date date of
            None \<Rightarrow> Inr (- 1, d)
          | Some (year, month, day) \<Rightarrow>
              (case leap_second_get_file_name year month day 256 d of
                 None \<Rightarrow> Inr (- 1, d)
               | Some file_name \<Rightarrow>
                   (case leap_file file_name of
                      None \<Rightarrow> Inr (0, upd_leap (\<lambda>l. l\<lparr>lp_last_check_time := now\<rparr>) d)
                    | Some CannotOpen \<Rightarrow> Inr (- 1, d)
                    | Some NoNumber \<Rightarrow> Inr (- 1, d)
                    | Some (Direction leap_dir) \<Rightarrow>
                        if leap_dir \<noteq> LEAP_SECOND_DIR_POSITIVE \<and> leap_dir \<noteq> LEAP_SECOND_DIR_NEGATIVE
                        then Inr (- 1, d)
                        else
                          bindR (leap_second_schedule_event clk now leap_dir d) (\<lambda>(_, d).
                            Inr (0, upd_leap (\<lambda>l. l\<lparr>lp_last_check_time := now\<rparr>) d))))))"

subsection \<open>Applying\<close>

definition leap_second_apply_correction ::
    "(clock_cmd \<Rightarrow> int) \<Rightarrow> timespec option \<Rightarrow> int \<Rightarrow> u8 \<Rightarrow> daemon \<Rightarrow> (int \<times> daemon) run" where
  "leap_second_apply_correction kern clk now leap_dir =
     with_g_leap_mutex (\<lambda>d.
       if \<not> lp_event_scheduled (g_leap d) then Inr (- 1, d)
       else if now < lp_event_time (g_leap d) then Inr (- 1, d)
       else
         bindR (apply_time_correction_slew_or_step kern clk (lp_pending_offset_us (g_leap d)) d)
           (\<lambda>(result, d).
             Inr (result, upd_leap (\<lambda>l. l\<lparr>lp_pending_offset_us := 0, lp_pending_leap_dir := 0,
                                           lp_event_scheduled := False\<rparr>) d)))"

definition leap_second_check_and_apply ::
    "(clock_cmd \<Rightarrow> int) \<Rightarrow> timespec option \<Rightarrow> int \<Rightarrow> daemon \<Rightarrow> (int \<times> daemon) run" where
  "leap_second_check_and_apply kern clk now =
     with_g_leap_mutex (\<lambda>d.
       if lp_event_scheduled (g_leap d) \<and> lp_event_time (g_leap d) \<le> now then
         bindR (leap_second_apply_correction kern clk now (lp_pending_leap_dir (g_leap d)) d)
           (\<lambda>(_, d). Inr (0, d))
       else Inr (0, d))"

subsection \<open>Initialisation\<close>

definition leap_second_init :: "daemon \<Rightarrow> (int \<times> daemon) run" where
  "leap_second_init =
     with_g_leap_mutex (\<lambda>d. Inr (0, upd_leap (\<lambda>l. l\<lparr>
       lp_initialized := True, lp_last_check_time := 0, lp_next_check_time := 0,
       lp_pending_offset_us := 0, lp_pending_leap_dir := 0, lp_event_scheduled := False,
       lp_event_time := 0, lp_file_dir := ''/etc/ntp'', lp_file_prefix := ''leap-'',
       lp_file_suffix := ''.s'', lp_check_interval_sec := 300, lp_event_interval_sec := 60\<rparr>) d))"

definition leap_second_cleanup :: "daemon \<Rightarrow> (int \<times> daemon) run" where
  "leap_second_cleanup =
     with_g_leap_mutex (\<lambda>d. Inr (0, upd_leap (\<lambda>l. l\<lparr>
       lp_initialized := False, lp_last_check_time := 0, lp_next_check_time := 0,
       lp_pending_offset_us := 0, lp_pending_leap_dir := 0, lp_event_scheduled := False,
       lp_event_time := 0\<rparr>) d))"

definition leap_second_integration_check ::
    "(string \<Rightarrow> leap_dir_file option) \<Rightarrow> (clock_cmd \<Rightarrow> int) \<Rightarrow> timespec option \<Rightarrow> int \<Rightarrow>
     (nat \<times> nat \<times> nat) option \<Rightarrow> daemon \<Rightarrow> (int \<times> daemon) run" where
  "leap_second_integration_check leap_file kern clk now date d =
     bindR (leap_second_check_file leap_file clk now date d) (\<lambda>(r, d).
     if r \<noteq> 0 then Inr (- 1, d)
     else bindR (leap_second_check_and_apply kern clk now d) (\<lambda>(r, d).
     if r \<noteq> 0 then Inr (- 1, d) else Inr (0, d)))"

subsection \<open>Properties\<close>

definition leap_ready :: "daemon \<Rightarrow> bool" where
  "leap_ready d \<longleftrightarrow> lp_initialized (g_leap d) \<and> lp_event_interval_sec (g_leap d) = 60 \<and>
     lp_check_interval_sec (g_leap d) = 300 \<and> lp_file_dir (g_leap d) = ''/etc/ntp'' \<and>
     lp_file_suffix (g_leap d) = ''.s''"

lemma leap_same [simp]: "\<not> g_leap_mutex d \<Longrightarrow> d\<lparr>g_leap_mutex := False\<rparr> = d"
  by simp

lemma init_ready:
  assumes "unlocked d"
  obtains d' where "leap_second_init d = Inr (0, d')" "leap_ready d'" "unlocked d'"
    "\<not> lp_event_scheduled (g_leap d')"
  using assms by (auto simp: leap_second_init_def with_g_leap_mutex_free unlocked_def leap_ready_def)

lemma end_of_minute:
  assumes "0 \<le> tv_sec ts"
  shows "leap_second_get_end_of_minute_time (Some ts) = tv_sec ts + (60 - tv_sec ts mod 60)"
  using assms by (simp add: leap_second_get_end_of_minute_time_def smod_pos_eq)

lemma schedule_eq:
  assumes "unlocked d" "leap_ready d" "\<not> lp_event_scheduled (g_leap d)" "0 \<le> tv_sec ts" "tv_sec ts \<le> now"
  shows "leap_second_schedule_event (Some ts) now dir d =
    Inr (0, upd_leap (\<lambda>l. l\<lparr>
       lp_pending_offset_us := (if dir = LEAP_SECOND_DIR_POSITIVE then 60000000 else - 60000000),
       lp_pending_leap_dir := dir,
       lp_event_time := tv_sec ts + (60 - tv_sec ts mod 60) + 60,
       lp_event_scheduled := True\<rparr>) d)"
proof -
  have m: "0 \<le> tv_sec ts mod 60" "tv_sec ts mod 60 < 60" by simp_all
  then have "tv_sec ts + (60 - tv_sec ts mod 60) - 60 \<le> now" "tv_sec ts + (60 - tv_sec ts mod 60) \<noteq> 0"
    using assms(4,5) by linarith+
  then show ?thesis
    using assms m unlockedD(2) [OF assms(1)]
    by (simp add: leap_second_schedule_event_def with_g_leap_mutex_free end_of_minute leap_ready_def Let_def)
qed

text \<open>
  C33: after initialisation, a leap second announced at any time is never scheduled for the
  end of the current minute: \<open>event_time\<close> is one minute after it, more than 60 and at
  most 120 seconds from the clock reading, and the pending correction is a whole minute
  (60000000 microseconds), not a second. This is the only branch the code can take,
  because the intended time, 60 seconds before the end of the minute, has always passed.
\<close>

theorem leap_event_is_a_minute_late_and_a_minute_long:
  assumes "unlocked d" "leap_second_init d = Inr (0, d0)" "0 \<le> tv_sec ts" "tv_sec ts \<le> now"
  shows "\<exists>d'. leap_second_schedule_event (Some ts) now dir d0 = Inr (0, d') \<and>
    lp_event_scheduled (g_leap d') \<and>
    tv_sec ts + 60 < lp_event_time (g_leap d') \<and> lp_event_time (g_leap d') \<le> tv_sec ts + 120 \<and>
    (lp_event_time (g_leap d') - 60) mod 60 = 0 \<and>
    \<bar>lp_pending_offset_us (g_leap d')\<bar> = 60000000"
proof -
  have d0: "leap_ready d0" "unlocked d0" "\<not> lp_event_scheduled (g_leap d0)"
    using init_ready [OF assms(1)] assms(2) by auto
  have "0 \<le> tv_sec ts mod 60" "tv_sec ts mod 60 < 60" by simp_all
  moreover have "(tv_sec ts - tv_sec ts mod 60) mod 60 = 0" by (simp add: minus_mod_eq_mult_div)
  then have "(tv_sec ts + (60 - tv_sec ts mod 60) + 60 - 60) mod 60 = 0"
    by (metis add_diff_cancel_right' add_diff_eq diff_add_eq mod_add_self2)
  ultimately show ?thesis
    unfolding schedule_eq [OF d0(2,1,3) assms(3,4)] by simp
qed

lemma leap_event_witness_init:
  obtains d0 where "leap_second_init initial_daemon = Inr (0, d0)"
  using init_ready [OF initial_daemon_unlocked] by blast

lemma leap_event_is_a_minute_late_and_a_minute_long_witness:
  "\<exists>d0 d'. leap_second_init initial_daemon = Inr (0, d0) \<and>
     leap_second_schedule_event (Some \<lparr>tv_sec = 1000, tv_nsec = 0\<rparr>) 1000 1 d0 = Inr (0, d') \<and>
     1060 < lp_event_time (g_leap d')"
proof -
  obtain d0 where d0: "leap_second_init initial_daemon = Inr (0, d0)"
    using leap_event_witness_init by blast
  show ?thesis
    using leap_event_is_a_minute_late_and_a_minute_long [OF initial_daemon_unlocked d0,
        of "\<lparr>tv_sec = 1000, tv_nsec = 0\<rparr>" 1000 1] d0
    by auto
qed

text \<open>
  A scheduled leap second is never applied by \<open>leap_second_check_and_apply\<close>: before it
  is due nothing happens, and once it is due the thread waits for the mutex it holds,
  because \<open>leap_second_apply_correction\<close> locks it again.
\<close>

theorem due_leap_second_deadlocks:
  assumes "unlocked d"
  shows "leap_second_check_and_apply kern clk now d =
    (if lp_event_scheduled (g_leap d) \<and> lp_event_time (g_leap d) \<le> now then Inl Deadlock
     else Inr (0, d))"
  using unlockedD(2) [OF assms]
  by (simp add: leap_second_check_and_apply_def leap_second_apply_correction_def
      with_g_leap_mutex_free with_g_leap_mutex_held)

lemma due_leap_second_deadlocks_witness:
  "leap_second_check_and_apply (\<lambda>_. 0) None 5 initial_daemon = Inr (0, initial_daemon)"
  using due_leap_second_deadlocks [OF initial_daemon_unlocked, of "\<lambda>_. 0" None 5]
  by (simp add: initial_daemon_def zero_leap_def)

text \<open>
  The check for leap second files either leaves scheduling alone or never returns. When
  it is time to look and the file for the date exists with a valid direction, the thread
  waits for its own mutex; in every other case it returns and no event is scheduled.
\<close>

theorem leap_file_found_deadlocks:
  assumes "unlocked d" "leap_ready d" "300 \<le> now - lp_last_check_time (g_leap d)"
    "date = Some (y, m, day)" "year = y + 1900" "month = m + 1" "year \<le> 9999"
    "name = take 255 (''/etc/ntpleap-'' @ padded 4 year @ padded 2 month @ padded 2 day @ ''.s'')"
  shows "leap_second_check_file leap_file clk now date d =
    (case leap_file name of
       Some (Direction dir) \<Rightarrow> if dir = 1 \<or> dir = 2 then Inl Deadlock else Inr (- 1, d)
     | Some _ \<Rightarrow> Inr (- 1, d)
     | None \<Rightarrow> Inr (0, upd_leap (\<lambda>l. l\<lparr>lp_last_check_time := now\<rparr>) d))"
proof -
  have name: "leap_second_get_file_name year month day 256 (d\<lparr>g_leap_mutex := True\<rparr>) = Some name"
    using assms(2,7,8) by (simp add: leap_second_get_file_name_def leap_ready_def)
  have sched: "leap_second_schedule_event clk now dir (d\<lparr>g_leap_mutex := True\<rparr>) = Inl Deadlock" for dir
    by (simp add: leap_second_schedule_event_def with_g_leap_mutex_held)
  show ?thesis
    using assms(2-6) unlockedD(2) [OF assms(1)] name sched
    by (auto simp: leap_second_check_file_def leap_second_get_current_date_def with_g_leap_mutex_free leap_ready_def
        split: option.split leap_dir_file.split)
qed

lemma leap_file_found_deadlocks_witness:
  "\<exists>d. leap_second_check_file (\<lambda>_. Some (Direction 1)) None 1000 (Some (124, 11, 31)) d = Inl Deadlock"
proof -
  obtain d0 where d0: "leap_second_init initial_daemon = Inr (0, d0)" "leap_ready d0" "unlocked d0"
    using init_ready [OF initial_daemon_unlocked] by blast
  then have "lp_last_check_time (g_leap d0) = 0"
    using unlockedD(2) [OF initial_daemon_unlocked]
    by (auto simp: leap_second_init_def with_g_leap_mutex_free)
  then show ?thesis
    using leap_file_found_deadlocks [OF d0(3,2) _ refl refl refl _ refl, of 1000 124 "\<lambda>_. Some (Direction 1)" None 11 31]
    by auto
qed

end
