(* ===== verification/Network.thy ===== *)
theory Network
  imports Cli ModeHandler
begin

section \<open>Addresses and sockets (network4.c, network6.c, socket.c)\<close>

text \<open>
  The address functions, and the creation and binding of sockets. Addresses and ports
  are in network order, as in \<open>sockaddr_in\<close>; an IPv6 address is its 16 bytes. The
  kernel is a parameter: \<open>sock_of\<close> is the descriptor \<open>socket\<close> gives for a family,
  \<open>bind_ok\<close> whether \<open>bind\<close> succeeds for a descriptor and a port, \<open>inet_pton\<close> and
  \<open>inet_ntop\<close> the conversions. What a function closes is the list of descriptors it
  passed to \<open>close\<close>, in order. Socket options are set and their failure only logged.
\<close>

datatype family = AF_INET | AF_INET6

record sockaddr_in =
  sin_port :: u16
  sin_addr :: u32

record sockaddr_in6 =
  sin6_port :: u16
  sin6_addr :: "u8 list"

subsection \<open>IPv4\<close>

definition network4_create_socket :: "(family \<Rightarrow> int) \<Rightarrow> int" where
  "network4_create_socket sock_of = (if sock_of AF_INET < 0 then - 1 else sock_of AF_INET)"

definition network4_bind_socket ::
    "(string \<Rightarrow> u32 option) \<Rightarrow> (int \<Rightarrow> u16 \<Rightarrow> bool) \<Rightarrow> int \<Rightarrow> string option \<Rightarrow> u16 \<Rightarrow> int \<times> int list" where
  "network4_bind_socket inet_pton bind_ok sock interface port =
     (let bad = (case interface of None \<Rightarrow> False
                 | Some s \<Rightarrow> s \<noteq> [] \<and> inet_pton s = None)
      in if bad then (- 1, [])
         else if \<not> bind_ok sock (htons port) then (- 1, [sock])
         else (0, []))"

definition network4_bind_to_port ::
    "(string \<Rightarrow> u32 option) \<Rightarrow> (int \<Rightarrow> u16 \<Rightarrow> bool) \<Rightarrow> int \<Rightarrow> u16 \<Rightarrow> int \<times> int list" where
  "network4_bind_to_port inet_pton bind_ok sock port = network4_bind_socket inet_pton bind_ok sock None port"

definition network4_parse_address ::
    "(string \<Rightarrow> u32 option) \<Rightarrow> string option \<Rightarrow> u16 \<Rightarrow> int \<times> sockaddr_in option" where
  "network4_parse_address inet_pton addr_str port =
     (case addr_str of
        None \<Rightarrow> (- 1, None)
      | Some s \<Rightarrow>
          (case inet_pton s of
             None \<Rightarrow> (- 1, Some \<lparr>sin_port = htons port, sin_addr = 0\<rparr>)
           | Some a \<Rightarrow> (0, Some \<lparr>sin_port = htons port, sin_addr = a\<rparr>)))"

definition network4_format_address ::
    "(u32 \<Rightarrow> string option) \<Rightarrow> sockaddr_in option \<Rightarrow> nat \<Rightarrow> nat \<times> string" where
  "network4_format_address inet_ntop addr buf_size =
     (case addr of
        None \<Rightarrow> (0, [])
      | Some a \<Rightarrow>
          if buf_size = 0 then (0, [])
          else (case inet_ntop (sin_addr a) of
                  None \<Rightarrow> (0, [])
                | Some s \<Rightarrow> (let t = take (buf_size - 1) s in (length t, t))))"

definition network4_is_loopback :: "sockaddr_in option \<Rightarrow> bool" where
  "network4_is_loopback addr =
     (case addr of None \<Rightarrow> False | Some a \<Rightarrow> drop_bit 24 (htonl (sin_addr a)) = 127)"

definition network4_is_multicast :: "sockaddr_in option \<Rightarrow> bool" where
  "network4_is_multicast addr =
     (case addr of None \<Rightarrow> False | Some a \<Rightarrow> drop_bit 28 (htonl (sin_addr a)) = 0xE)"

definition network4_addresses_equal :: "sockaddr_in option \<Rightarrow> sockaddr_in option \<Rightarrow> bool" where
  "network4_addresses_equal a b =
     (case (a, b) of
        (Some x, Some y) \<Rightarrow> sin_addr x = sin_addr y \<and> sin_port x = sin_port y
      | _ \<Rightarrow> False)"

definition network4_set_broadcast_addr ::
    "(string \<Rightarrow> u32 option) \<Rightarrow> string option \<Rightarrow> u16 \<Rightarrow> sockaddr_in" where
  "network4_set_broadcast_addr inet_pton broadcast_ip port =
     \<lparr>sin_port = htons port,
      sin_addr = (case broadcast_ip of
                    None \<Rightarrow> 0xFFFFFFFF
                  | Some s \<Rightarrow> if s = [] then 0xFFFFFFFF
                             else (case inet_pton s of None \<Rightarrow> 0xFFFFFFFF | Some a \<Rightarrow> a))\<rparr>"

subsection \<open>IPv6\<close>

definition network6_create_socket :: "(family \<Rightarrow> int) \<Rightarrow> int" where
  "network6_create_socket sock_of = (if sock_of AF_INET6 < 0 then - 1 else sock_of AF_INET6)"

definition network6_bind_socket ::
    "(int \<Rightarrow> u16 \<Rightarrow> bool) \<Rightarrow> int \<Rightarrow> string option \<Rightarrow> u16 \<Rightarrow> int \<times> int list" where
  "network6_bind_socket bind_ok sock interface port =
     (if \<not> bind_ok sock (htons port) then (- 1, [sock]) else (0, []))"

definition network6_parse_address ::
    "(string \<Rightarrow> u8 list option) \<Rightarrow> string option \<Rightarrow> u16 \<Rightarrow> int \<times> sockaddr_in6 option" where
  "network6_parse_address inet_pton6 addr_str port =
     (case addr_str of
        None \<Rightarrow> (- 1, None)
      | Some s \<Rightarrow>
          (case inet_pton6 s of
             None \<Rightarrow> (- 1, Some \<lparr>sin6_port = htons port, sin6_addr = replicate 16 0\<rparr>)
           | Some a \<Rightarrow> (0, Some \<lparr>sin6_port = htons port, sin6_addr = a\<rparr>)))"

definition network6_is_loopback :: "sockaddr_in6 option \<Rightarrow> bool" where
  "network6_is_loopback addr =
     (case addr of None \<Rightarrow> False | Some a \<Rightarrow> sin6_addr a = replicate 15 0 @ [1])"

definition network6_is_multicast :: "sockaddr_in6 option \<Rightarrow> bool" where
  "network6_is_multicast addr =
     (case addr of None \<Rightarrow> False | Some a \<Rightarrow> sin6_addr a ! 0 = 0xFF)"

definition network6_is_link_local :: "sockaddr_in6 option \<Rightarrow> bool" where
  "network6_is_link_local addr =
     (case addr of None \<Rightarrow> False
      | Some a \<Rightarrow> sin6_addr a ! 0 = 0xFE \<and> (sin6_addr a ! 1) AND 0xC0 = 0x80)"

definition network6_addresses_equal :: "sockaddr_in6 option \<Rightarrow> sockaddr_in6 option \<Rightarrow> bool" where
  "network6_addresses_equal a b =
     (case (a, b) of
        (Some x, Some y) \<Rightarrow> sin6_addr x = sin6_addr y \<and> sin6_port x = sin6_port y
      | _ \<Rightarrow> False)"

subsection \<open>The daemon's sockets\<close>

text \<open>Result: the descriptor or -1, the family it was asked for, and what was closed.\<close>

definition create_udp_socket ::
    "(family \<Rightarrow> int) \<Rightarrow> (string \<Rightarrow> u32 option) \<Rightarrow> (int \<Rightarrow> u16 \<Rightarrow> bool) \<Rightarrow> CliConfig \<Rightarrow> int \<Rightarrow>
     int \<times> family option \<times> int list" where
  "create_udp_socket sock_of inet_pton bind_ok cli port =
     (if port \<le> 0 \<or> 65535 < port then (- 1, None, [])
      else if family_preference cli = 1 then
        (let sock = network6_create_socket sock_of
         in if sock < 0 then (- 1, Some AF_INET6, [])
            else (let (ret, closed) = network6_bind_socket bind_ok sock (iface cli) (word_of_int port)
                  in if ret < 0 then (- 1, Some AF_INET6, closed @ (if 0 \<le> sock then [sock] else []))
                     else (sock, Some AF_INET6, closed)))
      else
        (let sock = network4_create_socket sock_of
         in if sock < 0 then (- 1, Some AF_INET, [])
            else (let (ret, closed) = network4_bind_socket inet_pton bind_ok sock (iface cli) (word_of_int port)
                  in if ret < 0 then (- 1, Some AF_INET, closed @ (if 0 \<le> sock then [sock] else []))
                     else (sock, Some AF_INET, closed))))"

definition get_sync_socket :: "(family \<Rightarrow> int) \<Rightarrow> CliConfig \<Rightarrow> int \<Rightarrow> int \<times> int" where
  "get_sync_socket sock_of cli sync_sock =
     (if 0 \<le> sync_sock then (sync_sock, sync_sock)
      else (let s = (if family_preference cli = 2 then network6_create_socket sock_of
                     else network4_create_socket sock_of)
            in if s < 0 then (- 1, s) else (s, s)))"

definition close_socket :: "int \<Rightarrow> int \<Rightarrow> int \<Rightarrow> int list" where
  "close_socket sync_sock tcp_sock sock =
     (if 0 \<le> sock \<and> sock \<noteq> sync_sock \<and> sock \<noteq> tcp_sock then [sock] else [])"

definition create_tcp_socket ::
    "(family \<Rightarrow> int) \<Rightarrow> (string \<Rightarrow> u32 option) \<Rightarrow> (int \<Rightarrow> u16 \<Rightarrow> bool) \<Rightarrow> (int \<Rightarrow> bool) \<Rightarrow> int \<Rightarrow>
     int \<times> int list" where
  "create_tcp_socket sock_of inet_pton bind_ok listen_ok port =
     (let sock = network4_create_socket sock_of
      in if sock < 0 then (- 1, [])
         else (let (ret, closed) = network4_bind_to_port inet_pton bind_ok sock (word_of_int port)
               in if ret < 0 then (- 1, closed @ [sock])
                  else if \<not> listen_ok sock then (- 1, closed @ [sock])
                  else (sock, closed)))"

subsection \<open>Properties\<close>

text \<open>
  The address tests see the host order of the stored address: loopback is 127.0.0.0/8
  and multicast is 224.0.0.0/4, for every address.
\<close>

theorem address_classes_exact:
  "network4_is_loopback (Some \<lparr>sin_port = p, sin_addr = htonl a\<rparr>) =
     (0x7F000000 \<le> a \<and> a \<le> 0x7FFFFFFF) \<and>
   network4_is_multicast (Some \<lparr>sin_port = p, sin_addr = htonl a\<rparr>) =
     (0xE0000000 \<le> a \<and> a \<le> 0xEFFFFFFF)"
proof -
  obtain u where u: "uint a = u" "0 \<le> u" "u < 4294967296" using uint_bounded [of a] by simp
  have "uint (drop_bit 24 a) = u div 16777216" "uint (drop_bit 28 a) = u div 268435456"
    by (simp_all add: drop_bit_eq_div uint_div u)
  then have "drop_bit 24 a = 127 \<longleftrightarrow> u div 16777216 = 127" "drop_bit 28 a = 0xE \<longleftrightarrow> u div 268435456 = 14"
    by (simp_all add: word_uint_eq_iff)
  then show ?thesis
    by (auto simp: network4_is_loopback_def network4_is_multicast_def word_le_def u)
qed

text \<open>
  The options \<open>-4\<close> and \<open>-6\<close> do the opposite of what they say: after \<open>-4\<close> the
  daemon's UDP socket is an IPv6 socket, and after \<open>-6\<close> an IPv4 socket. (config.c
  stores 1 and 2, which socket.c reads as IPv6-only and dual stack.)
\<close>

theorem address_family_options_swapped:
  "\<exists>c4 c6. parse_arguments [prog, ''-4''] default_cli = (0, c4) \<and>
     parse_arguments [prog, ''-6''] default_cli = (0, c6) \<and>
     fst (snd (create_udp_socket sock_of inet_pton bind_ok c4 123)) = Some AF_INET6 \<and>
     fst (snd (create_udp_socket sock_of inet_pton bind_ok c6 123)) = Some AF_INET"
proof -
  have "parse_arguments [prog, ''-4''] default_cli = (0, default_cli\<lparr>family_preference := 1\<rparr>)"
    "parse_arguments [prog, ''-6''] default_cli = (0, default_cli\<lparr>family_preference := 2\<rparr>)"
    by (simp_all add: parse_arguments_def parse_arg_def starts_def strn_eq_def)
      (simp_all add: default_cli_def)
  moreover have "fst (snd (create_udp_socket sock_of inet_pton bind_ok
      (default_cli\<lparr>family_preference := 1\<rparr>) 123)) = Some AF_INET6"
    by (simp add: create_udp_socket_def Let_def split_def)
  moreover have "fst (snd (create_udp_socket sock_of inet_pton bind_ok
      (default_cli\<lparr>family_preference := 2\<rparr>) 123)) = Some AF_INET"
    by (simp add: create_udp_socket_def Let_def split_def)
  ultimately show ?thesis by blast
qed

text \<open>
  When the kernel refuses to bind, \<open>create_udp_socket\<close> closes the same descriptor
  twice (once in the bind function and once itself), so a descriptor that another thread
  was given in between is closed under it.
\<close>

theorem failed_bind_closes_twice:
  assumes "\<forall>f. 0 \<le> sock_of f" "\<forall>s p. \<not> bind_ok s p" "iface cli = None" "0 < port" "port \<le> 65535"
  shows "\<exists>f. create_udp_socket sock_of inet_pton bind_ok cli port =
    (- 1, Some f, [sock_of f, sock_of f])"
  using assms
  by (auto simp: create_udp_socket_def network6_bind_socket_def network4_bind_socket_def
      network4_create_socket_def network6_create_socket_def Let_def not_less [symmetric])

lemma failed_bind_closes_twice_witness:
  "\<exists>f. create_udp_socket (\<lambda>_. 5) (\<lambda>_. None) (\<lambda>_ _. False) default_cli 123 = (- 1, Some f, [5, 5])"
  using failed_bind_closes_twice [of "\<lambda>_. 5" "\<lambda>_ _. False" default_cli 123 "\<lambda>_. None"]
  by (simp add: default_cli_def)

end
