(* ===== verification/Sync.thy ===== *)
theory Sync
  imports Frequency LeapSecond Network Packet
begin

section \<open>Synchronising with one server (sync_ntp_time, time_sync.c)\<close>

text \<open>
  \<open>sync_ntp_time\<close> from the request to the bookkeeping, in the stages of the code: send and
  receive (\<open>sync_ntp_time\<close>), the checks on the reply (\<open>sync_reply\<close>), the checks on delay
  and offset and the sample filter (\<open>sync_measure\<close>), and everything after the poll
  interval is adjusted (\<open>sync_apply\<close>, \<open>sync_record\<close>). What the kernel, the resolver, the
  clocks and the file system answer is in \<open>sync_env\<close>. The receive buffer has 1024 bytes; \<open>sy_stale\<close>
  is what its unused part holds, and \<open>sy_pkt0\<close> the uninitialised packet record.
\<close>

record sync_env =
  sy_sock :: "family \<Rightarrow> int"
  sy_errno :: bool
  sy_resolve :: "string \<Rightarrow> u32 option"
  sy_inet_pton :: "string \<Rightarrow> u32 option"
  sy_timeout_ok :: bool
  sy_send_ok :: bool
  sy_received :: "u8 list option"
  sy_stale :: "nat \<Rightarrow> u8"
  sy_pkt0 :: NtpPacket
  sy_t1 :: "timespec option"
  sy_t4 :: "timespec option"
  sy_clk :: "timespec option"
  sy_ts :: timespec
  sy_res :: "timespec option"
  sy_tv :: "(int \<times> int) option"
  sy_now :: int
  sy_kern :: "clock_cmd \<Rightarrow> int"
  sy_unsynced :: bool
  sy_leap_file :: "string \<Rightarrow> leap_dir_file option"
  sy_date :: "(nat \<times> nat \<times> nat) option"

abbreviation MAXDIST :: int where "MAXDIST \<equiv> 1000000"

definition fail_sync :: "daemon \<Rightarrow> (int \<times> daemon) run" where
  "fail_sync d = Inr (- 1, d)"

text \<open>\<open>pthread_mutex_unlock(&g_mutex)\<close> on its own.\<close>

definition unlock_g_mutex :: "daemon \<Rightarrow> daemon run" where
  "unlock_g_mutex d = (if g_mutex d then Inr (d\<lparr>g_mutex := False\<rparr>) else Inl Undefined)"

text \<open>The entry of the peer pool with this address and port has been heard of.\<close>

fun mark_reachable :: "string \<Rightarrow> string \<Rightarrow> int \<Rightarrow> PeerState list \<Rightarrow> PeerState list" where
  "mark_reachable ip port now [] = []"
| "mark_reachable ip port now (p # ps) =
     (if strn_eq 63 (peer_ip p) ip \<and> strn_eq 15 (peer_port p) port
      then p\<lparr>peer_reachable := True, peer_last_update := now\<rparr> # ps
      else p # mark_reachable ip port now ps)"

definition lose_sync :: "bool \<Rightarrow> daemon \<Rightarrow> (int \<times> daemon) run" where
  "lose_sync reset_stratum =
     with_g_mutex (\<lambda>d. Inr (- 1, (if reset_stratum then d\<lparr>g_local_stratum := 16\<rparr> else d)
                                   \<lparr>g_time_synced := False\<rparr>))"

subsection \<open>After a good measurement\<close>

text \<open>The system variables after a synchronisation; the jitter and the dispersion lock \<open>g_mutex\<close> again.\<close>

definition sync_record ::
    "fpu \<Rightarrow> sync_env \<Rightarrow> string \<Rightarrow> NtpTimestamp \<Rightarrow> u8 \<Rightarrow> u8 \<Rightarrow> u64 \<Rightarrow> int \<Rightarrow> daemon \<Rightarrow> (unit \<times> daemon) run" where
  "sync_record F E ip t4 li stratum delay_us offset_us =
     with_g_mutex (\<lambda>d.
       let d = d\<lparr>g_time_synced := stratum \<le> 15, g_local_stratum := stratum, g_last_sync_ts := t4,
                 g_local_ref_ts := t4, g_local_root_delay := ntp_u16_16_from_us delay_us\<rparr>;
           abs_off = word_of_int \<bar>offset_us\<bar> :: u64
       in bindR (ntp_offset_jitter_us_locked F d) (\<lambda>(jitter_us, d).
          bindR (update_root_dispersion F (sy_now E) (g_local_root_disp d) abs_off jitter_us d) (\<lambda>(disp, d).
          let d = d\<lparr>g_local_root_disp := disp, g_local_li := li\<rparr>
          in Inr ((), d\<lparr>g_local_ref_id :=
                 (if g_time_synced d \<and> 2 \<le> g_local_stratum d
                  then (case sy_inet_pton E ip of Some a \<Rightarrow> htonl a | None \<Rightarrow> 0x4C4F434C)
                  else 0x4C4F434C)\<rparr>))))"

text \<open>Clock accuracy and the correction of the clock.\<close>

definition sync_correct :: "fpu \<Rightarrow> sync_env \<Rightarrow> int \<Rightarrow> int \<Rightarrow> daemon \<Rightarrow> daemon run" where
  "sync_correct F E valid_count offset_us d =
     bindR (update_clock_accuracy F (sy_ts E) (sy_res E) (sy_now E) offset_us (g_local_poll d) d) (\<lambda>d.
     if 1 \<le> valid_count then
       bindR (apply_time_correction_slew_or_step (sy_kern E) (sy_clk E) offset_us d) (\<lambda>(_, d). Inr d)
     else Inr d)"

text \<open>Then the frequency, the system variables and the leap seconds.\<close>

definition sync_apply ::
    "fpu \<Rightarrow> sync_env \<Rightarrow> string \<Rightarrow> NtpTimestamp \<Rightarrow> u8 \<Rightarrow> u8 \<Rightarrow> int \<Rightarrow> u64 \<Rightarrow> int \<Rightarrow> daemon \<Rightarrow>
     (int \<times> daemon) run" where
  "sync_apply F E ip t4 li stratum valid_count delay_us offset_us d =
     bindR (sync_correct F E valid_count offset_us d) (\<lambda>d.
     bindR (if 1 \<le> valid_count then
              update_frequency_discipline F (sy_kern E) (sy_unsynced E) (sy_ts E) (sy_res E) (sy_now E)
                offset_us (g_local_poll d) d
            else Inr (0, d)) (\<lambda>(_, d).
     bindR (sync_record F E ip t4 li stratum delay_us offset_us d) (\<lambda>(_, d).
     bindR (leap_second_integration_check (sy_leap_file E) (sy_kern E) (sy_clk E) (sy_now E) (sy_date E) d)
       (\<lambda>(_, d). Inr (0, d)))))"

text \<open>What follows the adjustment of the poll interval, from the unlocking on.\<close>

definition unlock_and_apply ::
    "fpu \<Rightarrow> sync_env \<Rightarrow> string \<Rightarrow> NtpTimestamp \<Rightarrow> u8 \<Rightarrow> u8 \<Rightarrow> int \<Rightarrow> u64 \<Rightarrow> int \<Rightarrow> daemon \<Rightarrow>
     (int \<times> daemon) run" where
  "unlock_and_apply F E ip t4 li stratum valid_count delay_us offset_us d =
     bindR (unlock_g_mutex d) (\<lambda>d. sync_apply F E ip t4 li stratum valid_count delay_us offset_us d)"

subsection \<open>Delay, offset and filter\<close>

text \<open>
  The three functions from the request to the filter take what follows the adjustment of the poll interval as
  an argument \<open>next\<close>, which in the program is \<open>unlock_and_apply\<close>.
\<close>

type_synonym sync_next = "NtpTimestamp \<Rightarrow> u8 \<Rightarrow> u8 \<Rightarrow> int \<Rightarrow> u64 \<Rightarrow> int \<Rightarrow> daemon \<Rightarrow> (int \<times> daemon) run"

definition measure_then ::
    "sync_next \<Rightarrow> sync_env \<Rightarrow> NtpTimestamp \<Rightarrow> u8 \<Rightarrow> NtpPacket \<Rightarrow> u64 \<Rightarrow> int \<Rightarrow> daemon \<Rightarrow> (int \<times> daemon) run" where
  "measure_then next E t4 li pkt delay_us offset_us d =
     (let peer_stratum = pkt_stratum pkt; stratum = ntp_local_stratum_from_peer peer_stratum
      in if peer_stratum = 0 \<or> 15 < peer_stratum then lose_sync True d
      else
        bindR (i64 \<bar>offset_us\<bar>) (\<lambda>abs_offset_us.
        if MAXDIST < abs_offset_us then lose_sync True d
        else if word_of_int (MAXDIST * 10) < delay_us then lose_sync False d
        else
          bindR (compute_system_offset (Some [offset_us]) 1 True) (\<lambda>_.
          bindR (case sy_tv E of
                   None \<Rightarrow> Inr ((), d)
                 | Some (s, u) \<Rightarrow>
                     marx_add_sample_us (word_of_int s * 1000000000 + word_of_int u * 1000) delay_us offset_us d)
            (\<lambda>(_, d).
          bindR (marx_filter_outliers (int (g_sample_count d)) 3 d) (\<lambda>(valid_count, d).
          if valid_count = 0 then lose_sync False d
          else next t4 li stratum valid_count delay_us offset_us
                 (d\<lparr>g_local_poll :=
                   adjust_poll_interval (g_local_poll d) (sint (pkt_poll pkt)) delay_us offset_us\<rparr>))))))"

definition sync_measure ::
    "fpu \<Rightarrow> sync_env \<Rightarrow> string \<Rightarrow> NtpTimestamp \<Rightarrow> u8 \<Rightarrow> NtpPacket \<Rightarrow> u64 \<Rightarrow> int \<Rightarrow> daemon \<Rightarrow> (int \<times> daemon) run" where
  "sync_measure F E ip t4 li pkt delay_us offset_us d =
     measure_then (unlock_and_apply F E ip) E t4 li pkt delay_us offset_us d"

lemmas sync_measure_code = sync_measure_def [unfolded measure_then_def unlock_and_apply_def]

subsection \<open>The reply\<close>

definition reply_then ::
    "sync_next \<Rightarrow> sync_env \<Rightarrow> NtpTimestamp \<Rightarrow> u8 list \<Rightarrow> daemon \<Rightarrow> (int \<times> daemon) run" where
  "reply_then next E t1 bs d =
     (let t4 = ntp_timestamp_now (sy_t4 E); buffer = bs @ map (sy_stale E) [length bs..<1024]
      in bindR (parse_ntp_packet (Some buffer) (length bs) (Some (sy_pkt0 E)) (g_ido_state d)) (\<lambda>(ok, p, g).
         let d = d\<lparr>g_ido_state := g\<rparr>; pkt = the p; li = leap_of (pkt_li_vn_mode pkt)
         in if \<not> ok then fail_sync d
         else
           bindR (handle_leap_indicator (sy_clk E) (sy_now E) li d) (\<lambda>(skip, d).
           if skip then fail_sync d
           else if mode_of (pkt_li_vn_mode pkt) \<noteq> 4 then fail_sync d
           else if ntp_is_kod (Some pkt) then fail_sync d
           else if pkt_orig_ts pkt \<noteq> t1 then fail_sync d
           else if pkt_xmit_ts pkt = zero_ts then fail_sync d
           else
             bindR (calculate_delay_offset (Some t1) (Some (pkt_recv_ts pkt)) (Some (pkt_xmit_ts pkt)) (Some t4))
               (\<lambda>m. case m of
                  None \<Rightarrow> fail_sync d
                | Some (delay_us, offset_us) \<Rightarrow> measure_then next E t4 li pkt delay_us offset_us d))))"

definition sync_reply ::
    "fpu \<Rightarrow> sync_env \<Rightarrow> string \<Rightarrow> NtpTimestamp \<Rightarrow> u8 list \<Rightarrow> daemon \<Rightarrow> (int \<times> daemon) run" where
  "sync_reply F E ip t1 bs d = reply_then (unlock_and_apply F E ip) E t1 bs d"

lemmas sync_reply_code = sync_reply_def [unfolded reply_then_def, folded sync_measure_def]

text \<open>\<open>None\<close> for a null pointer. \<open>close_socket\<close> leaves the cached socket open.\<close>

definition exchange_then ::
    "(string \<Rightarrow> sync_next) \<Rightarrow> sync_env \<Rightarrow> string option \<Rightarrow> string option \<Rightarrow> daemon \<Rightarrow> (int \<times> daemon) run" where
  "exchange_then next E ip port d =
     (case (ip, port) of
        (Some ip, Some port) \<Rightarrow>
          (let (sock, cached) = get_sync_socket (sy_sock E) (g_cli d) (g_sync_sock d);
               d = d\<lparr>g_sync_sock := cached\<rparr>;
               (port_num, range_error, _) = strtoll port
           in if sock < 0 then fail_sync d
              else if port_num < 1 \<or> 65535 < port_num \<or> range_error \<or> sy_errno E then fail_sync d
              else (case sy_resolve E ip of
                None \<Rightarrow> fail_sync d
              | Some _ \<Rightarrow>
                  if \<not> sy_timeout_ok E then fail_sync d
                  else
                    bindR (create_ntp_request (Some (replicate 48 0)) (byte_of (g_local_poll d))
                             (byte_of (g_local_precision d)) (sy_t1 E)) (\<lambda>(request, t1).
                    if \<not> sy_send_ok E then fail_sync d
                    else (case sy_received E of
                      None \<Rightarrow> fail_sync d
                    | Some bytes \<Rightarrow>
                        (let bs = take 1024 bytes
                         in if bs = [] then fail_sync d
                            else
                              bindR (with_g_mutex (\<lambda>d. Inr ((), d\<lparr>g_peer_pool :=
                                       mark_reachable ip port (sy_now E) (g_peer_pool d)\<rparr>)) d)
                                (\<lambda>(_, d). reply_then (next ip) E (the t1) bs d))))))
      | _ \<Rightarrow> fail_sync d)"

definition sync_ntp_time ::
    "fpu \<Rightarrow> sync_env \<Rightarrow> string option \<Rightarrow> string option \<Rightarrow> daemon \<Rightarrow> (int \<times> daemon) run" where
  "sync_ntp_time F E ip port d = exchange_then (unlock_and_apply F E) E ip port d"

lemmas sync_ntp_time_code = sync_ntp_time_def [unfolded exchange_then_def, folded sync_reply_def]

subsection \<open>What a synchronisation leaves alone\<close>

text \<open>
  \<open>quiet d d'\<close>: no command has gone to the clock, no synchronisation has been recorded
  and \<open>g_mutex\<close> is free.
\<close>

definition quiet :: "daemon \<Rightarrow> daemon \<Rightarrow> bool" where
  "quiet d d' \<longleftrightarrow> clock_cmds d' = clock_cmds d \<and> g_last_sync_ts d' = g_last_sync_ts d \<and>
     (g_time_synced d' \<longrightarrow> g_time_synced d) \<and> g_mode d' = g_mode d \<and> g_servers d' = g_servers d \<and>
     g_cli d' = g_cli d \<and> g_clock_ctx d' = g_clock_ctx d \<and> \<not> g_mutex d'"

lemma quiet_trans: "quiet d d1 \<Longrightarrow> quiet d1 d2 \<Longrightarrow> quiet d d2"
  by (auto simp: quiet_def)

lemma quiet_refl: "\<not> g_mutex d \<Longrightarrow> quiet d d"
  by (simp add: quiet_def)

text \<open>The sample filter changes the samples only.\<close>

lemma marx_add_frame:
  assumes "marx_add_sample_us ts dl off s = Inr (u, s')"
  shows "\<exists>xs n. s' = s\<lparr>g_samples := xs, g_sample_count := n\<rparr> \<and> \<not> g_mutex s"
proof (cases "g_mutex s")
  case False
  then have "s\<lparr>g_mutex := False\<rparr> = s" by simp
  then show ?thesis
    using assms False
    by (cases s) (auto simp: marx_add_sample_us_def with_g_mutex_def with_mutex_def split: if_splits)
qed (use assms in \<open>simp add: marx_add_sample_us_def with_g_mutex_held\<close>)

lemma marx_remove_frame:
  assumes "marx_remove_sample i s = Inr (u, s')"
  shows "\<exists>xs n. s' = s\<lparr>g_samples := xs, g_sample_count := n\<rparr>"
  using assms
  by (cases s) (auto simp: marx_remove_sample_def with_g_mutex_def with_mutex_def Let_def split: if_splits)

lemma filter_loop_frame:
  "filter_loop th is f s = Inr (r, s') \<Longrightarrow> \<exists>xs n. s' = s\<lparr>g_samples := xs, g_sample_count := n\<rparr>"
proof (induction th "is" f s rule: filter_loop.induct)
  case (1 th f s)
  then show ?case by (cases s) auto
next
  case (2 th i "is" f s)
  show ?case
  proof (cases "smp_delay (g_samples s ! i) \<le> th")
    case True
    let ?s = "if f \<noteq> i then s\<lparr>g_samples := (g_samples s)[f := g_samples s ! i]\<rparr> else s"
    obtain xs n where "s' = ?s\<lparr>g_samples := xs, g_sample_count := n\<rparr>" using 2 True by auto
    then show ?thesis by (intro exI [of _ xs] exI [of _ n]) simp
  next
    case False
    then obtain u t where t: "marx_remove_sample (int i) s = Inr (u, t)" "filter_loop th is f t = Inr (r, s')"
      using "2.prems" by (auto simp: bindR_eq_Inr_iff)
    obtain xs n where "s' = t\<lparr>g_samples := xs, g_sample_count := n\<rparr>"
      using "2.IH"(2) [OF False t(2)] by blast
    moreover obtain ys m where "t = s\<lparr>g_samples := ys, g_sample_count := m\<rparr>"
      using marx_remove_frame [OF t(1)] by blast
    ultimately show ?thesis by auto
  qed
qed

lemma marx_filter_frame:
  assumes "marx_filter_outliers c k s = Inr (r, s')"
  shows "\<exists>xs n. s' = s\<lparr>g_samples := xs, g_sample_count := n\<rparr>"
proof (cases "c < 3")
  case True
  then show ?thesis using assms by (cases s) (auto simp: marx_filter_outliers_def)
next
  case False
  then show ?thesis
    using assms by (auto simp: marx_filter_outliers_def Let_def bindR_eq_Inr_iff dest!: filter_loop_frame)
qed

lemma marx_filter_nonneg:
  "marx_filter_outliers c k s = Inr (r, s') \<Longrightarrow> 0 \<le> c \<Longrightarrow> 0 \<le> r"
  by (auto simp: marx_filter_outliers_def Let_def bindR_eq_Inr_iff split: if_splits)

lemma lose_sync_quiet: "lose_sync b d = Inr (r, d') \<Longrightarrow> r = - 1 \<and> quiet d d'"
  by (auto simp: lose_sync_def with_g_mutex_def with_mutex_def quiet_def split: if_splits)

text \<open>Leap second scheduling changes \<open>g_leap\<close> only.\<close>

lemma schedule_frame:
  "leap_second_schedule_event clk now dir d = Inr (r, d') \<Longrightarrow> \<exists>l. d' = d\<lparr>g_leap := l\<rparr>"
  by (cases d) (auto simp: leap_second_schedule_event_def with_g_leap_mutex_def with_mutex_def Let_def
      split: if_splits)

lemma ido_untouched:
  assumes "parse_ntp_packet (Some buf) sz (Some p0) g = Inr (ok, p, g')"
  shows "g' = g"
  using assms by (simp add: parse_ntp_packet_eq split: if_splits)

subsection \<open>Invariants of a synchronisation\<close>

text \<open>
  A piece of code with the continuation \<open>next\<close> as argument gets stuck before it is called, fails with \<open>I\<close>
  before it is called, or calls it, at the end and with \<open>I\<close>; which of these, does not depend on \<open>next\<close>.
\<close>

definition gets_to :: "(daemon \<Rightarrow> bool) \<Rightarrow> ((string \<Rightarrow> sync_next) \<Rightarrow> (int \<times> daemon) run) \<Rightarrow> bool" where
  "gets_to I f \<longleftrightarrow> (\<exists>e. \<forall>N. f N = Inl e) \<or> (\<exists>d. I d \<and> (\<forall>N. f N = Inr (- 1, d))) \<or>
     (\<exists>ip t4 li stratum valid delay off u. 1 \<le> valid \<and> I u \<and> (\<forall>N. f N = N ip t4 li stratum valid delay off u))"

lemma gets_to_next: "I u \<Longrightarrow> 1 \<le> valid \<Longrightarrow> gets_to I (\<lambda>N. N ip t4 li stratum valid delay off u)"
  unfolding gets_to_def by blast

lemma gets_to_if: "(b \<Longrightarrow> gets_to I f) \<Longrightarrow> (\<not> b \<Longrightarrow> gets_to I g) \<Longrightarrow> gets_to I (\<lambda>N. if b then f N else g N)"
  by (cases b) simp_all

lemma gets_to_option:
  "(x = None \<Longrightarrow> gets_to I f) \<Longrightarrow> (\<And>y. x = Some y \<Longrightarrow> gets_to I (\<lambda>N. g N y)) \<Longrightarrow>
    gets_to I (\<lambda>N. case x of None \<Rightarrow> f N | Some y \<Rightarrow> g N y)"
  by (cases x) simp_all

lemma gets_to_bindR: "(\<And>x. m = Inr x \<Longrightarrow> gets_to I (\<lambda>N. k N x)) \<Longrightarrow> gets_to I (\<lambda>N. bindR m (k N))"
  by (cases m) (auto simp: gets_to_def)

lemma gets_toD:
  assumes "gets_to I f" "f N = Inr (r, d')"
  shows "r = - 1 \<and> I d' \<or>
    (\<exists>ip t4 li stratum valid delay off u. 1 \<le> valid \<and> I u \<and> N ip t4 li stratum valid delay off u = Inr (r, d'))"
  using assms(1) unfolding gets_to_def
proof (elim disjE exE conjE)
  fix ip t4 li stratum valid delay off u
  assume "1 \<le> valid" "I u" "\<forall>N. f N = N ip t4 li stratum valid delay off u"
  then have "N ip t4 li stratum valid delay off u = Inr (r, d')" using assms(2) by simp
  with \<open>1 \<le> valid\<close> \<open>I u\<close> show ?thesis by blast
qed (use assms(2) in auto)

text \<open>
  What a property of the daemon has to survive to survive \<open>sync_ntp_time\<close>: the few changes that a
  synchronisation makes before it fails. It is shown once here that there are no others; a property
  that is to be an invariant need only be checked against these laws.
\<close>

locale sync_frame =
  fixes I :: "daemon \<Rightarrow> bool"
  assumes mutex_free: "I d \<Longrightarrow> \<not> g_mutex d"
    and keeps_sock: "I d \<Longrightarrow> I (d\<lparr>g_sync_sock := k\<rparr>)"
    and keeps_pool: "I d \<Longrightarrow> I (d\<lparr>g_peer_pool := mark_reachable ip port now (g_peer_pool d)\<rparr>)"
    and keeps_schedule: "I d \<Longrightarrow> leap_second_schedule_event clk now dir d = Inr (r, d') \<Longrightarrow> I d'"
    and keeps_add: "I d \<Longrightarrow> marx_add_sample_us t dl off d = Inr (u, d') \<Longrightarrow> I d'"
    and keeps_filter: "I d \<Longrightarrow> marx_filter_outliers c k d = Inr (r, d') \<Longrightarrow> I d'"
    and keeps_lost: "I d \<Longrightarrow> lose_sync b d = Inr (r, d') \<Longrightarrow> I d'"
    and keeps_poll: "I d \<Longrightarrow> I (d\<lparr>g_local_poll := k\<rparr>)"
begin

lemma keeps_leap_indicator:
  assumes "I d" "handle_leap_indicator clk now li d = Inr (b, d')"
  shows "I d'"
  using assms keeps_schedule by (auto simp: handle_leap_indicator_def bindR_eq_Inr_iff split: if_splits)

lemma failing: "I d \<Longrightarrow> gets_to I (\<lambda>N. fail_sync d)"
  by (auto simp: gets_to_def fail_sync_def)

lemma losing:
  assumes "I d"
  shows "gets_to I (\<lambda>N. lose_sync b d)"
proof (cases "lose_sync b d")
  case (Inr x)
  then have "fst x = - 1"
    by (cases x) (auto simp: lose_sync_def with_g_mutex_def with_mutex_def split: if_splits)
  then show ?thesis using keeps_lost [OF assms, of b "fst x" "snd x"] Inr by (cases x) (auto simp: gets_to_def)
qed (auto simp: gets_to_def)

text \<open>Every synchronisation fails and keeps the property, or gets as far as \<open>next\<close> with it.\<close>

lemma measure_gets_to:
  assumes "I d"
  shows "gets_to I (\<lambda>N. measure_then (N ip) E t4 li pkt delay off d)"
proof -
  define add where "add = (case sy_tv E of None \<Rightarrow> Inr ((), d)
      | Some (s, u) \<Rightarrow> marx_add_sample_us (word_of_int s * 1000000000 + word_of_int u * 1000) delay off d)"
  have added: "I (snd x)" if "add = Inr x" for x
    using that assms keeps_add by (cases x) (auto simp: add_def split: option.splits)
  have filtered: "I (snd y)" "fst y \<noteq> 0 \<Longrightarrow> 1 \<le> fst y"
    if "add = Inr x" "marx_filter_outliers (int n) 3 (snd x) = Inr y" for x n y
    using keeps_filter [OF added [OF that(1)], of "int n" 3 "fst y" "snd y"]
      marx_filter_nonneg [of "int n" 3 "snd x" "fst y" "snd y"] that(2)
    by simp_all
  show ?thesis
    unfolding measure_then_def Let_def add_def [symmetric]
    unfolding split_def
    by (intro gets_to_if gets_to_bindR losing gets_to_next keeps_poll assms) (erule (2) filtered | erule (1) filtered)+
qed

lemma reply_gets_to:
  assumes "I d"
  shows "gets_to I (\<lambda>N. reply_then (N ip) E t1 bs d)"
proof -
  have same: "d\<lparr>g_ido_state := snd (snd x)\<rparr> = d"
    if "parse_ntp_packet (Some (bs @ map (sy_stale E) [length bs..<1024])) (length bs)
      (Some (sy_pkt0 E)) (g_ido_state d) = Inr x" for x :: "bool \<times> NtpPacket option \<times> IdoState"
    using that ido_untouched by (cases x) auto
  have leaped: "I (snd x)" if "handle_leap_indicator (sy_clk E) (sy_now E) li d = Inr x" for li x
    using that keeps_leap_indicator [OF assms, of _ _ _ "fst x" "snd x"] by simp
  show ?thesis
    unfolding reply_then_def Let_def split_def
    by (intro gets_to_bindR, simp only: same,
      intro gets_to_if gets_to_bindR gets_to_option failing measure_gets_to assms, (erule leaped)+)
qed

lemma exchange_gets_to:
  assumes "I d"
  shows "gets_to I (\<lambda>N. exchange_then N E ip port d)"
proof -
  obtain sock cached where s: "get_sync_socket (sy_sock E) (g_cli d) (g_sync_sock d) = (sock, cached)" by fastforce
  define d0 where "d0 = d\<lparr>g_sync_sock := cached\<rparr>"
  have i0: "I d0" using assms(1) keeps_sock by (simp add: d0_def)
  obtain req t1 where c: "create_ntp_request (Some (replicate 48 0)) (byte_of (g_local_poll d0))
      (byte_of (g_local_precision d0)) (sy_t1 E) = Inr (Some req, Some t1)"
    by (simp add: create_ntp_request_eq)
  have heard: "with_g_mutex (\<lambda>d. Inr ((), d\<lparr>g_peer_pool := mark_reachable i p (sy_now E) (g_peer_pool d)\<rparr>)) d0
      = Inr ((), d0\<lparr>g_peer_pool := mark_reachable i p (sy_now E) (g_peer_pool d0)\<rparr>)" for i p
  proof -
    have "d0\<lparr>g_mutex := False\<rparr> = d0" using mutex_free [OF i0] by simp
    then show ?thesis using mutex_free [OF i0] by (simp add: with_g_mutex_def with_mutex_def)
  qed
  show ?thesis
  proof (cases "\<exists>i p. ip = Some i \<and> port = Some p")
    case True
    then obtain i p where ip: "ip = Some i" "port = Some p" by blast
    obtain n range rest where p: "strtoll p = (n, range, rest)" by (cases "strtoll p")
    show ?thesis
      unfolding exchange_then_def ip split_conv option.case s Let_def p
      unfolding d0_def [symmetric] c bindR_simps heard split_conv option.sel
      by (intro gets_to_if gets_to_option failing reply_gets_to keeps_pool i0)
  next
    case False
    then have "exchange_then N E ip port d = fail_sync d" for N
      by (auto simp: exchange_then_def split: option.split)
    then show ?thesis using failing [OF assms] by simp
  qed
qed

lemma exchange_then_cases:
  assumes "I d" "exchange_then N E ip port d = Inr (r, d')"
  shows "r = - 1 \<and> I d' \<or>
    (\<exists>ip t4 li stratum valid delay off u. 1 \<le> valid \<and> I u \<and> N ip t4 li stratum valid delay off u = Inr (r, d'))"
  using gets_toD [OF exchange_gets_to [OF assms(1)] assms(2)] .

text \<open>In the program \<open>next\<close> begins by unlocking a mutex that is not held, so only the failures return.\<close>

lemma sync_ntp_time_keeps:
  assumes "I d" "sync_ntp_time F E ip port d = Inr (r, d')"
  shows "r = - 1 \<and> I d'"
proof -
  have "unlock_and_apply F E ip t4 li stratum valid delay off u \<noteq> Inr x" if "I u" for ip t4 li stratum valid delay off u x
    using mutex_free [OF that] by (simp add: unlock_and_apply_def unlock_g_mutex_def)
  then show ?thesis using exchange_then_cases [OF assms(1) assms(2) [unfolded sync_ntp_time_def]] by blast
qed

end

text \<open>Being quiet since a given state is such a property.\<close>

interpretation sq: sync_frame "quiet d0" for d0
proof (unfold_locales, goal_cases)
  case (4 d clk now dir r d')
  then show ?case using schedule_frame [OF 4(2)] by (auto simp: quiet_def)
next
  case (5 d t dl off u d')
  then show ?case using marx_add_frame [OF 5(2)] by (auto simp: quiet_def)
next
  case (6 d c k r d')
  then show ?case using marx_filter_frame [OF 6(2)] by (auto simp: quiet_def)
next
  case (7 d b r d')
  then show ?case using lose_sync_quiet [of b d r d'] quiet_trans by blast
qed (simp_all add: quiet_def)

lemma sync_ntp_time_quiet:
  assumes "\<not> g_mutex d" "sync_ntp_time F E ip port d = Inr (r, d')"
  shows "r = - 1 \<and> quiet d d'"
  using sq.sync_ntp_time_keeps [OF quiet_refl [OF assms(1)] assms(2)] .

subsection \<open>Properties\<close>

text \<open>
  C12: a synchronisation never succeeds. Whatever the server, the network, the clocks and
  the kernel answer, if \<open>sync_ntp_time\<close> returns at all then it returns -1, it has sent no
  command to the clock, recorded no time of synchronisation, and not marked the daemon
  synchronised. (A reply that passes every check ends in the unlocking of a mutex that is
  not held, see \<open>good_reply_is_undefined\<close>.)
\<close>

theorem sync_never_succeeds:
  assumes "\<not> g_mutex d" "sync_ntp_time F E ip port d = Inr (r, d')"
  shows "r = - 1 \<and> clock_cmds d' = clock_cmds d \<and> g_last_sync_ts d' = g_last_sync_ts d \<and>
    (g_time_synced d' \<longrightarrow> g_time_synced d) \<and> \<not> g_mutex d'"
  using sync_ntp_time_quiet [OF assms] by (simp add: quiet_def)

text \<open>An environment in which everything works and a server answers with the given bytes.\<close>

definition good_env :: "u8 list option \<Rightarrow> sync_env" where
  "good_env bytes =
     \<lparr>sy_sock = (\<lambda>_. 5), sy_errno = False, sy_resolve = (\<lambda>_. Some 0x0100007F),
      sy_inet_pton = (\<lambda>_. Some 0x0100007F), sy_timeout_ok = True, sy_send_ok = True,
      sy_received = bytes, sy_stale = (\<lambda>_. 0), sy_pkt0 = zero_packet,
      sy_t1 = Some \<lparr>tv_sec = 1700000000, tv_nsec = 0\<rparr>,
      sy_t4 = Some \<lparr>tv_sec = 1700000000, tv_nsec = 20000000\<rparr>,
      sy_clk = Some \<lparr>tv_sec = 1700000000, tv_nsec = 20000000\<rparr>,
      sy_ts = \<lparr>tv_sec = 1700000000, tv_nsec = 20000000\<rparr>, sy_res = Some \<lparr>tv_sec = 0, tv_nsec = 1\<rparr>,
      sy_tv = Some (1700000000, 20000), sy_now = 1700000000, sy_kern = (\<lambda>_. 0), sy_unsynced = False,
      sy_leap_file = (\<lambda>_. None), sy_date = None\<rparr>"

lemma sync_never_succeeds_witness:
  "\<exists>d'. sync_ntp_time exact_fpu (good_env None) (Some ''127.0.0.1'') (Some ''123'') initial_daemon = Inr (- 1, d') \<and>
     clock_cmds d' = []"
proof -
  have p: "strtoll ''123'' = (123, False, [])"
    by (simp add: strtoll_def scan_number_def skip_space_def is_space_def is_digit_def
      digits_val_def digit_val_def)
  have c: "clock_cmds initial_daemon = []" "g_sync_sock initial_daemon = - 1" "\<not> g_mutex initial_daemon"
    "family_preference (g_cli initial_daemon) = 0"
    by (simp_all add: initial_daemon_def default_cli_def)
  have "sync_ntp_time exact_fpu (good_env None) (Some ''127.0.0.1'') (Some ''123'') initial_daemon =
      Inr (- 1, initial_daemon\<lparr>g_sync_sock := 5\<rparr>)"
    by (simp add: sync_ntp_time_code get_sync_socket_def network4_create_socket_def p c good_env_def
        create_ntp_request_eq fail_sync_def)
  from sync_never_succeeds [OF c(3) this] this show ?thesis by (auto simp: c)
qed

text \<open>
  What follows the check of the samples never returns, in any state and whatever the
  unlocking before it does: it reaches \<open>update_frequency_discipline\<close>, or the jitter under
  \<open>g_mutex\<close>, and waits there for a mutex that it holds itself.
\<close>

theorem sync_apply_never_returns:
  "\<not> returns (sync_apply F E ip t4 li stratum valid_count delay off d)"
proof -
  have rec: "\<not> returns (sync_record F E ip t4 li stratum delay off x)" for x
    unfolding sync_record_def ntp_offset_jitter_us_locked_def with_g_mutex_def
    by (simp add: Let_def with_mutex_def)
  have "update_frequency_discipline F kern u ts res now off poll x = Inl Deadlock" for kern u ts res now poll x
    unfolding update_frequency_discipline_def ntp_offset_jitter_us_locked_def with_g_mutex_def
    by (rule gmx.nested_deadlocks)
  then show ?thesis
    using rec by (auto simp: sync_apply_def sync_correct_def returns_bindR bindR_eq_Inr_iff returns_iff split: if_splits)
qed

lemma one_offset: "compute_system_offset (Some [off]) 1 True = Inr (word_of_int (max (- 128) (min 127 off)) AND 0xFF, Some 0)"
  by (simp add: compute_system_offset_def sorted_copy_def majority_vote_def qsort_int64_def
      is_false_ticker_def abs64_def in_i64_def max_def min_def Let_def)

lemma measure_good:
  assumes "unlocked d" "g_sample_count d < 2" "1 \<le> pkt_stratum pkt" "pkt_stratum pkt \<le> 15"
    "\<bar>off\<bar> \<le> MAXDIST" "delay \<le> 10000000" "sy_tv E \<noteq> None"
  shows "\<exists>u. measure_then N E t4 li pkt delay off d =
      N t4 li (ntp_local_stratum_from_peer (pkt_stratum pkt)) (int (g_sample_count d + 1)) delay off u \<and>
    unlocked u \<and> clock_cmds u = clock_cmds d"
proof -
  obtain s u where tv: "sy_tv E = Some (s, u)" using assms(7) by auto
  obtain d1 where d1: "marx_add_sample_us (word_of_int s * 1000000000 + word_of_int u * 1000) delay off d = Inr ((), d1)"
    "g_sample_count d1 = g_sample_count d + 1" "\<not> g_mutex d1"
    using marx_add_eq [of d] unlockedD(1) [OF assms(1)] assms(2) by simp
  have u: "unlocked d1" "clock_cmds d1 = clock_cmds d"
    using marx_add_frame [OF d1(1)] assms(1) by (auto simp: unlocked_def)
  have f: "marx_filter_outliers (int (g_sample_count d1)) 3 d1 = Inr (int (g_sample_count d1), d1)"
    using assms(2) d1(2) by (simp add: marx_filter_outliers_def)
  let ?u = "d1\<lparr>g_local_poll := adjust_poll_interval (g_local_poll d1) (sint (pkt_poll pkt)) delay off\<rparr>"
  have "pkt_stratum pkt \<noteq> 0" "\<not> 15 < pkt_stratum pkt" using assms(3,4) by auto
  moreover have "in_i64 \<bar>off\<bar>" using assms(5) by (simp add: in_i64_iff)
  moreover have "\<not> 10000000 < delay" using assms(6) by simp
  ultimately have "measure_then N E t4 li pkt delay off d =
      N t4 li (ntp_local_stratum_from_peer (pkt_stratum pkt)) (int (g_sample_count d + 1)) delay off ?u"
    using assms(5) d1 f by (simp add: measure_then_def tv one_offset)
  moreover have "unlocked ?u" "clock_cmds ?u = clock_cmds d" using u by (simp_all add: unlocked_def)
  ultimately show ?thesis by blast
qed

lemma sync_measure_good:
  assumes "unlocked d" "g_sample_count d < 2" "1 \<le> pkt_stratum pkt" "pkt_stratum pkt \<le> 15"
    "\<bar>off\<bar> \<le> MAXDIST" "delay \<le> 10000000" "sy_tv E \<noteq> None"
  shows "sync_measure F E ip t4 li pkt delay off d = Inl Undefined"
  using measure_good [OF assms, of "unlock_and_apply F E ip" t4 li]
  by (auto simp: sync_measure_def unlock_and_apply_def unlock_g_mutex_def unlocked_def)

text \<open>A 48-byte reply that the parser accepts, up to the checks on its origin.\<close>

lemma reply_parse:
  assumes "\<not> ntp_is_kod (Some pkt0)" "accepted q"
  shows "\<exists>p. parse_ntp_packet (Some (hdr_bytes q @ rest)) 48 (Some pkt0) g = Inr (True, Some p, g) \<and>
    pkt_li_vn_mode p = pkt_li_vn_mode q \<and> pkt_stratum p = pkt_stratum q \<and> pkt_poll p = pkt_poll q \<and>
    pkt_orig_ts p = pkt_orig_ts q \<and> pkt_recv_ts p = pkt_recv_ts q \<and> pkt_xmit_ts p = pkt_xmit_ts q \<and>
    \<not> ntp_is_kod (Some p)"
proof -
  define p where "p = hdr_dec (hdr_bytes q @ rest) pkt0"
  have f: "pkt_li_vn_mode p = pkt_li_vn_mode q" "pkt_stratum p = pkt_stratum q" "pkt_poll p = pkt_poll q"
    "pkt_orig_ts p = pkt_orig_ts q" "pkt_recv_ts p = pkt_recv_ts q" "pkt_xmit_ts p = pkt_xmit_ts q"
    by (simp_all add: p_def hdr_dec_bytes)
  have "accepted p" using assms(2) by (simp add: accepted_def f)
  then have *: "parse_ntp_packet (Some (hdr_bytes q @ rest)) 48 (Some pkt0) g = Inr (True, Some p, g)"
    using assms(1) by (simp add: parse_ntp_packet_eq mac_read_def p_def)
  show ?thesis using * parsed_not_kod [OF *] f by blast
qed

lemma reply_eq:
  assumes "accepted q" "mode_of (pkt_li_vn_mode q) = NTP_MODE_SERVER" "\<not> ntp_is_kod (Some (sy_pkt0 E))"
    "handle_leap_indicator (sy_clk E) (sy_now E) (leap_of (pkt_li_vn_mode q)) d = Inr (False, d1)"
  obtains p where "pkt_stratum p = pkt_stratum q" "pkt_poll p = pkt_poll q"
    "\<And>N. reply_then N E t1 (hdr_bytes q) d =
      (if pkt_orig_ts q \<noteq> t1 then fail_sync d1
       else if pkt_xmit_ts q = zero_ts then fail_sync d1
       else bindR (calculate_delay_offset (Some t1) (Some (pkt_recv_ts q)) (Some (pkt_xmit_ts q))
                     (Some (ntp_timestamp_now (sy_t4 E))))
              (\<lambda>m. case m of None \<Rightarrow> fail_sync d1
                   | Some (delay, off) \<Rightarrow>
                       measure_then N E (ntp_timestamp_now (sy_t4 E)) (leap_of (pkt_li_vn_mode q)) p delay off d1))"
proof -
  obtain p where p: "parse_ntp_packet (Some (hdr_bytes q @ map (sy_stale E) [48..<1024])) 48 (Some (sy_pkt0 E))
      (g_ido_state d) = Inr (True, Some p, g_ido_state d)"
    "pkt_li_vn_mode p = pkt_li_vn_mode q" "pkt_stratum p = pkt_stratum q" "pkt_poll p = pkt_poll q"
    "pkt_orig_ts p = pkt_orig_ts q" "pkt_recv_ts p = pkt_recv_ts q" "pkt_xmit_ts p = pkt_xmit_ts q"
    "\<not> ntp_is_kod (Some p)"
    using reply_parse [OF assms(3,1)] by blast
  have d: "d\<lparr>g_ido_state := g_ido_state d\<rparr> = d" by simp
  show thesis
    by (rule that [OF p(3,4)])
      (simp add: reply_then_def Let_def p(1,2,5-8) d assms(2,4) fail_sync_def del: upt_rec_numeral)
qed

lemma sync_reply_eq:
  assumes "accepted q" "mode_of (pkt_li_vn_mode q) = NTP_MODE_SERVER" "\<not> ntp_is_kod (Some (sy_pkt0 E))"
    "handle_leap_indicator (sy_clk E) (sy_now E) (leap_of (pkt_li_vn_mode q)) d = Inr (False, d1)"
  obtains p where "pkt_stratum p = pkt_stratum q" "pkt_poll p = pkt_poll q"
    "sync_reply F E ip t1 (hdr_bytes q) d =
      (if pkt_orig_ts q \<noteq> t1 then fail_sync d1
       else if pkt_xmit_ts q = zero_ts then fail_sync d1
       else bindR (calculate_delay_offset (Some t1) (Some (pkt_recv_ts q)) (Some (pkt_xmit_ts q))
                     (Some (ntp_timestamp_now (sy_t4 E))))
              (\<lambda>m. case m of None \<Rightarrow> fail_sync d1
                   | Some (delay, off) \<Rightarrow>
                       sync_measure F E ip (ntp_timestamp_now (sy_t4 E)) (leap_of (pkt_li_vn_mode q)) p delay off d1))"
  by (rule reply_eq [OF assms, of t1]) (simp add: sync_reply_def sync_measure_def)

text \<open>
  A reply that passes every check of the first synchronisation has an undefined
  outcome: server mode, the client's own originate timestamp, a transmit timestamp, stratum
  1 to 15, an offset of at most a second and a delay of at most ten. The code unlocks
  \<open>g_mutex\<close> there without having locked it.
\<close>

theorem good_reply_is_undefined:
  assumes "unlocked d" "g_sample_count d < 2" "\<not> ntp_is_kod (Some (sy_pkt0 E))" "sy_tv E \<noteq> None"
    and "version_of (pkt_li_vn_mode q) = 4" "mode_of (pkt_li_vn_mode q) = NTP_MODE_SERVER"
    "leap_of (pkt_li_vn_mode q) = 0" "1 \<le> pkt_stratum q" "pkt_stratum q \<le> 15"
    and "pkt_orig_ts q = t1" "pkt_xmit_ts q \<noteq> zero_ts"
    and "calculate_delay_offset (Some t1) (Some (pkt_recv_ts q)) (Some (pkt_xmit_ts q))
      (Some (ntp_timestamp_now (sy_t4 E))) = Inr (Some (delay, off))" "\<bar>off\<bar> \<le> 1000000" "delay \<le> 10000000"
  shows "sync_reply F E ip t1 (hdr_bytes q) d = Inl Undefined"
proof -
  have "pkt_stratum q \<le> 16" using assms(9) by (rule order_trans) simp
  then have acc: "accepted q" using assms(5,6) by (simp add: accepted_def)
  have h: "handle_leap_indicator (sy_clk E) (sy_now E) (leap_of (pkt_li_vn_mode q)) d = Inr (False, d)"
    by (simp add: assms(7) handle_leap_indicator_def)
  obtain p where p: "pkt_stratum p = pkt_stratum q" "pkt_poll p = pkt_poll q"
    "sync_reply F E ip t1 (hdr_bytes q) d =
      (if pkt_orig_ts q \<noteq> t1 then fail_sync d
       else if pkt_xmit_ts q = zero_ts then fail_sync d
       else bindR (calculate_delay_offset (Some t1) (Some (pkt_recv_ts q)) (Some (pkt_xmit_ts q))
                     (Some (ntp_timestamp_now (sy_t4 E))))
              (\<lambda>m. case m of None \<Rightarrow> fail_sync d
                   | Some (delay, off) \<Rightarrow>
                       sync_measure F E ip (ntp_timestamp_now (sy_t4 E)) (leap_of (pkt_li_vn_mode q)) p delay off d))"
    using sync_reply_eq [OF acc assms(6,3) h] by blast
  show ?thesis
    using assms p(3) sync_measure_good [OF assms(1,2) _ _ assms(13,14,4), of p] p(1) by simp
qed

definition good_reply :: NtpPacket where
  "good_reply = zero_packet\<lparr>pkt_li_vn_mode := 0x24, pkt_stratum := 2, pkt_poll := 6,
     pkt_orig_ts := ntp_timestamp_now (Some \<lparr>tv_sec = 1700000000, tv_nsec = 0\<rparr>),
     pkt_recv_ts := ntp_timestamp_now (Some \<lparr>tv_sec = 1700000000, tv_nsec = 10000000\<rparr>),
     pkt_xmit_ts := ntp_timestamp_now (Some \<lparr>tv_sec = 1700000000, tv_nsec = 10000000\<rparr>)\<rparr>"

lemma good_reply_measure:
  "calculate_delay_offset (Some (ntp_timestamp_now (Some \<lparr>tv_sec = 1700000000, tv_nsec = 0\<rparr>)))
     (Some (pkt_recv_ts good_reply)) (Some (pkt_xmit_ts good_reply))
     (Some (ntp_timestamp_now (sy_t4 (good_env None)))) = Inr (Some (19999, 0))"
  by code_simp

lemma good_reply_is_undefined_witness:
  "sync_reply exact_fpu (good_env None) ''127.0.0.1''
     (ntp_timestamp_now (Some \<lparr>tv_sec = 1700000000, tv_nsec = 0\<rparr>)) (hdr_bytes good_reply) initial_daemon =
     Inl Undefined"
proof -
  have e: "sy_tv (good_env None) \<noteq> None" "sy_pkt0 (good_env None) = zero_packet" by (simp_all add: good_env_def)
  have c: "g_sample_count initial_daemon < 2" by (simp add: initial_daemon_def)
  have b: "version_of 0x24 = 4" "mode_of 0x24 = NTP_MODE_SERVER" "leap_of 0x24 = 0"
    by (simp_all add: version_of_def mode_of_def leap_of_def)
  have r: "pkt_li_vn_mode good_reply = 0x24" "pkt_stratum good_reply = 2"
    "pkt_orig_ts good_reply = ntp_timestamp_now (Some \<lparr>tv_sec = 1700000000, tv_nsec = 0\<rparr>)"
    by (simp_all add: good_reply_def)
  have x: "pkt_xmit_ts good_reply \<noteq> zero_ts" by code_simp
  have k: "\<not> ntp_is_kod (Some (sy_pkt0 (good_env None)))"
    by (simp add: e(2) ntp_is_kod_def zero_packet_def)
  show ?thesis
    by (rule good_reply_is_undefined [OF initial_daemon_unlocked c k e(1) _ _ _ _ _ r(3) x good_reply_measure])
      (simp_all add: r b)
qed

text \<open>
  C34: a reply with the wrong originate timestamp (spoofed or late) is not used:
  \<open>sync_ntp_time\<close> gives up on it with nothing but the leap second state changed. But its
  leap indicator has been acted on before that check, so whoever can get a packet to the
  client's port schedules a leap second event.
\<close>

theorem spoofed_reply_schedules_leap_second:
  assumes "unlocked d" "leap_ready d" "\<not> lp_event_scheduled (g_leap d)" "\<not> ntp_is_kod (Some (sy_pkt0 E))"
    and "sy_clk E = Some ts" "0 \<le> tv_sec ts" "tv_sec ts \<le> sy_now E"
    and "version_of (pkt_li_vn_mode q) = 4" "mode_of (pkt_li_vn_mode q) = NTP_MODE_SERVER"
    "pkt_stratum q \<le> 16" "pkt_orig_ts q \<noteq> t1" "leap_of (pkt_li_vn_mode q) \<in> {1, 2}"
  shows "\<exists>l. sync_reply F E ip t1 (hdr_bytes q) d = Inr (- 1, d\<lparr>g_leap := l\<rparr>) \<and>
    lp_event_scheduled l \<and> lp_pending_leap_dir l = leap_of (pkt_li_vn_mode q)"
proof -
  let ?li = "leap_of (pkt_li_vn_mode q)"
  have acc: "accepted q" using assms(8-10) by (simp add: accepted_def)
  obtain d1 where d1: "leap_second_schedule_event (sy_clk E) (sy_now E) ?li d = Inr (0, d1)"
    "d1 = d\<lparr>g_leap := g_leap d1\<rparr>" "lp_event_scheduled (g_leap d1)" "lp_pending_leap_dir (g_leap d1) = ?li"
    using schedule_eq [OF assms(1-3,6,7), of ?li] assms(5) by simp
  have h: "handle_leap_indicator (sy_clk E) (sy_now E) ?li d = Inr (False, d1)"
    using assms(12) d1(1) by (auto simp: handle_leap_indicator_def)
  have "sync_reply F E ip t1 (hdr_bytes q) d = fail_sync d1"
    using sync_reply_eq [OF acc assms(9,4) h] assms(11) by metis
  then show ?thesis using d1 by (metis fail_sync_def)
qed

lemma spoofed_reply_schedules_leap_second_witness:
  "\<exists>d l. unlocked d \<and> sync_reply exact_fpu (good_env None) ''127.0.0.1'' zero_ts
     (hdr_bytes (good_reply\<lparr>pkt_li_vn_mode := 0x64\<rparr>)) d = Inr (- 1, d\<lparr>g_leap := l\<rparr>) \<and> lp_event_scheduled l"
proof -
  obtain d where d: "leap_ready d" "unlocked d" "\<not> lp_event_scheduled (g_leap d)"
    using init_ready [OF initial_daemon_unlocked] by blast
  have e: "sy_clk (good_env None) = Some \<lparr>tv_sec = 1700000000, tv_nsec = 20000000\<rparr>"
    "sy_now (good_env None) = 1700000000" "sy_pkt0 (good_env None) = zero_packet"
    by (simp_all add: good_env_def)
  have b: "version_of 0x64 = 4" "mode_of 0x64 = NTP_MODE_SERVER" "leap_of 0x64 = 1"
    by (simp_all add: version_of_def mode_of_def leap_of_def)
  have o: "pkt_orig_ts good_reply \<noteq> zero_ts" by code_simp
  have k: "\<not> ntp_is_kod (Some (sy_pkt0 (good_env None)))" by (simp add: e(3) ntp_is_kod_def zero_packet_def)
  have "\<exists>l. sync_reply exact_fpu (good_env None) ''127.0.0.1'' zero_ts
     (hdr_bytes (good_reply\<lparr>pkt_li_vn_mode := 0x64\<rparr>)) d = Inr (- 1, d\<lparr>g_leap := l\<rparr>) \<and>
      lp_event_scheduled l \<and>
      lp_pending_leap_dir l = leap_of (pkt_li_vn_mode (good_reply\<lparr>pkt_li_vn_mode := 0x64\<rparr>))"
    by (rule spoofed_reply_schedules_leap_second [OF d(2,1,3) k e(1)])
      (use o in \<open>simp_all add: e b\<close>, simp_all add: good_reply_def)
  then show ?thesis using d(2) by blast
qed

end
