(* ===== verification/Server.thy ===== *)
theory Server
  imports Network LeapSecond Packet
begin

section \<open>Answering clients (socket.c)\<close>

text \<open>
  \<open>handle_peer_request_thread\<close> on one request: every check, the response, the sending and
  the bookkeeping. The kernel and the C library's address conversions are in the record
  \<open>net_env\<close>. Clock readings are arguments: \<open>t2\<close> and \<open>t3\<close> for the two timestamps,
  \<open>now\<close> for \<open>time(NULL)\<close>, \<open>clk\<close> for the leap second code. \<open>pkt0\<close> is what the
  uninitialised local packet holds. The result says what was sent and whether the
  request data was freed.
\<close>

record net_env =
  ne_inet_addr :: "string \<Rightarrow> u32"
  ne_inet_pton :: "string \<Rightarrow> u32 option"
  ne_sock :: "family \<Rightarrow> int"
  ne_broadcast_ok :: bool
  ne_send_ok :: bool

record PeerRequestData =
  rq_buffer :: "u8 list option"
  rq_size :: nat
  rq_ip :: string
  rq_port :: string

record req_out =
  out_reply :: "(sockaddr_in \<times> u8 list) option"
  out_broadcast :: "(sockaddr_in \<times> u8 list) option"
  out_freed :: bool

subsection \<open>The response\<close>

definition out_header :: "u8 \<Rightarrow> u8 \<Rightarrow> u8" where
  "out_header li mode = push_bit 6 (li AND 0x03) OR push_bit 3 NTP_VN_4 OR mode"

text \<open>The 48 bytes; every one of them is written.\<close>

definition server_response ::
    "u8 \<Rightarrow> u8 \<Rightarrow> u8 \<Rightarrow> u8 \<Rightarrow> u8 \<Rightarrow> u32 \<Rightarrow> u32 \<Rightarrow> u32 \<Rightarrow> NtpTimestamp \<Rightarrow> NtpTimestamp \<Rightarrow> NtpTimestamp \<Rightarrow>
     NtpTimestamp \<Rightarrow> u8 list" where
  "server_response li mode stratum poll precision root_delay root_disp ref_id ref_ts orig t2 t3 =
     [out_header li mode, stratum, poll, precision] @ u32_to_bytes root_delay @
     u32_to_bytes root_disp @ u32_to_bytes ref_id @ ts_bytes ref_ts @ ts_bytes orig @
     ts_bytes t2 @ ts_bytes t3"

text \<open>
  The system variables as the response shows them, read under \<open>g_mutex\<close>: leap
  indicator, stratum, reference identifier and timestamp, root delay and dispersion.
\<close>

definition read_system_variables ::
    "daemon \<Rightarrow> ((bool \<times> u8 \<times> u8 \<times> u32 \<times> NtpTimestamp \<times> u32 \<times> u32) \<times> daemon) run" where
  "read_system_variables =
     with_g_mutex (\<lambda>d.
       bindR (on_mode (mode_get_default_stratum (g_time_synced d) (g_local_stratum d)) d) (\<lambda>(stratum, d).
       bindR (on_mode (mode_get_default_ref_id (g_time_synced d) (g_local_ref_id d)) d) (\<lambda>(ref_id, d).
       bindR (on_mode (mode_get_default_li (g_time_synced d) (g_local_li d)) d) (\<lambda>(li, d).
         Inr ((g_time_synced d, li, stratum, ref_id, g_local_ref_ts d, g_local_root_delay d,
               g_local_root_disp d), d)))))"

definition build_response ::
    "u8 \<Rightarrow> NtpPacket \<Rightarrow> timespec option \<Rightarrow> timespec option \<Rightarrow> daemon \<Rightarrow> (u8 list \<times> daemon) run" where
  "build_response response_mode pkt t2 t3 d =
     bindR (read_system_variables d)
       (\<lambda>((synced, li, stratum, ref_id, ref_ts, root_delay, root_disp), d).
         Inr (if synced then
                server_response li response_mode stratum (pkt_poll pkt) (byte_of (g_local_precision d))
                  root_delay root_disp ref_id ref_ts (pkt_xmit_ts pkt)
                  (ntp_timestamp_now t2) (ntp_timestamp_now t3)
              else
                server_response 3 response_mode 16 (pkt_poll pkt) (byte_of (g_local_precision d))
                  0 0 0x4C4F434C zero_ts (pkt_xmit_ts pkt)
                  (ntp_timestamp_now t2) (ntp_timestamp_now t3), d))"

subsection \<open>Broadcast\<close>

definition send_broadcast_response ::
    "net_env \<Rightarrow> int \<Rightarrow> u8 list \<Rightarrow> daemon \<Rightarrow> int \<times> (sockaddr_in \<times> u8 list) option \<times> daemon" where
  "send_broadcast_response E now response d =
     (if broadcast_mode (g_cli d) = 0 then (0, None, d)
      else if 0 < broadcast_interval (g_cli d) \<and>
              now - g_last_broadcast d < broadcast_interval (g_cli d) then (0, None, d)
      else if network4_create_socket (ne_sock E) < 0 then (- 1, None, d)
      else if \<not> ne_broadcast_ok E then (- 1, None, d)
      else (let a = network4_set_broadcast_addr (ne_inet_pton E) (broadcast_addr (g_cli d)) 123
            in if \<not> ne_send_ok E then (- 1, None, d)
               else (0, Some (a, response), d\<lparr>g_last_broadcast := now\<rparr>)))"

subsection \<open>One request\<close>

definition reply_mode :: "u8 \<Rightarrow> int \<Rightarrow> u8" where
  "reply_mode mode bcast =
     (if mode = NTP_MODE_CLIENT then NTP_MODE_SERVER
      else if mode = NTP_MODE_SYMMETRIC_ACTIVE \<or> mode = NTP_MODE_SYMMETRIC_PASSIVE
        then NTP_MODE_SYMMETRIC_PASSIVE
      else if mode = NTP_MODE_BROADCAST \<and> bcast \<noteq> 0 then NTP_MODE_BROADCAST
      else 0)"

definition refused :: "daemon \<Rightarrow> (req_out \<times> daemon) run" where
  "refused d = Inr (\<lparr>out_reply = None, out_broadcast = None, out_freed = True\<rparr>, d)"

definition leaked :: "daemon \<Rightarrow> (req_out \<times> daemon) run" where
  "leaked d = Inr (\<lparr>out_reply = None, out_broadcast = None, out_freed = False\<rparr>, d)"

text \<open>After the checks: build, address, send, and account for the client.\<close>

definition send_reply ::
    "net_env \<Rightarrow> int \<Rightarrow> timespec option \<Rightarrow> timespec option \<Rightarrow> u8 \<Rightarrow> NtpPacket \<Rightarrow> string \<Rightarrow> string \<Rightarrow>
     daemon \<Rightarrow> (req_out \<times> daemon) run" where
  "send_reply E now t2 t3 response_mode pkt ip port d =
     bindR (build_response response_mode pkt t2 t3 d) (\<lambda>(response, d).
     let (port_ul, range_error, rest) = strtoul port
     in if rest = port \<or> rest \<noteq> [] \<or> range_error \<or> 65535 < port_ul then leaked d
        else
          (case network4_parse_address (ne_inet_pton E) (Some ip) (word_of_int port_ul) of
             (ret, addr) \<Rightarrow>
               if ret < 0 then leaked d
               else if network4_create_socket (ne_sock E) < 0 then leaked d
               else if \<not> ne_send_ok E then leaked d
               else
                 (let (_, bc, d) = (if response_mode = NTP_MODE_BROADCAST
                                    then send_broadcast_response E now response d
                                    else (0, None, d));
                      d = d\<lparr>g_mode := rate_limit_update (ne_inet_addr E) now (Some ip) (g_mode d)\<rparr>
                  in Inr (\<lparr>out_reply = Some (the addr, response), out_broadcast = bc,
                           out_freed = True\<rparr>, d))))"

text \<open>The checks on the client and its mode, then the reply.\<close>

definition answer_request ::
    "fpu \<Rightarrow> net_env \<Rightarrow> int \<Rightarrow> timespec option \<Rightarrow> timespec option \<Rightarrow> timespec option \<Rightarrow> NtpPacket \<Rightarrow>
     PeerRequestData \<Rightarrow> daemon \<Rightarrow> (req_out \<times> daemon) run" where
  "answer_request F E now clk t2 t3 pkt rq d =
     (let li = leap_of (pkt_li_vn_mode pkt); mode = mode_of (pkt_li_vn_mode pkt)
      in bindR (on_mode (acl_check_client (ne_inet_addr E) (Some (rq_ip rq)) mode) d) (\<lambda>(allowed, d).
         if allowed = 0 then refused d
         else
           bindR (on_mode (rate_limit_check (ne_inet_addr E) now (Some (rq_ip rq))) d) (\<lambda>(limited, d).
           if limited \<noteq> 0 then refused d
           else
             (let response_mode = reply_mode mode (broadcast_mode (g_cli d))
              in if response_mode = 0 then refused d
                 else
                   bindR (on_mode (validate_packet_mode F response_mode (of_nat (rq_size rq)) 48) d)
                     (\<lambda>(ratio, d).
                   if ratio \<noteq> 0 then refused d
                   else if ntp_is_kod (Some pkt) then leaked d
                   else
                     bindR (handle_leap_indicator clk now li d) (\<lambda>(skip, d).
                     if skip then leaked d
                     else send_reply E now t2 t3 response_mode pkt (rq_ip rq) (rq_port rq) d))))))"

definition handle_peer_request_thread ::
    "fpu \<Rightarrow> net_env \<Rightarrow> int \<Rightarrow> timespec option \<Rightarrow> timespec option \<Rightarrow> timespec option \<Rightarrow> NtpPacket \<Rightarrow>
     PeerRequestData \<Rightarrow> daemon \<Rightarrow> (req_out \<times> daemon) run" where
  "handle_peer_request_thread F E now clk t2 t3 pkt0 rq d =
     (if rq_buffer rq = None \<or> rq_size rq < 48 then refused d
      else if rq_ip rq = [] \<or> rq_port rq = [] then refused d
      else
        bindR (parse_ntp_packet (rq_buffer rq) (rq_size rq) (Some pkt0) (g_ido_state d)) (\<lambda>(ok, p, g).
        let d = d\<lparr>g_ido_state := g\<rparr>; pkt = the p; mode = mode_of (pkt_li_vn_mode pkt)
        in if \<not> ok then refused d
        else if validate_ntp_version (version_of (pkt_li_vn_mode pkt)) \<noteq> 0 then refused d
        else
          bindR (on_mode (validate_packet_authentication (rq_buffer rq) (rq_size rq)) d) (\<lambda>(auth, d).
          if auth = - ENOTSUP then refused d
          else
            bindR (if mode = NTP_MODE_CONTROL \<or> mode = NTP_MODE_PRIVATE
                   then bindR (on_mode (mode_handler_get_config (Some default_mode_config)) d)
                          (\<lambda>((_, cfg), d). Inr (enable_control_messages (the cfg) = 0, d))
                   else Inr (False, d)) (\<lambda>(disabled, d).
            if disabled then refused d
            else answer_request F E now clk t2 t3 pkt rq d))))"

subsection \<open>Reading the system variables\<close>

lemma defaults_on_mode:
  assumes "unlocked d"
  shows "on_mode (mode_get_default_stratum b x) d =
      Inr (if b then x else initial_stratum (g_mode_config (g_mode d)), d)"
    "on_mode (mode_get_default_ref_id b y) d = Inr (if b then y else 0, d)"
    "on_mode (mode_get_default_li b z) d = Inr (if b then z else 3, d)"
  using unlockedD(3) [OF assms]
  by (simp_all add: on_mode_def mode_get_default_stratum_def mode_get_default_ref_id_def
      mode_get_default_li_def with_g_mode_mutex_free)

lemma read_system_variables_eq:
  assumes "unlocked d"
  shows "read_system_variables d =
    Inr ((g_time_synced d, if g_time_synced d then g_local_li d else 3,
          if g_time_synced d then g_local_stratum d else initial_stratum (g_mode_config (g_mode d)),
          if g_time_synced d then g_local_ref_id d else 0,
          g_local_ref_ts d, g_local_root_delay d, g_local_root_disp d), d)"
proof -
  let ?d = "d\<lparr>g_mutex := True\<rparr>"
  have m: "\<not> g_mode_mutex (g_mode ?d)" using unlockedD(3) [OF assms] by simp
  have "on_mode (mode_get_default_stratum b x) ?d =
      Inr (if b then x else initial_stratum (g_mode_config (g_mode d)), ?d)"
    "on_mode (mode_get_default_ref_id b y) ?d = Inr (if b then y else 0, ?d)"
    "on_mode (mode_get_default_li b z) ?d = Inr (if b then z else 3, ?d)" for b x y z
    using m by (simp_all add: on_mode_def mode_get_default_stratum_def mode_get_default_ref_id_def
      mode_get_default_li_def with_g_mode_mutex_free)
  then show ?thesis
    using unlockedD(1) [OF assms] by (simp add: read_system_variables_def with_g_mutex_def with_mutex_def)
qed

text \<open>The response as a packet.\<close>

definition reply_packet :: "daemon \<Rightarrow> u8 \<Rightarrow> NtpPacket \<Rightarrow> NtpTimestamp \<Rightarrow> NtpTimestamp \<Rightarrow> NtpPacket" where
  "reply_packet d response_mode pkt t2 t3 =
     (let b = g_time_synced d in
      zero_packet\<lparr>pkt_li_vn_mode := out_header (if b then g_local_li d else 3) response_mode,
        pkt_stratum := (if b then g_local_stratum d else 16), pkt_poll := pkt_poll pkt,
        pkt_precision := byte_of (g_local_precision d),
        pkt_root_delay := (if b then g_local_root_delay d else 0),
        pkt_root_disp := (if b then g_local_root_disp d else 0),
        pkt_ref_id := (if b then g_local_ref_id d else 0x4C4F434C),
        pkt_ref_ts := (if b then g_local_ref_ts d else zero_ts),
        pkt_orig_ts := pkt_xmit_ts pkt, pkt_recv_ts := t2, pkt_xmit_ts := t3\<rparr>)"

lemma build_response_eq:
  assumes "unlocked d"
  shows "build_response m pkt t2 t3 d =
    Inr (hdr_bytes (reply_packet d m pkt (ntp_timestamp_now t2) (ntp_timestamp_now t3)), d)"
  by (simp add: build_response_def read_system_variables_eq [OF assms] server_response_def
      reply_packet_def hdr_bytes_def Let_def)

lemma small_words:
  fixes w :: u8
  shows "w \<le> 3 \<Longrightarrow> w \<in> {0, 1, 2, 3}" "w \<le> 7 \<Longrightarrow> w \<in> {0, 1, 2, 3, 4, 5, 6, 7}"
  by (auto simp: word_le_nat_alt word_unat_eq_iff)

lemma out_header_fields:
  assumes "mode \<le> 7"
  shows "leap_of (out_header li mode) = li AND 3" "version_of (out_header li mode) = 4"
    "mode_of (out_header li mode) = mode"
proof -
  have l: "li AND 3 \<in> {0, 1, 2, 3}" by (rule small_words(1)) (rule word_and_le1)
  have m: "mode \<in> {0, 1, 2, 3, 4, 5, 6, 7}" by (rule small_words(2) [OF assms])
  show "leap_of (out_header li mode) = li AND 3"
    using l m unfolding out_header_def leap_of_def by (elim insertE emptyE) (simp_all del: push_bit_and)
  show "version_of (out_header li mode) = 4"
    using l m unfolding out_header_def version_of_def by (elim insertE emptyE) (simp_all del: push_bit_and)
  show "mode_of (out_header li mode) = mode"
    using l m unfolding out_header_def mode_of_def by (elim insertE emptyE) (simp_all del: push_bit_and)
qed

subsection \<open>A request that is answered\<close>

text \<open>The checks of one client in mode 3 to 5 or 1, 2 that let a request through.\<close>

definition served :: "net_env \<Rightarrow> int \<Rightarrow> string \<Rightarrow> u8 \<Rightarrow> mode_state \<Rightarrow> bool" where
  "served E now ip mode s \<longleftrightarrow> ne_inet_addr E ip \<noteq> 0 \<and> mode_enabled mode (g_mode_config s) \<and>
     mode_allowed (case acl_lookup (ne_inet_addr E ip) (g_acl_entries s) of
        Some e \<Rightarrow> acl_flags e | None \<Rightarrow> acl_default_policy (g_mode_config s)) mode \<noteq> 0 \<and>
     (\<forall>t. last_request (ne_inet_addr E ip) s = Some t \<longrightarrow>
        in_i64 (now - t) \<and> uint (rate_limit_interval (g_mode_config s)) \<le> now - t)"

lemma last_request_find:
  "last_request ip s = (case find_ip ip (g_rate_limit_entries s) of None \<Rightarrow> None
     | Some i \<Rightarrow> Some (rl_last_request (g_rate_limit_entries s ! i)))"
  by (simp add: last_request_def entry_of_ip_def split: option.split)

lemma served_checks:
  assumes "unlocked d" "served E now ip mode (g_mode d)"
  shows "\<exists>r. r \<noteq> 0 \<and> on_mode (acl_check_client (ne_inet_addr E) (Some ip) mode) d = Inr (r, d)"
    "on_mode (rate_limit_check (ne_inet_addr E) now (Some ip)) d = Inr (0, d)"
proof -
  show "\<exists>r. r \<noteq> 0 \<and> on_mode (acl_check_client (ne_inet_addr E) (Some ip) mode) d = Inr (r, d)"
    using assms(2) acl_check_eq [OF unlockedD(3) [OF assms(1)], of "ne_inet_addr E" ip mode]
    by (auto simp: on_mode_def served_def)
  show "on_mode (rate_limit_check (ne_inet_addr E) now (Some ip)) d = Inr (0, d)"
    using assms(2) unlockedD(3) [OF assms(1)]
    by (auto simp: on_mode_def rate_limit_check_def with_g_mode_mutex_free rate_limit_find_def
        parse_ip_def served_def last_request_find split: option.split)
qed

lemma ratio_ok:
  assumes "unlocked d" "fpu_ok F" "max_response_ratio (g_mode_config (g_mode d)) = Finite 1" "m \<le> 7"
    "48 \<le> n" "n < 2 ^ 53"
  shows "on_mode (validate_packet_mode F m (of_nat n) 48) d = Inr (0, d)"
proof -
  have n: "uint (of_nat n :: u64) = int n" using assms(6) by (simp add: unsigned_of_nat take_bit_nat_eq_self)
  have "rnd F (of_int (int n)) = of_int (int n)"
    using fpu_ok_int [OF assms(2), of "int n"] assms(6) by simp
  moreover have "trunc (of_int (int n)) = int n" by (simp add: trunc_def)
  moreover have "\<not> of_nat n < (48 :: u64)" using assms(5) n by (simp add: word_less_def)
  ultimately show ?thesis
    using assms unlockedD(3) [OF assms(1)] n
    by (simp add: on_mode_def validate_packet_mode_def with_g_mode_mutex_free Let_def not_less)
qed

lemma request_let_through:
  assumes "unlocked d" "fpu_ok F" "g_mode_config (g_mode d) = default_mode_config"
    "rq_buffer rq = Some buf" "rq_size rq = 48" "length buf = 48" "rq_ip rq \<noteq> []" "rq_port rq \<noteq> []"
    "parse_ntp_packet (Some buf) 48 (Some pkt0) (g_ido_state d) = Inr (True, Some pkt, g_ido_state d)"
    "version_of (pkt_li_vn_mode pkt) = 4" "mode_of (pkt_li_vn_mode pkt) = NTP_MODE_CLIENT"
    "leap_of (pkt_li_vn_mode pkt) = 0" "served E now (rq_ip rq) NTP_MODE_CLIENT (g_mode d)"
  shows "handle_peer_request_thread F E now clk t2 t3 pkt0 rq d =
    send_reply E now t2 t3 NTP_MODE_SERVER pkt (rq_ip rq) (rq_port rq) d"
proof -
  have kod: "\<not> ntp_is_kod (Some pkt)" using parsed_not_kod [OF assms(9)] .
  obtain r where acl: "r \<noteq> 0"
    "on_mode (acl_check_client (ne_inet_addr E) (Some (rq_ip rq)) NTP_MODE_CLIENT) d = Inr (r, d)"
    using served_checks(1) [OF assms(1,13)] by blast
  have "on_mode (validate_packet_authentication (Some buf) 48) d = Inr (0, d)"
    by (simp add: on_mode_def validate_packet_authentication_def)
  moreover have "on_mode (validate_packet_mode F NTP_MODE_SERVER (of_nat 48) 48) d = Inr (0, d)"
    by (rule ratio_ok) (use assms in \<open>simp_all add: default_mode_config_def\<close>)
  ultimately show ?thesis
    using assms acl served_checks(2) [OF assms(1,13)] kod
    by (simp add: handle_peer_request_thread_def answer_request_def Let_def validate_ntp_version_def reply_mode_def
        handle_leap_indicator_def)
qed

lemma send_reply_eq:
  assumes "unlocked d" "strtoul port = (p, False, [])" "port \<noteq> []" "p \<le> 65535"
    "ne_inet_pton E ip = Some a" "0 \<le> ne_sock E AF_INET" "ne_send_ok E" "m \<noteq> NTP_MODE_BROADCAST"
  shows "send_reply E now t2 t3 m pkt ip port d =
    Inr (\<lparr>out_reply = Some (\<lparr>sin_port = htons (word_of_int p), sin_addr = a\<rparr>,
            hdr_bytes (reply_packet d m pkt (ntp_timestamp_now t2) (ntp_timestamp_now t3))),
          out_broadcast = None, out_freed = True\<rparr>,
         d\<lparr>g_mode := rate_limit_update (ne_inet_addr E) now (Some ip) (g_mode d)\<rparr>)"
  using assms by (simp add: send_reply_def build_response_eq network4_parse_address_def
      network4_create_socket_def Let_def)

text \<open>The packet shows the system variables of the daemon, or that it is not synchronised.\<close>

definition shows_variables :: "daemon \<Rightarrow> NtpPacket \<Rightarrow> bool" where
  "shows_variables d p \<longleftrightarrow> pkt_precision p = byte_of (g_local_precision d) \<and>
     (if g_time_synced d
      then leap_of (pkt_li_vn_mode p) = g_local_li d AND 3 \<and> pkt_stratum p = g_local_stratum d \<and>
        pkt_root_delay p = g_local_root_delay d \<and> pkt_root_disp p = g_local_root_disp d \<and>
        pkt_ref_id p = g_local_ref_id d \<and> pkt_ref_ts p = g_local_ref_ts d
      else leap_of (pkt_li_vn_mode p) = 3 \<and> pkt_stratum p = 16 \<and> pkt_root_delay p = 0 \<and>
        pkt_root_disp p = 0 \<and> pkt_ref_id p = 0x4C4F434C \<and> pkt_ref_ts p = zero_ts)"

lemma reply_parses:
  assumes "m \<noteq> 0" "m \<le> 7" "\<not> ntp_is_kod (Some p0)"
  shows "\<exists>p. parse_ntp_packet (Some (hdr_bytes (reply_packet d m pkt t2 t3))) 48 (Some p0) g =
      Inr (\<not> g_time_synced d \<or> g_local_stratum d \<le> 16, Some p, g) \<and>
    version_of (pkt_li_vn_mode p) = NTP_VN_4 \<and> mode_of (pkt_li_vn_mode p) = m \<and> shows_variables d p \<and>
    pkt_poll p = pkt_poll pkt \<and> pkt_orig_ts p = pkt_xmit_ts pkt \<and> pkt_recv_ts p = t2 \<and> pkt_xmit_ts p = t3"
proof -
  define q where "q = hdr_dec (hdr_bytes (reply_packet d m pkt t2 t3)) p0"
  have q: "q = hdr_dec (hdr_bytes (reply_packet d m pkt t2 t3) @ []) p0" by (simp add: q_def)
  have f: "pkt_li_vn_mode q = out_header (if g_time_synced d then g_local_li d else 3) m"
    "pkt_stratum q = (if g_time_synced d then g_local_stratum d else 16)"
    "pkt_orig_ts q = pkt_xmit_ts pkt" "pkt_recv_ts q = t2" "pkt_xmit_ts q = t3" "pkt_poll q = pkt_poll pkt"
    unfolding q hdr_dec_bytes by (simp_all add: reply_packet_def Let_def)
  have v: "shows_variables d q"
    unfolding q hdr_dec_bytes by (simp add: reply_packet_def Let_def shows_variables_def out_header_fields [OF assms(2)])
  have acc: "accepted q \<longleftrightarrow> \<not> g_time_synced d \<or> g_local_stratum d \<le> 16"
    using assms(1) by (auto simp: accepted_def f out_header_fields [OF assms(2)])
  have "parse_ntp_packet (Some (hdr_bytes (reply_packet d m pkt t2 t3))) 48 (Some p0) g =
      Inr (accepted q, Some q, g)"
    using assms(3) by (simp add: parse_ntp_packet_eq mac_read_def q_def)
  then show ?thesis
    unfolding acc using v by (intro exI [of _ q]) (simp add: f out_header_fields [OF assms(2)])
qed

lemma exchange_ok:
  assumes "unlocked d" "fpu_ok F" "g_mode_config (g_mode d) = default_mode_config"
    and "length cbuf = 48" "create_ntp_request (Some cbuf) poll precision t1 = Inr (Some req, Some ts1)"
    and "rq = \<lparr>rq_buffer = Some req, rq_size = 48, rq_ip = ip, rq_port = port\<rparr>" "ip \<noteq> []" "port \<noteq> []"
    and "strtoul port = (p, False, [])" "p \<le> 65535"
    and "ne_inet_pton E ip = Some a" "0 \<le> ne_sock E AF_INET" "ne_send_ok E"
    and "served E now ip NTP_MODE_CLIENT (g_mode d)"
    and "\<not> ntp_is_kod (Some s0)" "\<not> ntp_is_kod (Some c0)"
  shows "\<exists>resp reply.
    handle_peer_request_thread F E now clk t2 t3 s0 rq d =
      Inr (\<lparr>out_reply = Some (\<lparr>sin_port = htons (word_of_int p), sin_addr = a\<rparr>, resp),
            out_broadcast = None, out_freed = True\<rparr>,
           d\<lparr>g_mode := rate_limit_update (ne_inet_addr E) now (Some ip) (g_mode d)\<rparr>) \<and>
    length resp = 48 \<and>
    parse_ntp_packet (Some resp) 48 (Some c0) g =
      Inr (\<not> g_time_synced d \<or> g_local_stratum d \<le> 16, Some reply, g) \<and>
    version_of (pkt_li_vn_mode reply) = NTP_VN_4 \<and> mode_of (pkt_li_vn_mode reply) = NTP_MODE_SERVER \<and>
    shows_variables d reply \<and> pkt_poll reply = (if sint poll < 0 then 12 else poll) \<and>
    pkt_orig_ts reply = ts1 \<and> ts1 = ntp_timestamp_now t1 \<and> pkt_recv_ts reply = ntp_timestamp_now t2 \<and>
    pkt_xmit_ts reply = ntp_timestamp_now t3"
proof -
  obtain pkt where req: "length req = 48" "ts1 = ntp_timestamp_now t1" "pkt_xmit_ts pkt = ts1"
    "parse_ntp_packet (Some req) 48 (Some s0) (g_ido_state d) = Inr (True, Some pkt, g_ido_state d)"
    "leap_of (pkt_li_vn_mode pkt) = 0" "version_of (pkt_li_vn_mode pkt) = 4"
    "mode_of (pkt_li_vn_mode pkt) = NTP_MODE_CLIENT" "pkt_poll pkt = (if sint poll < 0 then 12 else poll)"
    using request_parses [OF assms(4,15), of poll precision t1 "g_ido_state d"] assms(5) by auto
  have h: "handle_peer_request_thread F E now clk t2 t3 s0 rq d =
      send_reply E now t2 t3 NTP_MODE_SERVER pkt ip port d"
    using request_let_through [OF assms(1-3), of rq req s0 pkt E now clk t2 t3] assms req by simp
  show ?thesis
    unfolding h send_reply_eq [OF assms(1,9,8,10,11,12,13), of NTP_MODE_SERVER now t2 t3 pkt, simplified]
    using reply_parses [of NTP_MODE_SERVER c0 d pkt "ntp_timestamp_now t2" "ntp_timestamp_now t3" g]
      assms(16) req(2,3,8) by auto
qed

text \<open>
  C2: a client and this server agree on a whole exchange. The request that
  \<open>create_ntp_request\<close> builds at the client is let through by a server in its default
  configuration whose access list serves the client and whose rate limit has no recent
  request of it; the server sends 48 bytes to the client's address, records the request
  and frees the request data. The client's parser reads the reply back: version 4, server mode, the
  system variables of the server (leap indicator, stratum, precision, root delay and dispersion,
  reference identifier and time, or those of a server that is not synchronised), the poll
  exponent of the request, the client's own transmit timestamp as the originate timestamp, the server's
  receive and transmit times; and accepts it unless the server is synchronised with a stratum above 16.
\<close>

theorem client_server_exchange:
  assumes "unlocked d" "fpu_ok F" "g_mode_config (g_mode d) = default_mode_config"
    and "length cbuf = 48" "create_ntp_request (Some cbuf) poll precision t1 = Inr (Some req, Some ts1)"
    and "rq = \<lparr>rq_buffer = Some req, rq_size = 48, rq_ip = ip, rq_port = port\<rparr>" "ip \<noteq> []" "port \<noteq> []"
    and "strtoul port = (p, False, [])" "p \<le> 65535"
    and "ne_inet_pton E ip = Some a" "0 \<le> ne_sock E AF_INET" "ne_send_ok E"
    and "served E now ip NTP_MODE_CLIENT (g_mode d)"
    and "\<not> ntp_is_kod (Some s0)" "\<not> ntp_is_kod (Some c0)"
  shows "\<exists>resp reply.
    handle_peer_request_thread F E now clk t2 t3 s0 rq d =
      Inr (\<lparr>out_reply = Some (\<lparr>sin_port = htons (word_of_int p), sin_addr = a\<rparr>, resp),
            out_broadcast = None, out_freed = True\<rparr>,
           d\<lparr>g_mode := rate_limit_update (ne_inet_addr E) now (Some ip) (g_mode d)\<rparr>) \<and>
    length resp = 48 \<and>
    parse_ntp_packet (Some resp) 48 (Some c0) g =
      Inr (\<not> g_time_synced d \<or> g_local_stratum d \<le> 16, Some reply, g) \<and>
    version_of (pkt_li_vn_mode reply) = NTP_VN_4 \<and> mode_of (pkt_li_vn_mode reply) = NTP_MODE_SERVER \<and>
    shows_variables d reply \<and> pkt_poll reply = (if sint poll < 0 then 12 else poll) \<and>
    pkt_orig_ts reply = ts1 \<and> ts1 = ntp_timestamp_now t1 \<and> pkt_recv_ts reply = ntp_timestamp_now t2 \<and>
    pkt_xmit_ts reply = ntp_timestamp_now t3"
  by (rule exchange_ok [OF assms])

definition served_daemon :: daemon where
  "served_daemon = initial_daemon\<lparr>g_mode := initial_mode_state\<lparr>g_acl_entries :=
     [\<lparr>acl_ip = htonl 0xC0A80100, acl_mask = prefix_mask 24, acl_flags = 0, acl_comment = None\<rparr>]\<rparr>\<rparr>"

definition lan_env :: net_env where
  "lan_env = \<lparr>ne_inet_addr = toy_inet, ne_inet_pton = (\<lambda>s. Some (toy_inet s)), ne_sock = (\<lambda>_. 5),
     ne_broadcast_ok = True, ne_send_ok = True\<rparr>"

lemma lan_client_served: "served lan_env 1000 ''192.168.1.23'' NTP_MODE_CLIENT (g_mode served_daemon)"
proof -
  have "acl_lookup (toy_inet ''192.168.1.23'') (g_acl_entries (g_mode served_daemon)) =
      Some \<lparr>acl_ip = htonl 0xC0A80100, acl_mask = prefix_mask 24, acl_flags = 0, acl_comment = None\<rparr>"
    by (simp add: served_daemon_def) code_simp
  then show ?thesis
    by (simp add: served_def lan_env_def mode_enabled_def mode_allowed_def last_request_def
        entry_of_ip_def)
      (simp add: served_daemon_def initial_mode_state_def toy_inet_def htonl_numerals)
qed

lemma port_5000: "strtoul ''5000'' = (5000, False, [])"
  by (simp add: strtoul_def scan_number_def skip_space_def is_space_def is_digit_def
      digits_val_def digit_val_def)

lemma served_daemon_props:
  "unlocked served_daemon" "g_mode_config (g_mode served_daemon) = default_mode_config"
  "\<not> g_time_synced served_daemon"
  by (simp_all add: served_daemon_def unlocked_def initial_daemon_def initial_mode_state_def)

lemma zero_packet_not_kod: "\<not> ntp_is_kod (Some zero_packet)"
  by (simp add: ntp_is_kod_def zero_packet_def)

lemma client_server_exchange_witness:
  "\<exists>req ts1 resp reply.
    create_ntp_request (Some (replicate 48 0)) 6 0xEC (Some \<lparr>tv_sec = 1700000000, tv_nsec = 5\<rparr>)
      = Inr (Some req, Some ts1) \<and>
    parse_ntp_packet (Some resp) 48 (Some zero_packet) ido_zero = Inr (True, Some reply, ido_zero) \<and>
    (\<exists>out d'. handle_peer_request_thread exact_fpu lan_env 1000 None (Some \<lparr>tv_sec = 1700000001, tv_nsec = 0\<rparr>)
      (Some \<lparr>tv_sec = 1700000001, tv_nsec = 9\<rparr>) zero_packet
      \<lparr>rq_buffer = Some req, rq_size = 48, rq_ip = ''192.168.1.23'', rq_port = ''5000''\<rparr> served_daemon
      = Inr (out, d') \<and> map_option snd (out_reply out) = Some resp) \<and>
    pkt_orig_ts reply = ts1"
proof -
  have "\<exists>req ts1. create_ntp_request (Some (replicate 48 0)) 6 0xEC
      (Some \<lparr>tv_sec = 1700000000, tv_nsec = 5\<rparr>) = Inr (Some req, Some ts1)"
    by (subst create_ntp_request_eq) simp_all
  then obtain req ts1 where req: "create_ntp_request (Some (replicate 48 0)) 6 0xEC
      (Some \<lparr>tv_sec = 1700000000, tv_nsec = 5\<rparr>) = Inr (Some req, Some ts1)"
    by (elim exE)
  define rq where "rq = \<lparr>rq_buffer = Some req, rq_size = 48, rq_ip = ''192.168.1.23'', rq_port = ''5000''\<rparr>"
  have e: "ne_inet_pton lan_env ''192.168.1.23'' = Some (toy_inet ''192.168.1.23'')"
    "0 \<le> ne_sock lan_env AF_INET" "ne_send_ok lan_env"
    by (simp_all only: lan_env_def net_env.simps)
  have "''192.168.1.23'' \<noteq> []" "''5000'' \<noteq> []" "(5000 :: int) \<le> 65535" "length (replicate 48 0 :: u8 list) = 48"
    by simp_all
  note x = client_server_exchange [OF served_daemon_props(1) exact_fpu_ok served_daemon_props(2) this(4) req
      rq_def this(1,2) port_5000 this(3) e lan_client_served zero_packet_not_kod zero_packet_not_kod,
      of None "Some \<lparr>tv_sec = 1700000001, tv_nsec = 0\<rparr>" "Some \<lparr>tv_sec = 1700000001, tv_nsec = 9\<rparr>" ido_zero]
  then obtain resp reply where r:
    "handle_peer_request_thread exact_fpu lan_env 1000 None (Some \<lparr>tv_sec = 1700000001, tv_nsec = 0\<rparr>)
      (Some \<lparr>tv_sec = 1700000001, tv_nsec = 9\<rparr>) zero_packet rq served_daemon =
      Inr (\<lparr>out_reply = Some (\<lparr>sin_port = htons (word_of_int 5000), sin_addr = toy_inet ''192.168.1.23''\<rparr>, resp),
            out_broadcast = None, out_freed = True\<rparr>,
           served_daemon\<lparr>g_mode := rate_limit_update (ne_inet_addr lan_env) 1000 (Some ''192.168.1.23'')
             (g_mode served_daemon)\<rparr>)"
    "parse_ntp_packet (Some resp) 48 (Some zero_packet) ido_zero =
      Inr (\<not> g_time_synced served_daemon \<or> g_local_stratum served_daemon \<le> 16, Some reply, ido_zero)"
    "pkt_orig_ts reply = ts1" by blast
  show ?thesis
    by (intro exI conjI, rule req, use r(2) served_daemon_props(3) in simp, rule r(1) [unfolded rq_def])
      (simp, rule r(3))
qed

subsection \<open>Requests that are not answered\<close>

text \<open>A critical section that only reads, and the checks built from such sections.\<close>

lemma mode_section_reads:
  "with_g_mode_mutex (\<lambda>s. Inr (f s, s)) s = Inr (r, s') \<Longrightarrow> s' = s"
  by (cases "g_mode_mutex s") (auto simp: with_g_mode_mutex_held with_g_mode_mutex_free)

lemma acl_check_pure: "acl_check_client i c m s = Inr (r, s') \<Longrightarrow> s' = s"
  by (auto simp: acl_check_client_def Let_def bindR_eq_Inr_iff dest!: mode_section_reads
      split: if_splits)

lemma rate_check_pure: "rate_limit_check i now c s = Inr (r, s') \<Longrightarrow> s' = s"
  by (auto simp: rate_limit_check_def bindR_eq_Inr_iff dest!: mode_section_reads
      split: if_splits option.splits)

lemma ratio_check_pure:
  assumes "validate_packet_mode F m a b s = Inr (r, s')"
  shows "s' = s"
proof (cases "NTP_MODE_PRIVATE < m")
  case False
  then obtain v t where v: "with_g_mode_mutex (\<lambda>s. Inr (max_response_ratio (g_mode_config s), s)) s = Inr (v, t)"
    using assms by (auto simp: validate_packet_mode_def bindR_eq_Inr_iff)
  then have "t = s" by (rule mode_section_reads)
  with v False assms show ?thesis
    by (cases v) (auto simp: validate_packet_mode_def Let_def split: if_splits)
qed (use assms in \<open>simp add: validate_packet_mode_def\<close>)

lemma auth_loop_pure: "auth_loop data sz pos s = Inr (r, s') \<Longrightarrow> s' = s"
proof (induction data sz pos s rule: auth_loop.induct)
  case (1 data sz pos s)
  show ?case
    using "1.prems"
    by (subst (asm) auth_loop.simps)
      (auto simp: bindR_eq_Inr_iff dest!: mode_section_reads "1.IH" [OF _ _ refl]
        split: if_splits sum.splits)
qed

lemma auth_check_pure: "validate_packet_authentication buf sz s = Inr (r, s') \<Longrightarrow> s' = s"
  by (auto simp: validate_packet_authentication_def dest: auth_loop_pure split: if_splits option.splits)

lemma on_mode_pure:
  "on_mode f d = Inr (r, d') \<Longrightarrow> (\<And>s r s'. f s = Inr (r, s') \<Longrightarrow> s' = s) \<Longrightarrow>
     d' = d \<and> f (g_mode d) = Inr (r, g_mode d)"
  by (fastforce simp: on_mode_def bindR_eq_Inr_iff)

lemma gateD:
  assumes "(if c then refused d0 else m) = Inr (out, d')" "out_reply out = Some x"
  shows "\<not> c" "m = Inr (out, d')"
  using assms by (auto simp: refused_def split: if_splits)

lemma leakD:
  assumes "(if c then leaked d0 else m) = Inr (out, d')" "out_reply out = Some x"
  shows "\<not> c" "m = Inr (out, d')"
  using assms by (auto simp: leaked_def split: if_splits)

lemma build_response_length:
  "build_response m pkt t2 t3 d = Inr (r, d') \<Longrightarrow> length r = 48"
  by (auto simp: build_response_def bindR_eq_Inr_iff server_response_def split: if_splits)

lemma send_reply_out:
  assumes "send_reply E now t2 t3 m pkt ip port d = Inr (out, d')" "out_reply out = Some (addr, resp)"
  shows "out_freed out" "length resp = 48" "ne_inet_pton E ip = Some (sin_addr addr)"
proof -
  obtain r d1 where b: "build_response m pkt t2 t3 d = Inr (r, d1)"
    using assms(1) by (auto simp: send_reply_def bindR_eq_Inr_iff)
  obtain p e rest where s: "strtoul port = (p, e, rest)" by (metis surj_pair)
  obtain ret a where n: "network4_parse_address (ne_inet_pton E) (Some ip) (word_of_int p) = (ret, a)"
    by (metis surj_pair)
  obtain x bc d2 where c: "(if m = NTP_MODE_BROADCAST then send_broadcast_response E now r d1
      else (0, None, d1)) = (x, bc, d2)" by (metis surj_pair)
  have o: "\<not> ret < 0" "out = \<lparr>out_reply = Some (the a, r), out_broadcast = bc, out_freed = True\<rparr>"
    using assms b s n c by (auto simp: send_reply_def leaked_def Let_def split: if_splits)
  then show "out_freed out" "length resp = 48" "ne_inet_pton E ip = Some (sin_addr addr)"
    using assms(2) build_response_length [OF b] n
    by (auto simp: network4_parse_address_def split: option.splits)
qed

lemma config_read_pure:
  assumes "(if c then bindR (on_mode (mode_handler_get_config (Some m)) d) (\<lambda>((_, cfg), d). Inr (f cfg, d))
      else Inr (False, d)) = Inr (r, d')"
  shows "d' = d"
  using assms
  by (auto simp: bindR_eq_Inr_iff mode_handler_get_config_def dest!: on_mode_pure [OF _ mode_section_reads]
      split: if_splits)

lemma answer_request_only_if:
  assumes h: "answer_request F E now clk t2 t3 pkt rq d = Inr (out, d')"
    and o: "out_reply out = Some (addr, resp)" and b: "b = pkt_li_vn_mode pkt"
  shows "leap_of b \<noteq> 3" "mode_of b \<in> {1, 2, 3, 5}"
    "\<exists>r. r \<noteq> 0 \<and> acl_check_client (ne_inet_addr E) (Some (rq_ip rq)) (mode_of b) (g_mode d) = Inr (r, g_mode d)"
    "rate_limit_check (ne_inet_addr E) now (Some (rq_ip rq)) (g_mode d) = Inr (0, g_mode d)"
    "length resp = 48 \<and> ne_inet_pton E (rq_ip rq) = Some (sin_addr addr) \<and> out_freed out"
proof -
  note h1 = h [unfolded answer_request_def Let_def, folded b]
  from h1 obtain al d3 where l: "on_mode (acl_check_client (ne_inet_addr E) (Some (rq_ip rq)) (mode_of b)) d
      = Inr (al, d3)"
    by (subst (asm) bindR_eq_Inr_iff) fast
  note k6 = gateD [OF h1 [unfolded l bindR_simps split_conv] o]
  have d3: "d3 = d" "acl_check_client (ne_inet_addr E) (Some (rq_ip rq)) (mode_of b) (g_mode d) = Inr (al, g_mode d)"
    using on_mode_pure [OF l acl_check_pure] by auto
  from k6(2) obtain rl d4 where r: "on_mode (rate_limit_check (ne_inet_addr E) now (Some (rq_ip rq))) d3
      = Inr (rl, d4)"
    by (subst (asm) bindR_eq_Inr_iff) fast
  note k7 = gateD [OF k6(2) [unfolded r bindR_simps split_conv] o]
  have d4: "d4 = d3" "rate_limit_check (ne_inet_addr E) now (Some (rq_ip rq)) (g_mode d3) = Inr (rl, g_mode d3)"
    using on_mode_pure [OF r rate_check_pure] by auto
  note k8 = gateD [OF k7(2) o]
  from k8(2) obtain ra d5 where v: "on_mode (validate_packet_mode F (reply_mode (mode_of b)
      (broadcast_mode (g_cli d4))) (of_nat (rq_size rq)) 48) d4 = Inr (ra, d5)"
    by (subst (asm) bindR_eq_Inr_iff) fast
  note k10 = leakD [OF gateD(2) [OF k8(2) [unfolded v bindR_simps split_conv] o] o]
  from k10(2) obtain sk d6 where hl: "handle_leap_indicator clk now (leap_of b) d5 = Inr (sk, d6)"
    by (subst (asm) bindR_eq_Inr_iff) fast
  note k11 = leakD [OF k10(2) [unfolded hl bindR_simps split_conv] o]
  show "mode_of b \<in> {1, 2, 3, 5}" using k8(1) by (auto simp: reply_mode_def split: if_splits)
  show "leap_of b \<noteq> 3" using hl k11(1) by (auto simp: handle_leap_indicator_def)
  show "\<exists>r. r \<noteq> 0 \<and> acl_check_client (ne_inet_addr E) (Some (rq_ip rq)) (mode_of b) (g_mode d) = Inr (r, g_mode d)"
    "rate_limit_check (ne_inet_addr E) now (Some (rq_ip rq)) (g_mode d) = Inr (0, g_mode d)"
    "length resp = 48 \<and> ne_inet_pton E (rq_ip rq) = Some (sin_addr addr) \<and> out_freed out"
    using k6(1) k7(1) d3 d4 send_reply_out [OF k11(2) o] by auto
qed

lemma answered_conditions:
  assumes h: "handle_peer_request_thread F E now clk t2 t3 pkt0 rq d = Inr (out, d')"
    and o: "out_reply out = Some (addr, resp)"
    and buf: "rq_buffer rq = Some buf"
  shows "48 \<le> rq_size rq \<and> version_of (buf ! 0) = 4 \<and> leap_of (buf ! 0) \<noteq> 3 \<and>
     mode_of (buf ! 0) \<in> {1, 2, 3, 5} \<and>
     (\<exists>r. r \<noteq> 0 \<and> acl_check_client (ne_inet_addr E) (Some (rq_ip rq)) (mode_of (buf ! 0)) (g_mode d)
        = Inr (r, g_mode d)) \<and>
     rate_limit_check (ne_inet_addr E) now (Some (rq_ip rq)) (g_mode d) = Inr (0, g_mode d) \<and>
     (\<exists>r. r \<noteq> - ENOTSUP \<and> validate_packet_authentication (Some buf) (rq_size rq) (g_mode d) = Inr (r, g_mode d)) \<and>
     length resp = 48 \<and> ne_inet_pton E (rq_ip rq) = Some (sin_addr addr) \<and> out_freed out"
proof -
  have n: "48 \<le> rq_size rq" using gateD(1) [OF h [unfolded handle_peer_request_thread_def] o] by simp
  note g = gateD [OF gateD(2) [OF h [unfolded handle_peer_request_thread_def] o] o]
  from g(2) obtain ok p g' where p: "parse_ntp_packet (rq_buffer rq) (rq_size rq) (Some pkt0) (g_ido_state d)
      = Inr (ok, p, g')"
    by (auto simp: bindR_eq_Inr_iff)
  define d0 where "d0 = d\<lparr>g_ido_state := g'\<rparr>"
  define b where "b = pkt_li_vn_mode (the p)"
  note k = g(2) [unfolded p bindR_simps Let_def split_conv, folded d0_def b_def]
  note k2 = gateD [OF k o]
  note k3 = gateD [OF k2(2) o]
  from k3(2) obtain auth d1 where a: "on_mode (validate_packet_authentication (rq_buffer rq) (rq_size rq)) d0
      = Inr (auth, d1)"
    by (auto simp: bindR_eq_Inr_iff)
  note k4 = gateD [OF k3(2) [unfolded a bindR_simps split_conv] o]
  have d1: "d1 = d0" "validate_packet_authentication (Some buf) (rq_size rq) (g_mode d) = Inr (auth, g_mode d)"
    using on_mode_pure [OF a auth_check_pure] buf by (simp_all add: d0_def)
  from k4(2) obtain dis d2 where c: "(if mode_of b = NTP_MODE_CONTROL \<or> mode_of b = NTP_MODE_PRIVATE
      then bindR (on_mode (mode_handler_get_config (Some default_mode_config)) d1)
             (\<lambda>((_, cfg), d). Inr (enable_control_messages (the cfg) = 0, d))
      else Inr (False, d1)) = Inr (dis, d2)"
    by (subst (asm) bindR_eq_Inr_iff) fast
  note k5 = gateD [OF k4(2) [unfolded c bindR_simps split_conv] o]
  have d2: "d2 = d0" using config_read_pure [OF c] d1(1) by simp
  have "buf ! 0 = b" using p k2(1) buf n
    by (auto simp: b_def parse_ntp_packet_eq mac_read_def hdr_dec_def split: if_splits)
  then show ?thesis
    using n k3(1) k4(1) d1(2) d2 answer_request_only_if [OF k5(2) o b_def]
    by (auto simp: d0_def validate_ntp_version_def split: if_splits)
qed

text \<open>
  C6: the server answers a request only if the packet has 48 bytes or more and is version
  4 with leap indicator 0, 1 or 2, in a mode of a client or peer (1, 2, 3 or 5), the access
  list lets its address through for that mode, the rate limit is not exceeded, and the
  authentication check of its extension fields has not refused it. The answer has 48 bytes, goes to the request's address, and the request data is freed.
\<close>

theorem answered_only_if:
  assumes h: "handle_peer_request_thread F E now clk t2 t3 pkt0 rq d = Inr (out, d')"
    and o: "out_reply out = Some (addr, resp)"
    and buf: "rq_buffer rq = Some buf"
  shows "48 \<le> rq_size rq \<and> version_of (buf ! 0) = 4 \<and> leap_of (buf ! 0) \<noteq> 3 \<and>
     mode_of (buf ! 0) \<in> {1, 2, 3, 5} \<and>
     (\<exists>r. r \<noteq> 0 \<and> acl_check_client (ne_inet_addr E) (Some (rq_ip rq)) (mode_of (buf ! 0)) (g_mode d)
        = Inr (r, g_mode d)) \<and>
     rate_limit_check (ne_inet_addr E) now (Some (rq_ip rq)) (g_mode d) = Inr (0, g_mode d) \<and>
     (\<exists>r. r \<noteq> - ENOTSUP \<and> validate_packet_authentication (Some buf) (rq_size rq) (g_mode d) = Inr (r, g_mode d)) \<and>
     length resp = 48 \<and> ne_inet_pton E (rq_ip rq) = Some (sin_addr addr) \<and> out_freed out"
  by (rule answered_conditions [OF assms])

definition lan_request :: PeerRequestData where
  "lan_request = \<lparr>rq_buffer = Some ([0x23, 0, 6, 0xEC] @ replicate 36 0 @ ts_bytes zero_ts), rq_size = 48,
     rq_ip = ''192.168.1.23'', rq_port = ''5000''\<rparr>"

text \<open>The exchange of \<open>client_server_exchange\<close> with a client whose clock cannot be read.\<close>

lemma lan_exchange:
  obtains out d' addr resp where
    "handle_peer_request_thread exact_fpu lan_env 1000 None None None zero_packet lan_request served_daemon
      = Inr (out, d')" "out_reply out = Some (addr, resp)"
proof -
  have req: "create_ntp_request (Some (replicate 48 0)) 6 0xEC None
      = Inr (Some (the (rq_buffer lan_request)), Some (ntp_timestamp_now None))"
    by (subst create_ntp_request_eq) (simp_all add: lan_request_def ntp_timestamp_now_def zero_ts_def)
  have e: "ne_inet_pton lan_env ''192.168.1.23'' = Some (toy_inet ''192.168.1.23'')"
    "0 \<le> ne_sock lan_env AF_INET" "ne_send_ok lan_env"
    by (simp_all only: lan_env_def net_env.simps)
  have l: "''192.168.1.23'' \<noteq> []" "''5000'' \<noteq> []" "(5000 :: int) \<le> 65535"
    "length (replicate 48 0 :: u8 list) = 48" "lan_request = \<lparr>rq_buffer = Some (the (rq_buffer lan_request)),
       rq_size = 48, rq_ip = ''192.168.1.23'', rq_port = ''5000''\<rparr>"
    by (simp_all add: lan_request_def)
  note exchange_ok [OF served_daemon_props(1) exact_fpu_ok served_daemon_props(2) l(4) req
      l(5) l(1,2) port_5000 l(3) e lan_client_served zero_packet_not_kod zero_packet_not_kod,
      of None None None ido_zero]
  then show thesis by (elim exE conjE) (rule that, assumption, simp)
qed

lemma answered_only_if_witness:
  "\<exists>resp :: u8 list. length resp = 48 \<and>
     rate_limit_check toy_inet 1000 (Some ''192.168.1.23'') (g_mode served_daemon) = Inr (0, g_mode served_daemon)"
proof -
  obtain out d' addr resp where
    "handle_peer_request_thread exact_fpu lan_env 1000 None None None zero_packet lan_request served_daemon
      = Inr (out, d')" "out_reply out = Some (addr, resp)" using lan_exchange by blast
  note answered_only_if [OF this, of "the (rq_buffer lan_request)"]
  moreover have "rq_buffer lan_request = Some (the (rq_buffer lan_request))"
    "rq_ip lan_request = ''192.168.1.23''" "ne_inet_addr lan_env = toy_inet"
    by (simp_all add: lan_request_def lan_env_def)
  ultimately show ?thesis by metis
qed

text \<open>
  A daemon whose access list is still empty answers nobody, whatever arrives and
  whatever the clocks and the network do, no reply is sent, because the default policy
  refuses.
\<close>

theorem fresh_daemon_answers_nobody:
  assumes "g_mode d = initial_mode_state" and "rq_buffer rq = Some buf"
    and "handle_peer_request_thread F E now clk t2 t3 pkt0 rq d = Inr (out, d')"
  shows "out_reply out = None"
proof (cases "out_reply out")
  case (Some x)
  then obtain addr resp where "out_reply out = Some (addr, resp)" by (cases x) auto
  from answered_conditions [OF assms(3) this assms(2)] show ?thesis
    by (simp add: assms(1) initial_acl_refuses)
qed

text \<open>
  A client that says its own clock is not synchronised (leap indicator 3, what every
  client sends before its first synchronisation) is let through every check and then gets
  no answer; the buffer and the request data are never freed, so each such request leaks.
\<close>

theorem unsynchronised_client_leaks:
  assumes "unlocked d" "fpu_ok F" "g_mode_config (g_mode d) = default_mode_config"
    "rq_buffer rq = Some buf" "rq_size rq = 48" "length buf = 48" "rq_ip rq \<noteq> []" "rq_port rq \<noteq> []"
    "\<not> ntp_is_kod (Some pkt0)" "buf ! 0 = 0xE3" "buf ! 1 \<le> 16"
    "served E now (rq_ip rq) NTP_MODE_CLIENT (g_mode d)"
  shows "handle_peer_request_thread F E now clk t2 t3 pkt0 rq d =
    Inr (\<lparr>out_reply = None, out_broadcast = None, out_freed = False\<rparr>, d)"
proof -
  define pkt where "pkt = hdr_dec buf pkt0"
  have b: "pkt_li_vn_mode pkt = 0xE3" using assms(10) by (simp add: pkt_def hdr_dec_def)
  have bits: "leap_of 0xE3 = 3" "version_of 0xE3 = 4" "mode_of 0xE3 = NTP_MODE_CLIENT"
    by (simp_all add: leap_of_def version_of_def mode_of_def)
  have "accepted pkt" using assms(11) by (simp add: accepted_def b bits) (simp add: pkt_def hdr_dec_def)
  then have parse: "parse_ntp_packet (Some buf) 48 (Some pkt0) (g_ido_state d) = Inr (True, Some pkt, g_ido_state d)"
    using assms(6,9) by (simp add: parse_ntp_packet_eq pkt_def mac_read_def)
  obtain r where acl: "r \<noteq> 0"
    "on_mode (acl_check_client (ne_inet_addr E) (Some (rq_ip rq)) NTP_MODE_CLIENT) d = Inr (r, d)"
    using served_checks(1) [OF assms(1,12)] by blast
  have "on_mode (validate_packet_authentication (Some buf) 48) d = Inr (0, d)"
    by (simp add: on_mode_def validate_packet_authentication_def)
  moreover have "on_mode (validate_packet_mode F NTP_MODE_SERVER (of_nat 48) 48) d = Inr (0, d)"
    by (rule ratio_ok) (use assms in \<open>simp_all add: default_mode_config_def\<close>)
  ultimately show ?thesis
    using assms acl parse served_checks(2) [OF assms(1,12)] parsed_not_kod [OF parse]
    by (simp add: handle_peer_request_thread_def answer_request_def Let_def validate_ntp_version_def
        reply_mode_def handle_leap_indicator_def leaked_def b bits)
qed

lemma unsynchronised_client_leaks_witness:
  "handle_peer_request_thread exact_fpu lan_env 1000 None None None zero_packet
    \<lparr>rq_buffer = Some (0xE3 # replicate 47 0), rq_size = 48, rq_ip = ''192.168.1.23'', rq_port = ''5000''\<rparr>
    served_daemon = Inr (\<lparr>out_reply = None, out_broadcast = None, out_freed = False\<rparr>, served_daemon)"
  by (rule unsynchronised_client_leaks [where buf = "0xE3 # replicate 47 0"])
    (simp_all add: served_daemon_props exact_fpu_ok zero_packet_not_kod lan_client_served)

lemma fresh_refuses_lan_request:
  "handle_peer_request_thread exact_fpu lan_env 1000 None None None zero_packet lan_request initial_daemon
    = Inr (\<lparr>out_reply = None, out_broadcast = None, out_freed = True\<rparr>, initial_daemon)"
proof -
  define buf where "buf = the (rq_buffer lan_request)"
  have rq: "rq_buffer lan_request = Some buf" "rq_size lan_request = 48" "rq_ip lan_request \<noteq> []"
    "rq_port lan_request \<noteq> []" "length buf = 48" "buf ! 0 = 0x23" "buf ! Suc 0 = 0"
    by (simp_all add: buf_def lan_request_def)
  define pkt where "pkt = hdr_dec buf zero_packet"
  have b: "pkt_li_vn_mode pkt = 0x23" using rq by (simp add: pkt_def hdr_dec_def)
  have bits: "leap_of 0x23 = 0" "version_of 0x23 = 4" "mode_of 0x23 = NTP_MODE_CLIENT"
    by (simp_all add: leap_of_def version_of_def mode_of_def)
  have "accepted pkt" using rq(7) by (simp add: accepted_def b bits) (simp add: pkt_def hdr_dec_def)
  then have parse: "parse_ntp_packet (Some buf) 48 (Some zero_packet) g = Inr (True, Some pkt, g)" for g
    using rq zero_packet_not_kod by (simp add: parse_ntp_packet_eq pkt_def mac_read_def)
  have m: "g_mode initial_daemon = initial_mode_state" "initial_daemon\<lparr>g_mode := initial_mode_state\<rparr> = initial_daemon"
    by (simp_all add: initial_daemon_def)
  then have "on_mode (validate_packet_authentication (Some buf) 48) initial_daemon = Inr (0, initial_daemon)"
    "on_mode (acl_check_client (ne_inet_addr lan_env) (Some (rq_ip lan_request)) NTP_MODE_CLIENT)
       initial_daemon = Inr (0, initial_daemon)"
    by (simp_all add: on_mode_def validate_packet_authentication_def initial_acl_refuses)
  then show ?thesis
    using rq by (simp add: handle_peer_request_thread_def answer_request_def Let_def parse b bits
        validate_ntp_version_def refused_def)
qed

lemma fresh_daemon_answers_nobody_witness:
  "\<exists>out d'. handle_peer_request_thread exact_fpu lan_env 1000 None None None zero_packet lan_request
     initial_daemon = Inr (out, d') \<and> out_reply out = None"
proof -
  have "g_mode initial_daemon = initial_mode_state" "rq_buffer lan_request = Some (the (rq_buffer lan_request))"
    by (simp_all add: initial_daemon_def lan_request_def)
  from fresh_daemon_answers_nobody [OF this fresh_refuses_lan_request]
  show ?thesis using fresh_refuses_lan_request by blast
qed

subsection \<open>Two threads and one block of memory\<close>

text \<open>
  \<open>handle_client_request\<close> (socket.c) makes a copy of the request, with the address and port cut to their
  arrays, hands it to a new thread, and then frees it itself. \<open>heap_op\<close> is what a thread does with
  the block of the request data. The result: what the caller still does with the block once the
  new thread may run, or when something has failed, and the data that was handed over, \<open>None\<close> when
  an allocation or the creation of the thread has failed.
\<close>

datatype heap_op = UseBlock | FreeBlock

definition handle_client_request ::
    "bool \<Rightarrow> bool \<Rightarrow> bool \<Rightarrow> u8 list \<Rightarrow> nat \<Rightarrow> string option \<Rightarrow> string option \<Rightarrow>
     heap_op list \<times> PeerRequestData option" where
  "handle_client_request malloc_ok buffer_ok create_ok buffer sz ip port =
     (if \<not> malloc_ok then ([], None)
      else if \<not> buffer_ok then ([FreeBlock], None)
      else
        (let data = \<lparr>rq_buffer = Some (take sz buffer), rq_size = sz,
                     rq_ip = take 15 (case ip of None \<Rightarrow> [] | Some s \<Rightarrow> s),
                     rq_port = take 15 (case port of None \<Rightarrow> [] | Some s \<Rightarrow> s)\<rparr>
         in if \<not> create_ok then ([UseBlock, FreeBlock], None) else ([FreeBlock], Some data)))"

text \<open>
  What the new thread does with the block: it reads buffer, size, address and port, handles the request, and
  on the way out reads the buffer again to free it and frees the block, if the handler says
  so (\<open>out_freed\<close>). A handler that does not return gets no further.
\<close>

definition handler_ops ::
    "fpu \<Rightarrow> net_env \<Rightarrow> int \<Rightarrow> timespec option \<Rightarrow> timespec option \<Rightarrow> timespec option \<Rightarrow> NtpPacket \<Rightarrow>
     PeerRequestData \<Rightarrow> daemon \<Rightarrow> heap_op list" where
  "handler_ops F E now clk t2 t3 pkt0 rq d =
     replicate 4 UseBlock @
     (case handle_peer_request_thread F E now clk t2 t3 pkt0 rq d of
        Inl _ \<Rightarrow> []
      | Inr (out, _) \<Rightarrow> if out_freed out then [UseBlock, FreeBlock] else [])"

text \<open>
  The two threads at the same time: what each has still to do, and the state of the block. A step is one
  operation of either thread.
\<close>

datatype block = Live | Gone | Corrupt

record two_threads =
  parent_ops :: "heap_op list"
  child_ops :: "heap_op list"
  req_block :: block

fun do_op :: "heap_op \<Rightarrow> block \<Rightarrow> block" where
  "do_op UseBlock Live = Live"
| "do_op FreeBlock Live = Gone"
| "do_op _ _ = Corrupt"

inductive sched :: "two_threads \<Rightarrow> two_threads \<Rightarrow> bool" where
  parent: "parent_ops c = x # xs \<Longrightarrow> sched c (c\<lparr>parent_ops := xs, req_block := do_op x (req_block c)\<rparr>)"
| child: "child_ops c = x # xs \<Longrightarrow> sched c (c\<lparr>child_ops := xs, req_block := do_op x (req_block c)\<rparr>)"

definition finished :: "two_threads \<Rightarrow> bool" where
  "finished c \<longleftrightarrow> parent_ops c = [] \<and> child_ops c = []"

subsubsection \<open>When the handler frees the data\<close>

text \<open>The answer can be sent.\<close>

definition can_answer :: "net_env \<Rightarrow> PeerRequestData \<Rightarrow> bool" where
  "can_answer E rq \<longleftrightarrow> rq_port rq \<noteq> [] \<and> (\<exists>p. strtoul (rq_port rq) = (p, False, []) \<and> p \<le> 65535) \<and>
     ne_inet_pton E (rq_ip rq) \<noteq> None \<and> 0 \<le> ne_sock E AF_INET \<and> ne_send_ok E"

lemma send_reply_frees:
  assumes "send_reply E now t2 t3 m pkt (rq_ip rq) (rq_port rq) d = Inr (out, e)" "can_answer E rq"
  shows "out_freed out"
proof -
  obtain p a where p: "strtoul (rq_port rq) = (p, False, [])" "p \<le> 65535" "rq_port rq \<noteq> []"
      "ne_inet_pton E (rq_ip rq) = Some a" "0 \<le> ne_sock E AF_INET" "ne_send_ok E"
    using assms(2) by (auto simp: can_answer_def)
  from assms(1) obtain r d1 where b: "build_response m pkt t2 t3 d = Inr (r, d1)"
    unfolding send_reply_def by (auto elim: bindR_eq_InrE)
  show ?thesis
    using assms(1) p
    by (auto simp: send_reply_def b network4_parse_address_def network4_create_socket_def Let_def split: prod.splits)
qed

lemma gate_frees:
  assumes "(if c then refused d0 else m) = Inr (out, d')" "\<not> c \<Longrightarrow> m = Inr (out, d') \<Longrightarrow> out_freed out"
  shows "out_freed out"
  using assms by (auto simp: refused_def split: if_splits)

lemma bind_frees:
  assumes "bindR m k = Inr (out, d')" "\<And>x y. m = Inr (x, y) \<Longrightarrow> k (x, y) = Inr (out, d') \<Longrightarrow> out_freed out"
  shows "out_freed out"
  using assms by (auto simp: bindR_eq_Inr_iff)

lemma answer_request_frees:
  assumes "answer_request F E now clk t2 t3 pkt rq d = Inr (out, d')"
    and "\<not> ntp_is_kod (Some pkt)" "leap_of (pkt_li_vn_mode pkt) \<noteq> 3" "can_answer E rq"
  shows "out_freed out"
proof -
  let ?m = "mode_of (pkt_li_vn_mode pkt)"
  have "leap_of (pkt_li_vn_mode pkt) = 0 \<or> leap_of (pkt_li_vn_mode pkt) = 1 \<or> leap_of (pkt_li_vn_mode pkt) = 2"
    using leap_of_le [of "pkt_li_vn_mode pkt"] assms(3) by (simp add: word_le_nat_alt word_unat_eq_iff) arith
  then have leap: "\<not> skip" if "handle_leap_indicator clk now (leap_of (pkt_li_vn_mode pkt)) x = Inr (skip, y)" for x y skip
    using that by (auto simp: handle_leap_indicator_def bindR_eq_Inr_iff split: if_splits)
  show ?thesis
    using assms(1) unfolding answer_request_def Let_def
    by (elim bind_frees gate_frees) (auto simp: assms(2) bindR_eq_Inr_iff refused_def dest!: leap
        intro: send_reply_frees [OF _ assms(4)] split: if_splits)
qed

lemma handler_frees:
  assumes h: "handle_peer_request_thread F E now clk t2 t3 pkt0 rq d = Inr (out, d')"
    and buf: "rq_buffer rq = Some buf"
    and free: "rq_size rq < 48 \<or> leap_of (buf ! 0) \<noteq> 3 \<and> can_answer E rq"
  shows "out_freed out"
proof (cases "rq_size rq < 48")
  case True
  then show ?thesis using h by (simp add: handle_peer_request_thread_def refused_def) auto
next
  case n: False
  show ?thesis
  proof (cases "rq_ip rq = [] \<or> rq_port rq = []")
    case True
    then show ?thesis using h buf n by (auto simp: handle_peer_request_thread_def refused_def)
  next
    case False
    then obtain ok p g where p: "parse_ntp_packet (Some buf) (rq_size rq) (Some pkt0) (g_ido_state d) = Inr (ok, p, g)"
      using h buf n by (auto simp: handle_peer_request_thread_def bindR_eq_Inr_iff)
    show ?thesis
    proof (cases ok)
      case False
      then show ?thesis using h buf n \<open>\<not> (rq_ip rq = [] \<or> rq_port rq = [])\<close> p
        by (auto simp: handle_peer_request_thread_def refused_def Let_def)
    next
      case True
      have b: "pkt_li_vn_mode (the p) = buf ! 0" using p True n
        by (auto simp: parse_ntp_packet_eq mac_read_def hdr_dec_def split: if_splits)
      have "p \<noteq> None" using p True n by (auto simp: parse_ntp_packet_eq split: if_splits)
      then have kod: "\<not> ntp_is_kod (Some (the p))" using parsed_not_kod p True by fastforce
      note answer = answer_request_frees [where pkt = "the p", OF _ kod]
      show ?thesis
        using h buf n \<open>\<not> (rq_ip rq = [] \<or> rq_port rq = [])\<close> p True free
        by (auto simp: handle_peer_request_thread_def Let_def bindR_eq_Inr_iff refused_def b
            intro: answer [unfolded b] split: if_splits)
    qed
  qed
qed

subsubsection \<open>Every interleaving\<close>

definition frees :: "heap_op list \<Rightarrow> nat" where
  "frees xs = length (filter ((=) FreeBlock) xs)"

text \<open>What is left to free, and what the block has gone through, add up.\<close>

definition accounted :: "nat \<Rightarrow> two_threads \<Rightarrow> bool" where
  "accounted n c \<longleftrightarrow> (case req_block c of
     Live \<Rightarrow> frees (parent_ops c) + frees (child_ops c) = n
   | Gone \<Rightarrow> Suc (frees (parent_ops c) + frees (child_ops c)) = n
   | Corrupt \<Rightarrow> True)"

lemma frees_simps [simp]: "frees [] = 0" "frees (x # xs) = (if x = FreeBlock then Suc (frees xs) else frees xs)"
  by (simp_all add: frees_def eq_commute)

lemma sched_accounted: "sched c c' \<Longrightarrow> accounted n c \<Longrightarrow> accounted n c'"
proof (induction rule: sched.induct)
  case (parent c x xs)
  then show ?case by (cases x; cases "req_block c") (auto simp: accounted_def)
next
  case (child c x xs)
  then show ?case by (cases x; cases "req_block c") (auto simp: accounted_def)
qed

lemma scheds_accounted: "sched\<^sup>*\<^sup>* c c' \<Longrightarrow> accounted n c \<Longrightarrow> accounted n c'"
  by (induction rule: rtranclp_induct) (auto intro: sched_accounted)

text \<open>
  C15: no schedule is safe. Let \<open>handle_client_request\<close> hand a request over, and the handler return; let
  the request be shorter than 48 bytes, or not in leap indicator 3 and from a client to which an answer can be sent. Then in every
  interleaving of the two threads, once both have finished, the block of the request data has been
  freed twice or used after it was freed.
\<close>

theorem handed_over_request_is_freed_twice:
  assumes "handle_client_request malloc_ok buffer_ok create_ok buffer sz ip port = (ops, Some rq)"
    and "handle_peer_request_thread F E now clk t2 t3 pkt0 rq d = Inr (out, d')"
    and "sz < 48 \<or> leap_of (buffer ! 0) \<noteq> 3 \<and> can_answer E rq"
    and "sched\<^sup>*\<^sup>* \<lparr>parent_ops = ops, child_ops = handler_ops F E now clk t2 t3 pkt0 rq d, req_block = Live\<rparr> c"
    and "finished c"
  shows "req_block c = Corrupt"
proof -
  have rq: "ops = [FreeBlock]" "rq_buffer rq = Some (take sz buffer)" "rq_size rq = sz"
    using assms(1) by (auto simp: handle_client_request_def Let_def split: if_splits)
  have "rq_size rq < 48 \<or> leap_of (take sz buffer ! 0) \<noteq> 3 \<and> can_answer E rq"
    using assms(3) rq(3) by (cases "sz < 48") auto
  then have "out_freed out" by (rule handler_frees [OF assms(2) rq(2)])
  then have "accounted 2 \<lparr>parent_ops = ops, child_ops = handler_ops F E now clk t2 t3 pkt0 rq d, req_block = Live\<rparr>"
    using assms(2) rq(1) by (simp add: accounted_def handler_ops_def numeral_eq_Suc)
  then have "accounted 2 c" by (rule scheds_accounted [OF assms(4)])
  then show ?thesis using assms(5) by (simp add: accounted_def finished_def split: block.splits)
qed

lemma run_child:
  "sched\<^sup>*\<^sup>* \<lparr>parent_ops = [], child_ops = xs, req_block = b\<rparr>
     \<lparr>parent_ops = [], child_ops = [], req_block = fold do_op xs b\<rparr>"
proof (induction xs arbitrary: b)
  case (Cons x xs)
  have "sched \<lparr>parent_ops = [], child_ops = x # xs, req_block = b\<rparr>
      \<lparr>parent_ops = [], child_ops = xs, req_block = do_op x b\<rparr>"
    using sched.child [of "\<lparr>parent_ops = [], child_ops = x # xs, req_block = b\<rparr>" x xs] by simp
  then show ?case using Cons [of "do_op x b"] by (simp add: converse_rtranclp_into_rtranclp)
qed simp

text \<open>The caller frees first; the handler then works on what is left.\<close>

lemma handed_over_request_is_freed_twice_witness:
  "\<exists>rq out c. handle_client_request True True True (the (rq_buffer lan_request)) 48 (Some ''192.168.1.23'') (Some ''5000'')
      = ([FreeBlock], Some rq) \<and>
    handle_peer_request_thread exact_fpu lan_env 1000 None None None zero_packet rq served_daemon = Inr out \<and>
    sched\<^sup>*\<^sup>* \<lparr>parent_ops = [FreeBlock], child_ops = handler_ops exact_fpu lan_env 1000 None None None zero_packet rq served_daemon,
      req_block = Live\<rparr> c \<and> finished c \<and> req_block c = Corrupt"
proof -
  define buf where "buf = the (rq_buffer lan_request)"
  have buf: "length buf = 48" "buf ! 0 = 0x23" by (simp_all add: buf_def lan_request_def)
  have rq: "handle_client_request True True True buf 48 (Some ''192.168.1.23'') (Some ''5000'') = ([FreeBlock], Some lan_request)"
    using buf(1) by (simp add: handle_client_request_def) (simp add: buf_def lan_request_def)
  obtain out d' addr resp where h: "handle_peer_request_thread exact_fpu lan_env 1000 None None None zero_packet lan_request
      served_daemon = Inr (out, d')" using lan_exchange by blast
  have can: "can_answer lan_env lan_request"
    unfolding can_answer_def using port_5000 by (simp add: lan_request_def lan_env_def)
  let ?ops = "handler_ops exact_fpu lan_env 1000 None None None zero_packet lan_request served_daemon"
  let ?start = "\<lparr>parent_ops = [FreeBlock], child_ops = ?ops, req_block = Live\<rparr>"
  let ?e = "\<lparr>parent_ops = [], child_ops = [], req_block = fold do_op ?ops Gone\<rparr>"
  have "sched ?start \<lparr>parent_ops = [], child_ops = ?ops, req_block = Gone\<rparr>"
    using sched.parent [of ?start FreeBlock "[]"] by simp
  then have r: "sched\<^sup>*\<^sup>* ?start ?e" using run_child [of ?ops Gone] by (rule converse_rtranclp_into_rtranclp)
  have f: "finished ?e" by (simp add: finished_def)
  have "leap_of (buf ! 0) \<noteq> 3" by (simp add: buf(2) leap_of_def)
  with can have "req_block ?e = Corrupt"
    by (intro handed_over_request_is_freed_twice [OF rq h _ r f]) simp
  then show ?thesis using rq h r f by (intro exI [of _ lan_request] exI [of _ "(out, d')"] exI [of _ ?e]) (simp add: buf_def)
qed

subsection \<open>The ntpq listener\<close>

text \<open>
  \<open>get_tcp_socket\<close>, \<open>start_tcp_listener\<close> and \<open>stop_tcp_listener\<close> on the cached listening
  socket, and the parts of texts; the answers themselves are in Ntpq.
\<close>

definition get_tcp_socket :: "int \<Rightarrow> int" where
  "get_tcp_socket tcp_sock = tcp_sock"

definition start_tcp_listener ::
    "(family \<Rightarrow> int) \<Rightarrow> (string \<Rightarrow> u32 option) \<Rightarrow> (int \<Rightarrow> u16 \<Rightarrow> bool) \<Rightarrow> (int \<Rightarrow> bool) \<Rightarrow> int \<Rightarrow> int" where
  "start_tcp_listener sock_of inet_pton bind_ok listen_ok tcp_sock =
     (if 0 \<le> tcp_sock then tcp_sock
      else fst (create_tcp_socket sock_of inet_pton bind_ok listen_ok 323))"

text \<open>The new value of the cached socket, and what was closed.\<close>

definition stop_tcp_listener :: "int \<Rightarrow> int \<times> int list" where
  "stop_tcp_listener tcp_sock = (if 0 \<le> tcp_sock then (- 1, [tcp_sock]) else (tcp_sock, []))"

definition signed_decimal :: "int \<Rightarrow> string" where
  "signed_decimal x = (if x < 0 then CHR ''-'' # decimal (nat (- x)) else decimal (nat x))"

definition hex_digit :: "nat \<Rightarrow> char" where
  "hex_digit n = (if n < 10 then char_of (48 + n) else char_of (87 + n))"

definition hex2 :: "u8 \<Rightarrow> string" where
  "hex2 b = [hex_digit (unat b div 16), hex_digit (unat b mod 16)]"

definition newline :: string where
  "newline = [CHR 0x0A]"

definition crlf :: string where
  "crlf = [CHR 0x0D, CHR 0x0A]"

definition tab :: string where
  "tab = [CHR 0x09]"

end
