(* ===== verification/Threads.thy ===== *)
theory Threads
  imports Sync Server
begin

section \<open>Peer threads and clock thread (threads.c)\<close>

text \<open>
  The two kinds of threads: what one datagram does in a peer thread and one turn of the loop in
  the clock thread, the loops over any sequence of what the kernel answers, and starting,
  stopping and cleaning up. A thread that was detached may not be joined; joining it is
  \<open>Undefined\<close>. So is using a mutex that has been destroyed.
\<close>

abbreviation MAX_PEERS :: int where "MAX_PEERS \<equiv> 8"
abbreviation STEP :: int where "STEP \<equiv> 1"
abbreviation SLEW :: int where "SLEW \<equiv> 2"

subsection \<open>A peer thread's mutex\<close>

abbreviation upd_peer :: "nat \<Rightarrow> (PeerThreadContext \<Rightarrow> PeerThreadContext) \<Rightarrow> daemon \<Rightarrow> daemon" where
  "upd_peer i f d \<equiv> d\<lparr>g_peer_ctx := (g_peer_ctx d)(i := f (g_peer_ctx d i))\<rparr>"

definition with_sock_mutex ::
    "nat \<Rightarrow> (daemon \<Rightarrow> ('a \<times> daemon) run) \<Rightarrow> daemon \<Rightarrow> ('a \<times> daemon) run" where
  "with_sock_mutex i body d =
     (if \<not> px_mutex_ok (g_peer_ctx d i) then Inl Undefined
      else with_mutex (\<lambda>d. px_mutex (g_peer_ctx d i)) (\<lambda>b. upd_peer i (\<lambda>p. p\<lparr>px_mutex := b\<rparr>)) body d)"

interpretation pxm: mutex "\<lambda>d. px_mutex (g_peer_ctx d i)" "\<lambda>b. upd_peer i (\<lambda>p. p\<lparr>px_mutex := b\<rparr>)" for i
  by unfold_locales auto

subsection \<open>One request\<close>

text \<open>
  The reply is the packet record itself, 80 bytes in the machine's layout: little-endian,
  64-bit \<open>size_t\<close>, three bytes of padding at the end.
\<close>

definition le32 :: "u32 \<Rightarrow> u8 list" where
  "le32 x = rev (u32_to_bytes x)"

definition le64 :: "u64 \<Rightarrow> u8 list" where
  "le64 x = map (\<lambda>i. ucast (drop_bit (8 * i) x)) [0..<8]"

definition le_ts :: "NtpTimestamp \<Rightarrow> u8 list" where
  "le_ts t = le32 (ts_sec t) @ le32 (ts_frac t)"

abbreviation sizeof_NtpPacket :: nat where "sizeof_NtpPacket \<equiv> 80"

definition packet_memory :: "NtpPacket \<Rightarrow> u8 list" where
  "packet_memory p =
     [pkt_li_vn_mode p, pkt_stratum p, pkt_poll p, pkt_precision p] @
     le32 (pkt_root_delay p) @ le32 (pkt_root_disp p) @ le32 (pkt_ref_id p) @
     le_ts (pkt_ref_ts p) @ le_ts (pkt_orig_ts p) @ le_ts (pkt_recv_ts p) @ le_ts (pkt_xmit_ts p) @
     le64 (of_nat (pkt_extension_len p)) @ [pkt_key_id p] @ pkt_mac_digest p @ [0, 0, 0]"

definition peer_response :: "NtpPacket \<Rightarrow> timespec option \<Rightarrow> daemon \<Rightarrow> NtpPacket" where
  "peer_response pkt now d =
     zero_packet\<lparr>pkt_li_vn_mode := push_bit 6 0 OR push_bit 3 NTP_VN_4 OR 3,
       pkt_stratum := g_local_stratum d, pkt_precision := byte_of (g_local_precision d),
       pkt_poll := byte_of (g_peer_poll d), pkt_root_delay := g_local_root_delay d,
       pkt_root_disp := g_local_root_disp d, pkt_ref_id := g_local_ref_id d,
       pkt_ref_ts := g_local_ref_ts d, pkt_recv_ts := pkt_recv_ts pkt,
       pkt_xmit_ts := pkt_xmit_ts pkt, pkt_orig_ts := ntp_timestamp_now now\<rparr>"

text \<open>Result: the return code and what was sent. \<open>buffer\<close> has at least \<open>sz\<close> bytes.\<close>

definition handle_peer_request ::
    "bool \<Rightarrow> timespec option \<Rightarrow> u8 list \<Rightarrow> nat \<Rightarrow> int \<Rightarrow> daemon \<Rightarrow> ((int \<times> u8 list option) \<times> daemon) run" where
  "handle_peer_request send_ok now buffer sz peer_idx d =
     (if peer_idx < 0 \<or> MAX_PEERS \<le> peer_idx then Inr ((- 1, None), d)
      else if sz < sizeof_NtpPacket then Inr ((- 1, None), d)
      else
        bindR (parse_ntp_packet (Some buffer) sz (Some zero_packet) (g_ido_state d)) (\<lambda>(ok, p, g).
        let d = d\<lparr>g_ido_state := g\<rparr>
        in if \<not> ok then Inr ((- 1, None), d)
           else if mode_of (pkt_li_vn_mode (the p)) \<noteq> NTP_MODE_CLIENT then Inr ((- 1, None), d)
           else with_sock_mutex (nat peer_idx) (\<lambda>d.
             if px_sock_valid (g_peer_ctx d (nat peer_idx)) then
               (if \<not> send_ok then Inr ((- 1, None), d)
                else Inr ((0, Some (packet_memory (peer_response (the p) now d))), d))
             else Inr ((0, None), d)) d))"

subsection \<open>The loop of a peer thread\<close>

text \<open>What one \<open>recvfrom\<close> can give, and what the loop has sent, latest first.\<close>

datatype recv_result =
    WouldBlock
  | RecvError
  | Datagram "u8 list" bool "timespec option"

text \<open>
  \<open>peer_thread_loop\<close> takes one result after another; it has left the loop when the first
  component is true. The receive buffer of 1024 bytes is zeroed for every datagram.
\<close>

fun peer_thread_loop ::
    "nat \<Rightarrow> recv_result list \<Rightarrow> u8 list list \<Rightarrow> daemon \<Rightarrow> (bool \<times> u8 list list \<times> daemon) run" where
  "peer_thread_loop idx [] sent d = Inr (\<not> g_peer_threads_running d idx, sent, d)"
| "peer_thread_loop idx (r # rs) sent d =
     (if \<not> g_peer_threads_running d idx then Inr (True, sent, d)
      else (case r of
              WouldBlock \<Rightarrow> peer_thread_loop idx rs sent d
            | RecvError \<Rightarrow> Inr (True, sent, d)
            | Datagram bytes send_ok now \<Rightarrow>
                (let bs = take 1024 bytes
                 in bindR (handle_peer_request send_ok now (bs @ replicate (1024 - length bs) 0) (length bs)
                             (int idx) d)
                      (\<lambda>((_, out), d). peer_thread_loop idx rs
                         (case out of None \<Rightarrow> sent | Some b \<Rightarrow> b # sent) d))))"

definition peer_thread_main ::
    "int \<Rightarrow> recv_result list \<Rightarrow> daemon \<Rightarrow> (bool \<times> u8 list list \<times> daemon) run" where
  "peer_thread_main idx rs d =
     (if idx < 0 \<or> MAX_PEERS \<le> idx then Inr (True, [], d)
      else
        (let i = nat idx;
             d = d\<lparr>g_peer_threads_running := (g_peer_threads_running d)(i := True)\<rparr>
         in bindR (with_sock_mutex i (\<lambda>d. Inr ((), upd_peer i (\<lambda>p. p\<lparr>px_sock_valid := True\<rparr>) d)) d) (\<lambda>(_, d).
            bindR (peer_thread_loop i rs [] d) (\<lambda>(left, sent, d).
              if left then
                Inr (True, sent, (upd_peer i (\<lambda>p. p\<lparr>px_sock_valid := False\<rparr>) d)
                       \<lparr>g_peer_threads_running := (g_peer_threads_running d)(i := False)\<rparr>)
              else Inr (False, sent, d)))))"

subsection \<open>Starting and stopping peer threads\<close>

definition peer_thread_init :: "bool \<Rightarrow> int \<Rightarrow> string \<Rightarrow> string \<Rightarrow> nat \<Rightarrow> daemon \<Rightarrow> int \<times> daemon" where
  "peer_thread_init mutex_init_ok sock_fd ip port idx d =
     (let d = upd_peer idx (\<lambda>_. zero_peer_ctx\<lparr>px_ip := take 15 ip, px_port := take 15 port,
                px_sock_fd := sock_fd, px_mutex_ok := mutex_init_ok\<rparr>) d
      in if \<not> mutex_init_ok then (- 1, d) else (0, d))"

definition start_peer_thread ::
    "bool \<Rightarrow> bool \<Rightarrow> bool \<Rightarrow> int \<Rightarrow> string option \<Rightarrow> string option \<Rightarrow> int \<Rightarrow> daemon \<Rightarrow> (int \<times> daemon) run" where
  "start_peer_thread init_ok create_ok detach_ok sock_fd ip port idx d =
     (if sock_fd < 0 \<or> ip = None \<or> port = None \<or> idx < 0 \<or> MAX_PEERS \<le> idx then Inr (- 1, d)
      else
        (let i = nat idx; (ret, d) = peer_thread_init init_ok sock_fd (the ip) (the port) i d
         in if ret \<noteq> 0 then Inr (- 1, d)
            else if \<not> create_ok then Inr (- 1, d)
            else if \<not> detach_ok then Inr (- 1, d)
            else
              (let d = d\<lparr>g_peer_threads_running := (g_peer_threads_running d)(i := True)\<rparr>
               in with_sock_mutex i (\<lambda>d.
                    Inr (0, upd_peer i (\<lambda>p. p\<lparr>px_sock_valid := True, px_sock_fd := sock_fd\<rparr>) d)) d)))"

fun stop_peers :: "nat list \<Rightarrow> daemon \<Rightarrow> daemon run" where
  "stop_peers [] d = Inr d"
| "stop_peers (i # is) d = (if g_peer_threads_running d i then Inl Undefined else stop_peers is d)"

definition stop_peer_thread :: "daemon \<Rightarrow> daemon run" where
  "stop_peer_thread d = stop_peers [0..<length (g_peer_pool d)] d"

text \<open>What is closed, in order.\<close>

fun cleanup_peers :: "nat list \<Rightarrow> daemon \<Rightarrow> (int list \<times> daemon) run" where
  "cleanup_peers [] d = Inr ([], d)"
| "cleanup_peers (i # is) d =
     (if g_peer_threads_running d i then cleanup_peers is d
      else
        bindR (with_sock_mutex i (\<lambda>d.
                 let fd = px_sock_fd (g_peer_ctx d i)
                 in if 0 \<le> fd then Inr ([fd], upd_peer i (\<lambda>p. p\<lparr>px_sock_fd := - 1\<rparr>) d)
                    else Inr ([], d)) d)
          (\<lambda>(closed, d).
             bindR (cleanup_peers is (upd_peer i (\<lambda>p. p\<lparr>px_mutex_ok := False\<rparr>) d))
               (\<lambda>(more, d). Inr (closed @ more, d))))"

definition cleanup_peer_thread :: "daemon \<Rightarrow> (int list \<times> daemon) run" where
  "cleanup_peer_thread d = cleanup_peers [0..<length (g_peer_pool d)] d"

subsection \<open>The clock thread\<close>

abbreviation upd_clock :: "(ClockThreadContext \<Rightarrow> ClockThreadContext) \<Rightarrow> daemon \<Rightarrow> daemon" where
  "upd_clock f d \<equiv> d\<lparr>g_clock_ctx := f (g_clock_ctx d)\<rparr>"

text \<open>Lock, act, unlock: nothing that is done under the clock mutex locks it again.\<close>

definition with_clock_mutex :: "(daemon \<Rightarrow> 'a \<times> daemon) \<Rightarrow> daemon \<Rightarrow> ('a \<times> daemon) run" where
  "with_clock_mutex f d = (if ck_mutex_ok (g_clock_ctx d) then Inr (f d) else Inl Undefined)"

definition update_system_clock :: "int \<Rightarrow> int \<Rightarrow> daemon \<Rightarrow> (unit \<times> daemon) run" where
  "update_system_clock offset_us correction =
     with_clock_mutex (\<lambda>d. ((), upd_clock (\<lambda>c. c\<lparr>ck_last_offset_us := offset_us,
                                                ck_last_correction := correction\<rparr>) d))"

definition clock_thread_notify :: "daemon \<Rightarrow> (int \<times> daemon) run" where
  "clock_thread_notify = with_clock_mutex (\<lambda>d. (0, d))"

definition clock_thread_get_last_offset :: "daemon \<Rightarrow> (int \<times> daemon) run" where
  "clock_thread_get_last_offset = with_clock_mutex (\<lambda>d. (ck_last_offset_us (g_clock_ctx d), d))"

definition clock_thread_get_last_correction :: "daemon \<Rightarrow> (int \<times> daemon) run" where
  "clock_thread_get_last_correction = with_clock_mutex (\<lambda>d. (ck_last_correction (g_clock_ctx d), d))"

text \<open>One turn: what \<open>gettimeofday\<close>, the two \<open>clock_gettime\<close> and the wait answer.\<close>

datatype wait_rc = TimedOut | Interrupted | Woken

record clock_turn =
  tn_tv :: "(int \<times> int) option"
  tn_clk :: "timespec option"
  tn_deadline :: "timespec option"
  tn_wait :: wait_rc
  tn_kern :: "clock_cmd \<Rightarrow> int"

definition clock_deadline :: "int \<Rightarrow> timespec \<Rightarrow> timespec" where
  "clock_deadline interval_ms ts =
     (let s = tv_sec ts + interval_ms sdiv 1000; n = tv_nsec ts + (interval_ms smod 1000) * 1000000
      in if 1000000000 \<le> n then \<lparr>tv_sec = s + 1, tv_nsec = n - 1000000000\<rparr>
         else \<lparr>tv_sec = s, tv_nsec = n\<rparr>)"

text \<open>The offset in microseconds that the thread corrects; \<open>frac * 1000\<close> wraps at 32 bits.\<close>

definition clock_offset :: "int \<times> int \<Rightarrow> NtpTimestamp \<Rightarrow> int run" where
  "clock_offset tv last_sync =
     bindR (i64 (fst tv * 1000000000)) (\<lambda>a. bindR (i64 (a + snd tv * 1000)) (\<lambda>now_ns.
     bindR (i64 (uint (ts_sec last_sync) * 1000000000)) (\<lambda>b.
     bindR (i64 (b + uint (ts_frac last_sync * 1000))) (\<lambda>expected_ns.
     bindR (i64 (now_ns - expected_ns)) (\<lambda>offset_ns. Inr (offset_ns sdiv 1000))))))"

text \<open>The loop goes on when the first component is true.\<close>

definition clock_thread_turn :: "clock_turn \<Rightarrow> daemon \<Rightarrow> (bool \<times> daemon) run" where
  "clock_thread_turn T d =
     (case tn_tv T of
        None \<Rightarrow> Inr (True, d)
      | Some tv \<Rightarrow>
          bindR (with_g_mutex (\<lambda>d. Inr (g_last_sync_ts d, d)) d) (\<lambda>(last_sync, d).
          bindR (clock_offset tv last_sync) (\<lambda>offset_us.
          bindR (apply_time_correction_slew_or_step (tn_kern T) (tn_clk T) offset_us d) (\<lambda>(correction, d).
          bindR (update_system_clock offset_us correction d) (\<lambda>(_, d).
          (case tn_deadline T of
             None \<Rightarrow> Inr (True, d)
           | Some ts \<Rightarrow>
               bindR (with_clock_mutex (\<lambda>d. (clock_deadline (ck_interval_ms (g_clock_ctx d)) ts, d)) d) (\<lambda>(_, d).
                 Inr (case tn_wait T of
                        TimedOut \<Rightarrow> True
                      | Interrupted \<Rightarrow> g_clock_thread_running d
                      | Woken \<Rightarrow> False, d))))))))"

fun clock_thread_loop :: "clock_turn list \<Rightarrow> daemon \<Rightarrow> (bool \<times> daemon) run" where
  "clock_thread_loop [] d = Inr (g_clock_thread_running d, d)"
| "clock_thread_loop (T # Ts) d =
     (if \<not> g_clock_thread_running d then Inr (False, d)
      else bindR (clock_thread_turn T d) (\<lambda>(more, d).
             if more then clock_thread_loop Ts d else Inr (False, d)))"

definition clock_thread_main :: "clock_turn list \<Rightarrow> daemon \<Rightarrow> (bool \<times> daemon) run" where
  "clock_thread_main Ts d =
     (if g_servers d = [] then Inr (False, d\<lparr>g_clock_thread_running := False\<rparr>)
      else clock_thread_loop Ts (d\<lparr>g_clock_thread_running := True\<rparr>))"

definition clock_thread_init :: "bool \<Rightarrow> bool \<Rightarrow> int \<Rightarrow> daemon \<Rightarrow> int \<times> daemon" where
  "clock_thread_init mutex_init_ok cond_init_ok interval_ms d =
     (let d = d\<lparr>g_clock_ctx := zero_clock_ctx\<lparr>ck_interval_ms := interval_ms\<rparr>\<rparr>
      in if \<not> mutex_init_ok then (- 1, upd_clock (\<lambda>c. c\<lparr>ck_mutex_ok := False\<rparr>) d)
         else (let ret = (if cond_init_ok then 0 else - 1)
               in (ret, upd_clock (\<lambda>c. c\<lparr>ck_mutex_ok := False\<rparr>) d)))"

definition start_clock_thread :: "bool \<Rightarrow> bool \<Rightarrow> bool \<Rightarrow> bool \<Rightarrow> int \<Rightarrow> daemon \<Rightarrow> int \<times> daemon" where
  "start_clock_thread mutex_init_ok cond_init_ok create_ok detach_ok interval_ms d =
     (let (ret, d) = clock_thread_init mutex_init_ok cond_init_ok interval_ms d
      in if ret \<noteq> 0 then (- 1, d)
         else if \<not> create_ok then (- 1, d)
         else if \<not> detach_ok then (- 1, d)
         else (0, d))"

text \<open>After the signal, the detached thread is joined.\<close>

definition stop_clock_thread :: "daemon \<Rightarrow> daemon run" where
  "stop_clock_thread d =
     (if \<not> g_clock_thread_running d then Inr d
      else bindR (with_clock_mutex (\<lambda>d. ((), d)) (d\<lparr>g_clock_thread_running := False\<rparr>))
             (\<lambda>_. Inl Undefined))"

definition cleanup_clock_thread :: "daemon \<Rightarrow> daemon run" where
  "cleanup_clock_thread d =
     (if ck_mutex_ok (g_clock_ctx d) then Inr (upd_clock (\<lambda>c. c\<lparr>ck_mutex_ok := False\<rparr>) d)
      else Inl Undefined)"

subsection \<open>Properties\<close>

text \<open>
  A peer thread never answers an NTP client. It asks for \<open>sizeof(NtpPacket)\<close> = 80 bytes,
  and a standard request has 48: over any sequence of what \<open>recvfrom\<close> gives, with every
  datagram shorter than 80 bytes, nothing is sent and nothing but the loop's state changes.
\<close>

theorem peer_thread_serves_no_standard_client:
  assumes "\<forall>r\<in>set rs. case r of Datagram bytes ok now \<Rightarrow> length bytes < 80 | _ \<Rightarrow> True" "idx < 8"
  shows "\<exists>left. peer_thread_loop idx rs sent d = Inr (left, sent, d)"
  using assms
proof (induction rs)
  case (Cons r rs)
  have "handle_peer_request ok now b n (int idx) d = Inr ((- 1, None), d)" if "n < 80" for ok now b n
    using that Cons.prems(2) by (simp add: handle_peer_request_def)
  then show ?case using Cons by (cases r) auto
qed simp

lemma peer_thread_serves_no_standard_client_witness:
  "\<exists>left. peer_thread_loop 0 [WouldBlock, Datagram (0x23 # replicate 47 0) True None] [] initial_daemon
     = Inr (left, [], initial_daemon)"
  by (rule peer_thread_serves_no_standard_client) simp_all

lemma length_le [simp]: "length (le32 x) = 4" "length (le64 y) = 8" "length (le_ts t) = 8"
  by (simp_all add: le32_def le64_def le_ts_def)

lemma packet_memory_reply:
  "length (packet_memory (peer_response pkt now d)) = 80" "packet_memory (peer_response pkt now d) ! 0 = 0x23"
  by (simp_all add: packet_memory_def peer_response_def zero_packet_def)

lemma peer_sends:
  assumes "handle_peer_request send_ok now buffer sz idx d = Inr ((r, Some out), d')"
  shows "\<exists>pkt e. out = packet_memory (peer_response pkt now e)"
proof -
  obtain ok p g where p: "parse_ntp_packet (Some buffer) sz (Some zero_packet) (g_ido_state d) = Inr (ok, p, g)"
    using assms by (auto simp: handle_peer_request_def bindR_eq_Inr_iff split: if_splits)
  show ?thesis
    using assms p by (auto simp: handle_peer_request_def with_sock_mutex_def with_mutex_def bindR_eq_Inr_iff Let_def
        split: if_splits)
qed

text \<open>
  What a peer thread does send is of no use to a client of this program: the 80 bytes
  say mode 3, so \<open>sync_ntp_time\<close>, whatever it asked, gives up on them.
\<close>

theorem peer_reply_is_refused:
  assumes "handle_peer_request send_ok now buffer sz idx d = Inr ((r, Some out), d')"
    "\<not> ntp_is_kod (Some (sy_pkt0 E))"
  shows "length out = 80 \<and> mode_of (out ! 0) = NTP_MODE_CLIENT \<and>
     sync_reply F E ip ts1 out c = Inr (- 1, c)"
proof -
  obtain pkt e where out: "out = packet_memory (peer_response pkt now e)" using peer_sends [OF assms(1)] by blast
  have o: "length out = 80" "out ! 0 = 0x23" using packet_memory_reply by (simp_all add: out)
  have bits: "leap_of 0x23 = 0" "mode_of 0x23 = NTP_MODE_CLIENT" by (simp_all add: leap_of_def mode_of_def)
  let ?buf = "out @ map (sy_stale E) [80..<1024]"
  obtain b p where p: "parse_ntp_packet (Some ?buf) 80 (Some (sy_pkt0 E)) (g_ido_state c) = Inr (b, Some p, g_ido_state c)"
    "pkt_li_vn_mode p = 0x23"
    using o assms(2) by (simp add: parse_ntp_packet_eq mac_read_def hdr_dec_def nth_append del: upt_rec_numeral)
  have c: "c\<lparr>g_ido_state := g_ido_state c\<rparr> = c" by simp
  show ?thesis
    using o p by (simp add: sync_reply_code Let_def c handle_leap_indicator_def bits fail_sync_def
        del: upt_rec_numeral)
qed

subsection \<open>The clock thread's turns\<close>

text \<open>
  The deadline of the clock thread's wait is the reading plus the period, to the
  nanosecond and in normal form, for every period that is not negative.
\<close>

theorem clock_deadline_exact:
  assumes "0 \<le> interval_ms" "0 \<le> tv_nsec ts" "tv_nsec ts < 1000000000"
  shows "ns_of (clock_deadline interval_ms ts) = ns_of ts + interval_ms * 1000000 \<and>
    0 \<le> tv_nsec (clock_deadline interval_ms ts) \<and> tv_nsec (clock_deadline interval_ms ts) < 1000000000"
proof -
  have "interval_ms sdiv 1000 = interval_ms div 1000" "interval_ms smod 1000 = interval_ms mod 1000"
    using assms(1) by (simp_all add: sdiv_pos_eq smod_pos_eq)
  moreover have "interval_ms div 1000 * 1000 + interval_ms mod 1000 = interval_ms" by (rule div_mult_mod_eq)
  moreover have "0 \<le> interval_ms mod 1000" "interval_ms mod 1000 < 1000" by simp_all
  ultimately show ?thesis using assms unfolding clock_deadline_def ns_of_def Let_def
    by (simp del: div_mult_mod_eq mult_div_mod_eq, linarith)
qed

lemma clock_deadline_exact_witness:
  "ns_of (clock_deadline 1500 \<lparr>tv_sec = 7, tv_nsec = 600000000\<rparr>) = 9100000000"
  using clock_deadline_exact [of 1500 "\<lparr>tv_sec = 7, tv_nsec = 600000000\<rparr>"] by (simp add: ns_of_def)

lemma clock_offset_eq:
  assumes "\<bar>fst tv\<bar> \<le> 2 ^ 32" "0 \<le> snd tv" "snd tv < 1000000"
  shows "clock_offset tv ts = Inr ((fst tv * 1000000000 + snd tv * 1000 -
     (uint (ts_sec ts) * 1000000000 + uint (ts_frac ts * 1000))) sdiv 1000)"
proof -
  let ?s = "uint (ts_sec ts)" and ?f = "uint (ts_frac ts * 1000)" and ?t = "fst tv" and ?u = "snd tv"
  have b: "0 \<le> ?s" "?s < 4294967296" "0 \<le> ?f" "?f < 4294967296" "- 4294967296 \<le> ?t" "?t \<le> 4294967296"
    using uint_bounded [of "ts_sec ts"] uint_bounded [of "ts_frac ts * 1000"] assms(1) by simp_all
  then have "in_i64 (?t * 1000000000)" "in_i64 (?t * 1000000000 + ?u * 1000)" "in_i64 (?s * 1000000000)"
    "in_i64 (?s * 1000000000 + ?f)" "in_i64 (?t * 1000000000 + ?u * 1000 - (?s * 1000000000 + ?f))"
    using assms(2,3) unfolding in_i64_iff by linarith+
  then show ?thesis by (simp add: clock_offset_def)
qed

lemma sdiv_1000_in_i64:
  assumes "in_i64 x"
  shows "in_i64 (x sdiv 1000)"
proof -
  obtain q r where "x sdiv 1000 = q" "q * 1000 + r = x" "- 1000 < r" "r < 1000"
    using sdiv_smod [of 1000 x] by simp
  then show ?thesis using assms unfolding in_i64_iff by auto
qed

lemma sdiv_1000_far:
  assumes "- 9223372036854775808 < x" "x < 9223372036854775808" "65535000000001000 < \<bar>x\<bar>"
  shows "in_i64 (x sdiv 1000)" "x sdiv 1000 \<noteq> - (2 ^ 63)" "65535 * 10 ^ 9 < \<bar>x sdiv 1000\<bar>"
proof -
  obtain q r where q: "x sdiv 1000 = q" "q * 1000 + r = x" "- 1000 < r" "r < 1000"
    using sdiv_smod [of 1000 x] by simp
  then show "in_i64 (x sdiv 1000)" "x sdiv 1000 \<noteq> - (2 ^ 63)" "65535 * 10 ^ 9 < \<bar>x sdiv 1000\<bar>"
    using assms unfolding in_i64_iff by auto
qed

text \<open>
  The daemon's corrections are never applied by the clock thread: the time of the last
  synchronisation is zero or a reading of the NTP era, 2208988800 seconds ahead of the
  reading it is subtracted from, and either difference is beyond any panic limit.
\<close>

lemma clock_offset_far:
  assumes "1000000000 \<le> fst tv" "fst tv \<le> 2147483648" "0 \<le> snd tv" "snd tv < 1000000"
    "uint (ts_sec ts) \<le> 5000 \<or> fst tv + 2000000000 \<le> uint (ts_sec ts)"
  obtains off where "clock_offset tv ts = Inr off" "in_i64 off" "off \<noteq> - (2 ^ 63)" "65535 * 10 ^ 9 < \<bar>off\<bar>"
proof -
  let ?x = "fst tv * 1000000000 + snd tv * 1000 - (uint (ts_sec ts) * 1000000000 + uint (ts_frac ts * 1000))"
  have b: "0 \<le> uint (ts_sec ts)" "uint (ts_sec ts) < 4294967296" "0 \<le> uint (ts_frac ts * 1000)"
    "uint (ts_frac ts * 1000) < 4294967296"
    using uint_bounded [of "ts_sec ts"] uint_bounded [of "ts_frac ts * 1000"] by simp_all
  have x: "- 9223372036854775808 < ?x" "?x < 9223372036854775808" "65535000000001000 < \<bar>?x\<bar>"
    using assms b by linarith+
  have "clock_offset tv ts = Inr (?x sdiv 1000)" using assms by (intro clock_offset_eq) auto
  then show thesis using that sdiv_1000_far [OF x] by blast
qed

text \<open>
  The clock thread corrects nothing. With a usable mutex, a reading of the time between 2001
  and 2038, and a last synchronisation that is either none at all or a time of the NTP era, a
  turn always gets to its end; what it records is an offset beyond any panic threshold and
  the refusal, and no command goes to the clock.
\<close>

theorem clock_thread_corrects_nothing:
  assumes "unlocked d" "ck_mutex_ok (g_clock_ctx d)" "tn_tv T = Some tv"
    "1000000000 \<le> fst tv" "fst tv \<le> 2147483648" "0 \<le> snd tv" "snd tv < 1000000"
    "uint (ts_sec (g_last_sync_ts d)) \<le> 5000 \<or> fst tv + 2000000000 \<le> uint (ts_sec (g_last_sync_ts d))"
  shows "\<exists>more off. clock_thread_turn T d = Inr (more,
      d\<lparr>g_clock_ctx := (g_clock_ctx d)\<lparr>ck_last_offset_us := off, ck_last_correction := - 1\<rparr>\<rparr>) \<and>
    65535 * 10 ^ 9 < \<bar>off\<bar>"
proof -
  obtain off where o: "clock_offset tv (g_last_sync_ts d) = Inr off" "in_i64 off" "off \<noteq> - (2 ^ 63)"
    "65535 * 10 ^ 9 < \<bar>off\<bar>" using clock_offset_far [OF assms(4-8)] .
  then have "\<bar>off\<bar> > panic_limit d" using panic_limit_bounds(2) [of d] by linarith
  then have c: "apply_time_correction_slew_or_step kern ts off d = Inr (- 1, d)" for kern ts
    by (rule correction_panic [OF assms(1) o(2,3)])
  have m: "with_g_mutex (\<lambda>d. Inr (g_last_sync_ts d, d)) d = Inr (g_last_sync_ts d, d)"
    using unlockedD(1) [OF assms(1)] by (simp add: with_g_mutex_free)
  show ?thesis
    using o(1,4) assms(2,3)
    by (auto simp: clock_thread_turn_def m c update_system_clock_def with_clock_mutex_def split: option.split)
qed

lemma clock_thread_corrects_nothing_witness:
  "\<exists>more off. clock_thread_turn \<lparr>tn_tv = Some (1700000000, 5), tn_clk = None, tn_deadline = None,
      tn_wait = TimedOut, tn_kern = (\<lambda>_. 0)\<rparr> initial_daemon = Inr (more, initial_daemon\<lparr>g_clock_ctx :=
        zero_clock_ctx\<lparr>ck_last_offset_us := off, ck_last_correction := - 1\<rparr>\<rparr>) \<and> 65535 * 10 ^ 9 < \<bar>off\<bar>"
  using clock_thread_corrects_nothing [OF initial_daemon_unlocked, of "\<lparr>tn_tv = Some (1700000000, 5),
      tn_clk = None, tn_deadline = None, tn_wait = TimedOut, tn_kern = (\<lambda>_. 0)\<rparr>" "(1700000000, 5)"]
  by (simp add: initial_daemon_def zero_clock_ctx_def zero_ts_def)

lemma correction_keeps_ctx:
  assumes "unlocked d" "in_i64 off"
  shows "(\<exists>r e. apply_time_correction_slew_or_step kern ts off d = Inr (r, e) \<and> g_clock_ctx e = g_clock_ctx d) \<or>
    apply_time_correction_slew_or_step kern ts off d = Inl Undefined"
proof (cases "off = - (2 ^ 63)")
  case False
  then show ?thesis
    using on_mode_panic [OF assms]
    by (auto simp: apply_time_correction_slew_or_step_def i64_def clock_command_def Let_def slew_delta_def
        split: option.split)
next
  case True
  then have "on_mode (check_panic_condition off) d = Inl Undefined"
    using panic_eq [OF unlockedD(3) [OF assms(1)] assms(2)] by (simp add: on_mode_def)
  then show ?thesis by (simp add: apply_time_correction_slew_or_step_def)
qed

lemma broken_turn_is_undefined:
  assumes "unlocked d" "\<not> ck_mutex_ok (g_clock_ctx d)" "tn_tv T = Some tv"
  shows "clock_thread_turn T d = Inl Undefined"
proof (cases "clock_offset tv (g_last_sync_ts d)")
  have m: "with_g_mutex (\<lambda>d. Inr (g_last_sync_ts d, d)) d = Inr (g_last_sync_ts d, d)"
    using unlockedD(1) [OF assms(1)] by (simp add: with_g_mutex_free)
  {
    case (Inl e)
    then have "e = Undefined" by (auto simp: clock_offset_def i64_def split: if_splits)
    then show ?thesis using Inl assms(3) by (simp add: clock_thread_turn_def m)
  next
    case (Inr off)
    then have "in_i64 off" by (auto simp: clock_offset_def bindR_eq_Inr_iff intro: sdiv_1000_in_i64)
    from correction_keeps_ctx [OF assms(1) this, of "tn_kern T" "tn_clk T"] show ?thesis
      using Inr assms(2,3)
      by (auto simp: clock_thread_turn_def m update_system_clock_def with_clock_mutex_def)
  }
qed

lemma clock_thread_init_breaks_mutex:
  assumes "clock_thread_init i c ms d = (r, d')"
  shows "\<exists>x. d' = d\<lparr>g_clock_ctx := x\<rparr> \<and> \<not> ck_mutex_ok x"
  using assms by (auto simp: clock_thread_init_def Let_def split: if_splits)

text \<open>
  C16: \<open>clock_thread_init\<close> falls through to the labels of its error path and destroys the mutex
  and the condition it has just made. So a clock thread that was started with success uses
  a destroyed mutex in the first turn that can read the time, and stopping one that runs
  does too.
\<close>

theorem started_clock_thread_is_undefined:
  assumes "unlocked d" "g_servers d \<noteq> []" "tn_tv T = Some tv"
    "start_clock_thread mi ci create_ok detach_ok ms d = (0, d')"
  shows "clock_thread_main (T # Ts) d' = Inl Undefined \<and>
    stop_clock_thread (d'\<lparr>g_clock_thread_running := True\<rparr>) = Inl Undefined"
proof -
  obtain x where x: "d' = d\<lparr>g_clock_ctx := x\<rparr>" "\<not> ck_mutex_ok x"
    using assms(4) clock_thread_init_breaks_mutex [of mi ci ms d]
    by (auto simp: start_clock_thread_def split: prod.splits if_splits)
  then have u: "unlocked (d'\<lparr>g_clock_thread_running := True\<rparr>)"
    using assms(1) by (simp add: unlocked_def)
  show ?thesis
    using broken_turn_is_undefined [OF u _ assms(3)] x assms(2)
    by (simp add: clock_thread_main_def stop_clock_thread_def with_clock_mutex_def)
qed

lemma started_clock_thread_is_undefined_witness:
  "clock_thread_main [\<lparr>tn_tv = Some (1700000000, 0), tn_clk = None, tn_deadline = None, tn_wait = TimedOut,
      tn_kern = (\<lambda>_. 0)\<rparr>]
     (snd (start_clock_thread True True True True 30
       (initial_daemon\<lparr>g_servers := [\<lparr>srv_ip = ''192.0.2.1'', srv_port = ''123'', srv_next_allowed_sync = 0\<rparr>]\<rparr>)))
   = Inl Undefined"
  using started_clock_thread_is_undefined [of "initial_daemon\<lparr>g_servers :=
      [\<lparr>srv_ip = ''192.0.2.1'', srv_port = ''123'', srv_next_allowed_sync = 0\<rparr>]\<rparr>"
      "\<lparr>tn_tv = Some (1700000000, 0), tn_clk = None, tn_deadline = None, tn_wait = TimedOut,
      tn_kern = (\<lambda>_. 0)\<rparr>" "(1700000000, 0)" True True True True 30 _ "[]"]
  using initial_daemon_unlocked
  by (simp add: start_clock_thread_def clock_thread_init_def unlocked_def)

subsection \<open>Cleaning up\<close>

abbreviation fresh_slot :: "nat \<Rightarrow> daemon \<Rightarrow> bool" where
  "fresh_slot i d \<equiv> g_peer_ctx d i = zero_peer_ctx \<and> \<not> g_peer_threads_running d i"

lemma cleanup_fresh_slots:
  assumes "\<forall>i\<in>set is. fresh_slot i d" "distinct is"
  shows "\<exists>d'. cleanup_peers is d = Inr (replicate (length is) 0, d')"
  using assms
proof (induction "is" arbitrary: d)
  case (Cons i "is")
  let ?d = "d\<lparr>g_peer_ctx := (g_peer_ctx d)(i := zero_peer_ctx\<lparr>px_sock_fd := - 1, px_mutex_ok := False\<rparr>)\<rparr>"
  have "\<forall>j\<in>set is. fresh_slot j ?d" using Cons.prems by auto
  from Cons.IH [OF this] Cons.prems show ?case
    by (auto simp: with_sock_mutex_def with_mutex_def zero_peer_ctx_def)
qed simp

text \<open>
  Cleaning up closes what was never opened. When no peer thread was started, every entry of
  the peer pool makes \<open>cleanup_peer_thread\<close> close file descriptor 0, the zero of the
  cleared context.
\<close>

theorem cleanup_closes_descriptor_zero:
  assumes "\<forall>i<length (g_peer_pool d). g_peer_ctx d i = zero_peer_ctx \<and> \<not> g_peer_threads_running d i"
  shows "\<exists>d'. cleanup_peer_thread d = Inr (replicate (length (g_peer_pool d)) 0, d')"
  using cleanup_fresh_slots [of "[0..<length (g_peer_pool d)]" d] assms
  by (simp add: cleanup_peer_thread_def)

lemma cleanup_closes_descriptor_zero_witness:
  "\<exists>d'. cleanup_peer_thread (initial_daemon\<lparr>g_peer_pool := replicate 3 p\<rparr>) = Inr ([0, 0, 0], d')"
  using cleanup_closes_descriptor_zero [of "initial_daemon\<lparr>g_peer_pool := replicate 3 p\<rparr>"]
  by (simp add: initial_daemon_def eval_nat_numeral)

text \<open>A request of 80 bytes is answered.\<close>

abbreviation peer_request :: "u8 list" where
  "peer_request \<equiv> [0x23, 2] @ replicate 78 0"

abbreviation serving_daemon :: daemon where
  "serving_daemon \<equiv> upd_peer 0 (\<lambda>p. p\<lparr>px_sock_valid := True\<rparr>) initial_daemon"

lemma peer_request_answered:
  "\<exists>out d'. handle_peer_request True None (peer_request @ replicate 944 0) 80 0 serving_daemon = Inr ((0, Some out), d')"
proof -
  let ?data = "peer_request @ replicate 944 0"
  obtain b p where p: "parse_ntp_packet (Some ?data) 80 (Some zero_packet) (g_ido_state serving_daemon) =
      Inr (b, Some p, g_ido_state serving_daemon)" "pkt_li_vn_mode p = 0x23" "b"
    by (simp add: parse_ntp_packet_eq mac_read_def hdr_dec_def accepted_def ntp_is_kod_def zero_packet_def
        version_of_def mode_of_def)
  have "mode_of 0x23 = NTP_MODE_CLIENT" by (simp add: mode_of_def)
  then show ?thesis
    using p by (simp add: handle_peer_request_def with_sock_mutex_def with_mutex_def initial_daemon_def
        zero_peer_ctx_def)
qed

lemma peer_reply_is_refused_witness:
  "\<exists>out d'. handle_peer_request True None (peer_request @ replicate 944 0) 80 0 serving_daemon =
      Inr ((0, Some out), d') \<and>
    sync_reply exact_fpu (good_env None) ''192.0.2.1'' zero_ts out initial_daemon = Inr (- 1, initial_daemon)"
proof -
  obtain out d' where o: "handle_peer_request True None (peer_request @ replicate 944 0) 80 0 serving_daemon =
      Inr ((0, Some out), d')" using peer_request_answered by blast
  have k: "\<not> ntp_is_kod (Some (sy_pkt0 (good_env None)))"
    by (simp add: good_env_def ntp_is_kod_def zero_packet_def)
  show ?thesis using o peer_reply_is_refused [OF o k] by blast
qed

end
