(* ===== verification/Ntpq.thy ===== *)
theory Ntpq
  imports Threads
begin

section \<open>The answers to ntpq (socket.c)\<close>

text \<open>
  \<open>handle_ntpq_request\<close>: one request line and its answer. The system variables are read under
  \<open>g_mutex\<close>; what the clock thread last did is read through its accessors (threads.c), which lock
  the mutex of the clock thread. In a daemon that has started a clock thread that mutex has been
  destroyed, so there a \<open>sysinfo\<close> line is \<open>Undefined\<close>, and the other lines are answered.
\<close>

text \<open>The text of \<open>sysinfo\<close> from the values that were read.\<close>

definition sysinfo_text :: "daemon \<Rightarrow> int \<Rightarrow> int \<Rightarrow> string" where
  "sysinfo_text d last_offset last_correction =
     ''system peer: LOCAL(0)'' @ newline @
     ''stratum: '' @ decimal (unat (g_local_stratum d)) @ newline @
     ''poll: '' @ signed_decimal (g_local_poll d) @ newline @
     ''precision: '' @ signed_decimal (g_local_precision d) @ newline @
     ''root delay: '' @ decimal (unat (drop_bit 16 (htonl (g_local_root_delay d)))) @ '' ms'' @ newline @
     ''root dispersion: '' @ decimal (unat (drop_bit 16 (htonl (g_local_root_disp d)))) @ '' ms'' @ newline @
     ''leap: '' @ hex2 (g_local_li d) @ newline @
     ''clock offset: '' @ signed_decimal last_offset @ '' us'' @ newline @
     ''correction: '' @ (if last_correction = 1 then ''STEP'' else if last_correction = 2 then ''SLEW''
                         else ''NONE'') @ newline"

text \<open>The daemon as it is under \<open>g_mutex\<close>, then the two values of the clock thread.\<close>

definition ntpq_sysinfo :: "daemon \<Rightarrow> (string \<times> daemon) run" where
  "ntpq_sysinfo d =
     bindR (with_g_mutex (\<lambda>d. Inr (d, d)) d) (\<lambda>(local, d).
     bindR (clock_thread_get_last_offset d) (\<lambda>(last_offset, d).
     bindR (clock_thread_get_last_correction d) (\<lambda>(last_correction, d).
       Inr (sysinfo_text local last_offset last_correction, d))))"

definition ntpq_associations :: "daemon \<Rightarrow> string" where
  "ntpq_associations d =
     ''ind'' @ tab @ ''assid'' @ tab @ ''status'' @ tab @ ''conf'' @ tab @ ''reach'' @ tab @
     ''condition'' @ tab @ ''last_event'' @ newline @
     ''1'' @ tab @ ''1'' @ tab @ (if g_time_synced d \<and> g_local_stratum d \<le> 15 then ''6'' else ''3'') @ tab @
     ''0'' @ tab @ ''377'' @ tab @ ''synchronized'' @ tab @ ''1'' @ newline"

definition ntpq_response :: "string \<Rightarrow> daemon \<Rightarrow> (string \<times> daemon) run" where
  "ntpq_response buffer =
     (if strn_eq 7 buffer ''version'' then (\<lambda>d. Inr (''dntpd 1.0.0'' @ crlf, d))
      else if strn_eq 12 buffer ''associations'' then
        with_g_mutex (\<lambda>d. Inr (ntpq_associations d, d))
      else if strn_eq 7 buffer ''sysinfo'' then ntpq_sysinfo
      else (\<lambda>d. Inr (''OK'' @ crlf, d)))"

text \<open>
  One connection: \<open>received\<close> is what \<open>recv\<close> gave (\<open>None\<close> for an error), at most 1023
  bytes, read as a C string. The result is what is sent, if anything; the connection is
  closed on every way out.
\<close>

definition handle_ntpq_request :: "string option \<Rightarrow> daemon \<Rightarrow> (string option \<times> daemon) run" where
  "handle_ntpq_request received d =
     (case received of
        None \<Rightarrow> Inr (None, d)
      | Some s \<Rightarrow>
          if s = [] then Inr (None, d)
          else bindR (ntpq_response (cstr (take 1023 s)) d) (\<lambda>(resp, d). Inr (Some (take 1023 resp), d)))"

subsection \<open>Which lines are answered\<close>

text \<open>The line asks for \<open>sysinfo\<close>.\<close>

definition asks_sysinfo :: "string option \<Rightarrow> bool" where
  "asks_sysinfo received \<longleftrightarrow> (\<exists>s. received = Some s \<and> take 7 (cstr (take 1023 s)) = ''sysinfo'')"

lemma clock_reads:
  assumes "ck_mutex_ok (g_clock_ctx d)"
  shows "clock_thread_get_last_offset d = Inr (ck_last_offset_us (g_clock_ctx d), d)"
    "clock_thread_get_last_correction d = Inr (ck_last_correction (g_clock_ctx d), d)"
  using assms
  by (simp_all add: clock_thread_get_last_offset_def clock_thread_get_last_correction_def with_clock_mutex_def)

lemma sysinfo_local: "sysinfo_text (d\<lparr>g_mutex := b\<rparr>) off cor = sysinfo_text d off cor"
  by (simp add: sysinfo_text_def del: append_Cons)

lemma ntpq_sysinfo_eq:
  assumes "\<not> g_mutex d"
  shows "ntpq_sysinfo d =
    (if ck_mutex_ok (g_clock_ctx d)
     then Inr (sysinfo_text d (ck_last_offset_us (g_clock_ctx d)) (ck_last_correction (g_clock_ctx d)), d)
     else Inl Undefined)"
proof -
  have "d\<lparr>g_mutex := False\<rparr> = d" using assms by simp
  then have "with_g_mutex (\<lambda>d. Inr (d, d)) d = Inr (d\<lparr>g_mutex := True\<rparr>, d)"
    using assms by (simp add: with_g_mutex_def with_mutex_def)
  then show ?thesis
    using clock_reads [of d]
    by (simp add: ntpq_sysinfo_def sysinfo_local) (simp add: clock_thread_get_last_offset_def with_clock_mutex_def)
qed

lemma low_half_bits:
  fixes x y :: u32
  assumes "x AND 0xFFFF = y AND 0xFFFF" "n < 16"
  shows "bit x n = bit y n"
proof -
  have "(mask 16 :: u32) = 0xFFFF" by (simp add: mask_eq_exp_minus_1)
  then have "take_bit 16 x = take_bit 16 y" using assms(1) by (simp only: take_bit_eq_mask)
  then show ?thesis using assms(2) by (metis bit_take_bit_iff)
qed

lemma shown_half:
  assumes "x AND 0xFFFF = y AND 0xFFFF"
  shows "drop_bit 16 (htonl x) = drop_bit 16 (htonl y)"
proof (rule bit_word_eqI)
  fix n assume n: "n < LENGTH(32)"
  consider "n < 8" | "8 \<le> n" "n < 16" | "16 \<le> n" by linarith
  then show "bit (drop_bit 16 (htonl x)) n \<longleftrightarrow> bit (drop_bit 16 (htonl y)) n"
  proof cases
    case 1
    then show ?thesis using low_half_bits [OF assms, of "8 + n"] by (simp only: bit_drop_bit_eq o_def) (simp add: bit_htonl)
  next
    case 2
    then show ?thesis using low_half_bits [OF assms, of "n - 8"] by (simp only: bit_drop_bit_eq o_def) (simp add: bit_htonl)
  next
    case 3
    then have "\<not> bit (htonl x) (16 + n)" "\<not> bit (htonl y) (16 + n)"
      using bit_imp_le_length [of "htonl x" "16 + n"] bit_imp_le_length [of "htonl y" "16 + n"] by auto
    then show ?thesis by (simp only: bit_drop_bit_eq o_def)
  qed
qed

lemma sysinfo_answer:
  assumes "\<not> g_mutex d" "ck_mutex_ok (g_clock_ctx d)"
  shows "handle_ntpq_request (Some ''sysinfo'') d =
    Inr (Some (take 1023 (sysinfo_text d (ck_last_offset_us (g_clock_ctx d)) (ck_last_correction (g_clock_ctx d)))), d)"
proof -
  have s: "cstr (take 1023 ''sysinfo'') = ''sysinfo''" by (simp add: cstr_def cut_at_def)
  have "\<not> strn_eq 7 ''sysinfo'' ''version''" "\<not> strn_eq 12 ''sysinfo'' ''associations''"
    "strn_eq 7 ''sysinfo'' ''sysinfo''" by (simp_all add: strn_eq_def)
  then show ?thesis
    by (simp only: handle_ntpq_request_def ntpq_response_def s option.simps if_False if_True
        ntpq_sysinfo_eq [OF assms(1)] assms(2) bindR_simps split_conv list.simps)
qed

text \<open>In a daemon whose clock thread was started, a line is answered exactly if it does not ask for \<open>sysinfo\<close>.\<close>

lemma sysinfo_line:
  "strn_eq 7 l ''sysinfo'' \<Longrightarrow> \<not> strn_eq 7 l ''version''"
  "strn_eq 7 l ''sysinfo'' \<Longrightarrow> \<not> strn_eq 12 l ''associations''"
proof -
  assume s: "strn_eq 7 l ''sysinfo''"
  then show "\<not> strn_eq 7 l ''version''" by (simp add: strn_eq_def)
  show "\<not> strn_eq 12 l ''associations''"
  proof
    assume "strn_eq 12 l ''associations''"
    then have "take 7 (take 12 l) = take 7 ''associations''" by (simp add: strn_eq_def)
    moreover have "take 7 (take 12 l) = take 7 l" by simp
    ultimately show False using s by (simp add: strn_eq_def)
  qed
qed

lemma broken_ntpq:
  assumes "\<not> g_mutex d" "\<not> ck_mutex_ok (g_clock_ctx d)"
  shows "if asks_sysinfo received then handle_ntpq_request received d = Inl Undefined
    else \<exists>reply. handle_ntpq_request received d = Inr (reply, d)"
proof (cases received)
  case (Some s)
  let ?l = "cstr (take 1023 s)"
  have a: "asks_sysinfo received \<longleftrightarrow> strn_eq 7 ?l ''sysinfo''" by (simp add: asks_sysinfo_def strn_eq_def Some)
  have m: "d\<lparr>g_mutex := False\<rparr> = d" using assms(1) by simp
  show ?thesis
  proof (cases "strn_eq 7 ?l ''sysinfo''")
    case True
    then have "s \<noteq> []" by (auto simp: strn_eq_def cstr_def cut_at_def)
    then show ?thesis using True sysinfo_line [OF True] assms
      by (simp add: a) (simp add: handle_ntpq_request_def ntpq_response_def Some ntpq_sysinfo_eq)
  next
    case False
    then show ?thesis using assms m
      by (simp add: a) (simp add: handle_ntpq_request_def ntpq_response_def Some with_g_mutex_def with_mutex_def)
  qed
qed (simp add: asks_sysinfo_def handle_ntpq_request_def)

text \<open>
  The root delay and root dispersion that \<open>ntpq\<close> gets as milliseconds say nothing about
  the daemon's values: two daemons whose 16.16 values differ only in the whole seconds get
  the same text, because \<open>ntohl\<close> is applied to a value that is kept in host order.
\<close>

theorem ntpq_never_shows_seconds:
  assumes "\<not> g_mutex d" "ck_mutex_ok (g_clock_ctx d)" "x AND 0xFFFF = y AND 0xFFFF" "u AND 0xFFFF = v AND 0xFFFF"
  shows "\<exists>t. handle_ntpq_request (Some ''sysinfo'') (d\<lparr>g_local_root_delay := x, g_local_root_disp := u\<rparr>)
        = Inr (Some t, d\<lparr>g_local_root_delay := x, g_local_root_disp := u\<rparr>) \<and>
     handle_ntpq_request (Some ''sysinfo'') (d\<lparr>g_local_root_delay := y, g_local_root_disp := v\<rparr>)
        = Inr (Some t, d\<lparr>g_local_root_delay := y, g_local_root_disp := v\<rparr>)"
proof -
  show ?thesis
    using assms(1,2) shown_half [OF assms(3)] shown_half [OF assms(4)]
    by (simp add: sysinfo_answer sysinfo_text_def del: append_Cons)
qed

lemma ntpq_never_shows_seconds_witness:
  "\<exists>t. handle_ntpq_request (Some ''sysinfo'') (initial_daemon\<lparr>g_local_root_delay := 0x50000, g_local_root_disp := 0\<rparr>)
        = Inr (Some t, initial_daemon\<lparr>g_local_root_delay := 0x50000, g_local_root_disp := 0\<rparr>) \<and>
     handle_ntpq_request (Some ''sysinfo'') (initial_daemon\<lparr>g_local_root_delay := 0, g_local_root_disp := 0\<rparr>)
        = Inr (Some t, initial_daemon\<lparr>g_local_root_delay := 0, g_local_root_disp := 0\<rparr>)"
  by (rule ntpq_never_shows_seconds) (simp_all add: initial_daemon_def zero_clock_ctx_def)

end
