(* ===== verification/NetworkIO.thy ===== *)
theory NetworkIO
  imports Ntpq
begin

section \<open>Socket options, transfers and the ntpq accept loop (network4.c, network6.c, socket.c)\<close>

text \<open>
  The functions around one system call each. \<open>opt_ok\<close> is whether \<open>setsockopt\<close> grants an option
  on a socket; what was asked for is returned with the result, in order. \<open>send_rc\<close> is what
  \<open>sendto\<close> answers, \<open>received\<close> what \<open>recvfrom\<close> gave (\<open>None\<close> for an error).
\<close>

subsection \<open>Options\<close>

datatype sock_opt =
    ReuseAddr
  | RcvTimeo int
  | SndTimeo int
  | EnableBroadcast
  | V6Only bool
  | JoinGroup "u8 list" u32
  | LeaveGroup "u8 list" u32

definition set_option :: "(int \<Rightarrow> sock_opt \<Rightarrow> bool) \<Rightarrow> int \<Rightarrow> sock_opt \<Rightarrow> int \<times> sock_opt list" where
  "set_option opt_ok sock opt = (if opt_ok sock opt then 0 else - 1, [opt])"

definition set_timeouts :: "(int \<Rightarrow> sock_opt \<Rightarrow> bool) \<Rightarrow> int \<Rightarrow> int \<Rightarrow> int \<times> sock_opt list" where
  "set_timeouts opt_ok sock seconds =
     (if \<not> opt_ok sock (RcvTimeo seconds) then (- 1, [RcvTimeo seconds])
      else (if opt_ok sock (SndTimeo seconds) then 0 else - 1, [RcvTimeo seconds, SndTimeo seconds]))"

definition network4_enable_reuseaddr :: "(int \<Rightarrow> sock_opt \<Rightarrow> bool) \<Rightarrow> int \<Rightarrow> int \<times> sock_opt list" where
  "network4_enable_reuseaddr opt_ok sock = set_option opt_ok sock ReuseAddr"

definition network6_enable_reuseaddr :: "(int \<Rightarrow> sock_opt \<Rightarrow> bool) \<Rightarrow> int \<Rightarrow> int \<times> sock_opt list" where
  "network6_enable_reuseaddr opt_ok sock = set_option opt_ok sock ReuseAddr"

definition network4_set_timeout :: "(int \<Rightarrow> sock_opt \<Rightarrow> bool) \<Rightarrow> int \<Rightarrow> int \<Rightarrow> int \<times> sock_opt list" where
  "network4_set_timeout opt_ok sock seconds = set_timeouts opt_ok sock seconds"

definition network6_set_timeout :: "(int \<Rightarrow> sock_opt \<Rightarrow> bool) \<Rightarrow> int \<Rightarrow> int \<Rightarrow> int \<times> sock_opt list" where
  "network6_set_timeout opt_ok sock seconds = set_timeouts opt_ok sock seconds"

definition network4_enable_broadcast :: "(int \<Rightarrow> sock_opt \<Rightarrow> bool) \<Rightarrow> int \<Rightarrow> int \<times> sock_opt list" where
  "network4_enable_broadcast opt_ok sock =
     (if sock < 0 then (- 1, []) else set_option opt_ok sock EnableBroadcast)"

definition network6_set_v6only :: "(int \<Rightarrow> sock_opt \<Rightarrow> bool) \<Rightarrow> int \<Rightarrow> bool \<Rightarrow> int \<times> sock_opt list" where
  "network6_set_v6only opt_ok sock v6only = set_option opt_ok sock (V6Only v6only)"

text \<open>Multicast membership: the group's 16 bytes and the interface, 0 for the kernel's choice.\<close>

definition group_interface :: "int \<Rightarrow> u32" where
  "group_interface interface_index = (if 0 < interface_index then word_of_int interface_index else 0)"

definition network6_join_multicast ::
    "(string \<Rightarrow> u8 list option) \<Rightarrow> (int \<Rightarrow> sock_opt \<Rightarrow> bool) \<Rightarrow> int \<Rightarrow> string option \<Rightarrow> int \<Rightarrow> int \<times> sock_opt list" where
  "network6_join_multicast inet_pton6 opt_ok sock group_addr interface_index =
     (if sock < 0 then (- 1, [])
      else (case group_addr of
              None \<Rightarrow> (- 1, [])
            | Some s \<Rightarrow>
                (case inet_pton6 s of
                   None \<Rightarrow> (- 1, [])
                 | Some g \<Rightarrow> set_option opt_ok sock (JoinGroup g (group_interface interface_index)))))"

definition network6_leave_multicast ::
    "(string \<Rightarrow> u8 list option) \<Rightarrow> (int \<Rightarrow> sock_opt \<Rightarrow> bool) \<Rightarrow> int \<Rightarrow> string option \<Rightarrow> int \<Rightarrow> int \<times> sock_opt list" where
  "network6_leave_multicast inet_pton6 opt_ok sock group_addr interface_index =
     (if sock < 0 then (- 1, [])
      else (case group_addr of
              None \<Rightarrow> (- 1, [])
            | Some s \<Rightarrow>
                (case inet_pton6 s of
                   None \<Rightarrow> (- 1, [])
                 | Some g \<Rightarrow> set_option opt_ok sock (LeaveGroup g (group_interface interface_index)))))"

definition network4_close_socket :: "int \<Rightarrow> int list" where
  "network4_close_socket sock = (if 0 \<le> sock then [sock] else [])"

definition network6_get_family_name :: string where
  "network6_get_family_name = ''IPv6''"

definition network6_close_socket :: "int \<Rightarrow> int list" where
  "network6_close_socket sock = (if 0 \<le> sock then [sock] else [])"

definition network6_bind_to_port :: "(int \<Rightarrow> u16 \<Rightarrow> bool) \<Rightarrow> int \<Rightarrow> u16 \<Rightarrow> int \<times> int list" where
  "network6_bind_to_port bind_ok sock port = network6_bind_socket bind_ok sock None port"

definition network6_format_address ::
    "(u8 list \<Rightarrow> string option) \<Rightarrow> sockaddr_in6 option \<Rightarrow> nat \<Rightarrow> nat \<times> string" where
  "network6_format_address inet_ntop6 addr buf_size =
     (case addr of
        None \<Rightarrow> (0, [])
      | Some a \<Rightarrow>
          if buf_size = 0 then (0, [])
          else (case inet_ntop6 (sin6_addr a) of
                  None \<Rightarrow> (0, [])
                | Some s \<Rightarrow> (let t = take (buf_size - 1) s in (length t, t))))"

subsection \<open>Transfers\<close>

text \<open>The result and what was handed to the kernel; both families have the same code.\<close>

definition send_datagram ::
    "(int \<Rightarrow> u8 list \<Rightarrow> 'addr \<Rightarrow> int) \<Rightarrow> int \<Rightarrow> u8 list option \<Rightarrow> nat \<Rightarrow> 'addr option \<Rightarrow>
     (int \<times> (u8 list \<times> 'addr) option) run" where
  "send_datagram send_rc sock buf len dest =
     (case (buf, dest) of
        (Some bytes, Some a) \<Rightarrow>
          if sock < 0 then Inr (- 1, None)
          else bindR (mem_slice bytes 0 len) (\<lambda>out. Inr (send_rc sock out a, Some (out, a)))
      | _ \<Rightarrow> Inr (- 1, None))"

text \<open>
  \<open>room\<close> is the receive buffer's size and \<open>has_addr\<close> whether \<open>src_addr\<close> is not null; the result
  comes with the bytes received and the sender. A null \<open>src_addr\<close> is cleared all the same.
\<close>

definition receive_datagram ::
    "(u8 list \<times> 'addr) option \<Rightarrow> int \<Rightarrow> nat option \<Rightarrow> nat \<Rightarrow> bool \<Rightarrow> (int \<times> (u8 list \<times> 'addr) option) run" where
  "receive_datagram received sock room len has_addr =
     (case room of
        None \<Rightarrow> Inr (- 1, None)
      | Some n \<Rightarrow>
          if sock < 0 then Inr (- 1, None)
          else if \<not> has_addr \<or> n < len then Inl Undefined
          else (case received of
                  None \<Rightarrow> Inr (- 1, None)
                | Some (bytes, a) \<Rightarrow>
                    let bs = take len bytes in Inr (int (length bs), Some (bs, a))))"

definition network4_sendto ::
    "(int \<Rightarrow> u8 list \<Rightarrow> sockaddr_in \<Rightarrow> int) \<Rightarrow> int \<Rightarrow> u8 list option \<Rightarrow> nat \<Rightarrow> sockaddr_in option \<Rightarrow>
     (int \<times> (u8 list \<times> sockaddr_in) option) run" where
  "network4_sendto = send_datagram"

definition network6_sendto ::
    "(int \<Rightarrow> u8 list \<Rightarrow> sockaddr_in6 \<Rightarrow> int) \<Rightarrow> int \<Rightarrow> u8 list option \<Rightarrow> nat \<Rightarrow> sockaddr_in6 option \<Rightarrow>
     (int \<times> (u8 list \<times> sockaddr_in6) option) run" where
  "network6_sendto = send_datagram"

definition network4_recvfrom ::
    "(u8 list \<times> sockaddr_in) option \<Rightarrow> int \<Rightarrow> nat option \<Rightarrow> nat \<Rightarrow> bool \<Rightarrow>
     (int \<times> (u8 list \<times> sockaddr_in) option) run" where
  "network4_recvfrom = receive_datagram"

definition network6_recvfrom ::
    "(u8 list \<times> sockaddr_in6) option \<Rightarrow> int \<Rightarrow> nat option \<Rightarrow> nat \<Rightarrow> bool \<Rightarrow>
     (int \<times> (u8 list \<times> sockaddr_in6) option) run" where
  "network6_recvfrom = receive_datagram"

subsection \<open>The accept loop of the ntpq thread\<close>

text \<open>
  What \<open>accept\<close> gives: an interruption, an error, or a connection with what its one \<open>recv\<close> is
  given (\<open>None\<close> for an error). \<open>Silent\<close> is a client that connects and sends nothing: the
  socket has no timeout, so \<open>recv\<close> does not return.
\<close>

datatype accepted_client =
    AcceptInterrupted
  | AcceptFailed
  | Connection "string option"
  | Silent

text \<open>The result: whether the loop has ended, the answers in order, and the state.\<close>

fun tcp_accept_thread ::
    "accepted_client list \<Rightarrow> daemon \<Rightarrow> (bool \<times> string option list \<times> daemon) run" where
  "tcp_accept_thread [] d = Inr (False, [], d)"
| "tcp_accept_thread (c # cs) d =
     (case c of
        AcceptInterrupted \<Rightarrow> tcp_accept_thread cs d
      | AcceptFailed \<Rightarrow> Inr (True, [], d)
      | Silent \<Rightarrow> Inl Diverges
      | Connection received \<Rightarrow>
          bindR (handle_ntpq_request received d) (\<lambda>(reply, d).
          bindR (tcp_accept_thread cs d) (\<lambda>(ended, replies, d). Inr (ended, reply # replies, d))))"

subsection \<open>Properties\<close>

lemma set_timeouts_both: "set_timeouts opt_ok sock seconds = (0, opts) \<Longrightarrow>
    opts = [RcvTimeo seconds, SndTimeo seconds] \<and> (\<forall>o1\<in>set opts. opt_ok sock o1)"
  by (auto simp: set_timeouts_def split: if_splits)

text \<open>Leaving a group names the group and interface that joining it named.\<close>

lemma multicast_pair:
  assumes "network6_join_multicast inet_pton6 opt_ok sock grp i = (0, opts)"
  shows "\<exists>g n. opts = [JoinGroup g n] \<and>
    snd (network6_leave_multicast inet_pton6 opt_ok' sock grp i) = [LeaveGroup g n]"
  using assms by (auto simp: network6_join_multicast_def network6_leave_multicast_def set_option_def
      split: if_splits option.splits)

lemma receive_fits:
  "receive_datagram received sock room len has_addr = Inr (n, Some (bs, a)) \<Longrightarrow>
    n = int (length bs) \<and> length bs \<le> len"
  by (auto simp: receive_datagram_def Let_def split: if_splits option.splits)

text \<open>
  One ntpq client that connects and stays silent blocks all the others: whatever clients come after
  it, the thread gives no answer and does not end.
\<close>

theorem silent_ntpq_client_blocks:
  assumes "Silent \<in> set cs" "AcceptFailed \<notin> set cs"
  shows "\<not> returns (tcp_accept_thread cs d)"
  using assms
proof (induction cs arbitrary: d)
  case (Cons c cs)
  then show ?case by (cases c) (auto simp: returns_iff bindR_eq_Inr_iff)
qed simp

lemma silent_ntpq_client_blocks_witness:
  "\<not> returns (tcp_accept_thread [Connection (Some ''version''), Silent, Connection (Some ''version'')] initial_daemon)"
  by (rule silent_ntpq_client_blocks) simp_all

end
