(* ===== verification/DaemonMain.thy ===== *)
theory DaemonMain
  imports Threads
begin

section \<open>Start, main loop and exit (main.c)\<close>

text \<open>
  The server configuration file, dropping privileges, the main loop, the exit handler and
  \<open>main\<close> itself, all of the main thread; the two kinds of threads are in Threads. What
  the outside answers is in the record \<open>main_env\<close>.
\<close>

subsection \<open>The configuration file\<close>

definition int32 :: "int \<Rightarrow> int" where
  "int32 x = sint (word_of_int x :: 32 word)"

definition config_int :: "string \<Rightarrow> int" where
  "config_int s = int32 (fst (strtoll s))"

definition eol_char :: "char \<Rightarrow> bool" where
  "eol_char c \<longleftrightarrow> c = CHR 0x0A \<or> c = CHR 0x0D"

text \<open>\<open>strip_eol\<close> is the loop that shortens \<open>len\<close>.\<close>

definition strip_eol :: "string \<Rightarrow> string" where
  "strip_eol s = rev (dropWhile eol_char (rev s))"

abbreviation upd_cli :: "(CliConfig \<Rightarrow> CliConfig) \<Rightarrow> daemon \<Rightarrow> daemon" where
  "upd_cli f d \<equiv> d\<lparr>g_cli := f (g_cli d)\<rparr>"

definition broadcast_line :: "bool \<Rightarrow> string \<Rightarrow> daemon \<Rightarrow> daemon option" where
  "broadcast_line dup_ok line d =
     (let eq = from_char (CHR ''='') line; v = tl eq
      in if strn_eq 16 line ''enable_broadcast'' then
           Some (if eq \<noteq> [] \<and> config_int v = 1 then upd_cli (\<lambda>c. c\<lparr>broadcast_mode := 1\<rparr>) d else d)
         else if strn_eq 14 line ''broadcast_addr'' then
           Some (let a = strip_eol v
                 in if eq \<noteq> [] \<and> 1 < length v \<and> a \<noteq> [] \<and> length a < INET_ADDRSTRLEN
                    then upd_cli (\<lambda>c. c\<lparr>broadcast_addr := if dup_ok then Some a else None\<rparr>) d else d)
         else if strn_eq 18 line ''broadcast_interval'' then
           Some (let n = config_int v
                 in if eq \<noteq> [] \<and> 32 \<le> n \<and> n \<le> 128
                    then upd_cli (\<lambda>c. c\<lparr>broadcast_interval := n\<rparr>) d else d)
         else None)"

text \<open>Address and port of a server line; the port keeps the end of the line.\<close>

definition server_line :: "string \<Rightarrow> (string \<times> string) option" where
  "server_line line =
     (let colon = from_char (CHR '':'') line; ip = cut_at (CHR '':'') line; port = tl colon
      in if colon = [] \<or> ip = [] \<or> 127 \<le> length ip \<or> 15 \<le> length port then None
         else Some (ip, port))"

definition fresh_peer :: "string \<Rightarrow> string \<Rightarrow> PeerState" where
  "fresh_peer ip port =
     \<lparr>peer_ip = take 63 ip, peer_port = take 15 port, peer_stratum = 16, peer_delay_us = 0,
      peer_offset_us = 0, peer_jitter_us = 0, peer_root_disp = 0, peer_last_update = 0,
      peer_reachable = False, peer_ido_state = ido_zero\<rparr>"

definition add_server :: "string \<Rightarrow> string \<Rightarrow> daemon \<Rightarrow> (unit \<times> daemon) run" where
  "add_server ip port d =
     bindR (with_g_mutex (\<lambda>d. Inr ((), d\<lparr>g_servers := g_servers d @
              [\<lparr>srv_ip = ip, srv_port = port, srv_next_allowed_sync = 0\<rparr>]\<rparr>)) d) (\<lambda>(_, d).
     with_g_mutex (\<lambda>d. Inr ((), if int (length (g_peer_pool d)) < MAX_PEERS
              then d\<lparr>g_peer_pool := g_peer_pool d @ [fresh_peer ip port]\<rparr> else d)) d)"

text \<open>
  One line, with the outcome of its allocations (\<open>strdup\<close> or \<open>strndup\<close>, \<open>realloc\<close>). The first component is
  false when an allocation failed and all servers were dropped.
\<close>

definition server_config_line :: "bool \<times> bool \<Rightarrow> string \<Rightarrow> daemon \<Rightarrow> (bool \<times> daemon) run" where
  "server_config_line mem line d =
     (if line \<noteq> [] \<and> hd line \<in> {CHR 0x0A, CHR ''#'', CHR 0x0D} then Inr (True, d)
      else (case broadcast_line (fst mem) line d of
        Some d \<Rightarrow> Inr (True, d)
      | None \<Rightarrow>
          (case server_line line of
             None \<Rightarrow> Inr (True, d)
           | Some (ip, port) \<Rightarrow>
               if \<not> fst mem \<or> \<not> snd mem then Inr (False, d\<lparr>g_servers := []\<rparr>)
               else bindR (add_server ip port d) (\<lambda>(_, d). Inr (True, d)))))"

fun server_config_lines :: "((bool \<times> bool) \<times> string) list \<Rightarrow> daemon \<Rightarrow> (int \<times> daemon) run" where
  "server_config_lines [] d = Inr (int (length (g_servers d)), d)"
| "server_config_lines ((mem, l) # ls) d =
     bindR (server_config_line mem l d) (\<lambda>(more, d).
       if more then server_config_lines ls d else Inr (0, d))"

definition config_path :: "CliConfig \<Rightarrow> string" where
  "config_path c = (case config_file c of Some p \<Rightarrow> p | None \<Rightarrow> ''/etc/dntpd/dntpd.conf'')"

definition load_server_config ::
    "(string \<Rightarrow> string option) \<Rightarrow> (nat \<Rightarrow> bool \<times> bool) \<Rightarrow> daemon \<Rightarrow> (int \<times> daemon) run" where
  "load_server_config files mem d =
     (case files (config_path (g_cli d)) of
        None \<Rightarrow> Inr (0, d)
      | Some contents \<Rightarrow>
          (let ls = fgets_lines 255 contents
           in server_config_lines (zip (map mem [0..<length ls]) ls) d))"

subsection \<open>Privileges\<close>

datatype priv_call = SetGid int | SetUid int

text \<open>\<open>getpwnam\<close> answers user and group; the calls made, in order.\<close>

definition apply_user_privileges ::
    "(string \<Rightarrow> (int \<times> int) option) \<Rightarrow> (priv_call \<Rightarrow> bool) \<Rightarrow> string option \<Rightarrow> int \<times> priv_call list" where
  "apply_user_privileges getpwnam ok username =
     (case username of
        None \<Rightarrow> (0, [])
      | Some u \<Rightarrow>
          (case getpwnam u of
             None \<Rightarrow> (- 1, [])
           | Some (uid, gid) \<Rightarrow>
               if \<not> ok (SetGid gid) then (- 1, [SetGid gid])
               else if \<not> ok (SetUid uid) then (- 1, [SetGid gid, SetUid uid])
               else (0, [SetGid gid, SetUid uid])))"

subsection \<open>The main loop\<close>

text \<open>
  \<open>rd_now\<close> and \<open>rd_sync\<close> are what each server's turn sees: the time, and the outside world
  of \<open>sync_ntp_time\<close>.
\<close>

record sync_round_env =
  rd_shutdown :: bool
  rd_now :: "nat \<Rightarrow> int"
  rd_sync :: "nat \<Rightarrow> sync_env"

abbreviation SYNC_RETRY_INTERVAL_SEC :: int where "SYNC_RETRY_INTERVAL_SEC \<equiv> 15"

definition set_next_allowed :: "nat \<Rightarrow> int \<Rightarrow> daemon \<Rightarrow> daemon" where
  "set_next_allowed i t d =
     d\<lparr>g_servers := (g_servers d)[i := (g_servers d ! i)\<lparr>srv_next_allowed_sync := t\<rparr>]\<rparr>"

text \<open>
  One server: whether all is well, and the new state. The function that synchronises is an argument, in the
  program it is \<open>sync_ntp_time\<close>.
\<close>

definition sync_server_with ::
    "(string \<Rightarrow> string \<Rightarrow> daemon \<Rightarrow> (int \<times> daemon) run) \<Rightarrow> sync_round_env \<Rightarrow> nat \<Rightarrow> daemon \<Rightarrow> (bool \<times> daemon) run" where
  "sync_server_with sync R i d =
     (let now = (if rd_now R i < 0 then 0 else rd_now R i); s = g_servers d ! i
      in if srv_next_allowed_sync s \<noteq> 0 \<and> now < srv_next_allowed_sync s then Inr (False, d)
         else bindR (sync (srv_ip s) (srv_port s) d) (\<lambda>(rc, d).
           if rc \<noteq> 0 then bindR (i64 (now + SYNC_RETRY_INTERVAL_SEC)) (\<lambda>t. Inr (False, set_next_allowed i t d))
           else Inr (True, set_next_allowed i 0 d)))"

definition sync_server :: "fpu \<Rightarrow> sync_round_env \<Rightarrow> nat \<Rightarrow> daemon \<Rightarrow> (bool \<times> daemon) run" where
  "sync_server F R i d =
     sync_server_with (\<lambda>ip port. sync_ntp_time F (rd_sync R i) (Some ip) (Some port)) R i d"

lemmas sync_server_code = sync_server_def [unfolded sync_server_with_def]

text \<open>The turn calls the function that synchronises: with one that never comes back it does not return.\<close>

definition asks :: "sync_round_env \<Rightarrow> nat \<Rightarrow> daemon \<Rightarrow> bool" where
  "asks R i d \<longleftrightarrow> \<not> returns (sync_server_with (\<lambda>_ _ _. Inl Diverges) R i d)"

fun sync_servers :: "fpu \<Rightarrow> sync_round_env \<Rightarrow> nat list \<Rightarrow> daemon \<Rightarrow> (bool \<times> daemon) run" where
  "sync_servers F R [] d = Inr (True, d)"
| "sync_servers F R (i # is) d =
     bindR (sync_server F R i d) (\<lambda>(ok, d).
     bindR (sync_servers F R is d) (\<lambda>(all_success, d). Inr (ok \<and> all_success, d)))"

text \<open>
  The loop over any sequence of rounds. Result: whether the loop has been left, and for
  every round whether all servers were synchronised.
\<close>

fun main_loop :: "fpu \<Rightarrow> sync_round_env list \<Rightarrow> daemon \<Rightarrow> (bool \<times> bool list \<times> daemon) run" where
  "main_loop F [] d = Inr (False, [], d)"
| "main_loop F (R # Rs) d =
     (if rd_shutdown R then Inr (True, [], d)
      else if g_servers d = [] then
        bindR (with_clock_mutex (\<lambda>d. ((), d)) d) (\<lambda>(_, d). main_loop F Rs d)
      else
        bindR (sync_servers F R [0..<length (g_servers d)] d) (\<lambda>(all_success, d).
          if quit_after_sync (g_cli d) \<noteq> 0 then Inr (True, [all_success], d)
          else bindR (main_loop F Rs d) (\<lambda>(left, oks, d). Inr (left, all_success # oks, d))))"

subsection \<open>Exit\<close>

text \<open>Result: the descriptors closed, the frequency written, the file removed.\<close>

definition cleanup_resources :: "daemon \<Rightarrow> ((int list \<times> rat option \<times> string option) \<times> daemon) run" where
  "cleanup_resources d =
     (let (tcp, closed1) = stop_tcp_listener (g_tcp_sock d); d = d\<lparr>g_tcp_sock := tcp\<rparr>
      in bindR (stop_clock_thread d) (\<lambda>d.
         bindR (cleanup_clock_thread d) (\<lambda>d.
         bindR (stop_peer_thread d) (\<lambda>d.
         bindR (cleanup_peer_thread d) (\<lambda>(closed2, d).
         let d = d\<lparr>g_ido_state := the (ido_state_cleanup (Some (g_ido_state d)))\<rparr>
         in bindR (leap_second_cleanup d) (\<lambda>(_, d).
         bindR (on_mode mode_handler_cleanup d) (\<lambda>(_, d).
         let (_, written) = save_frequency_persistent d
         in Inr ((closed1 @ closed2, written, pid_file (g_cli d)),
                 d\<lparr>g_servers := []\<rparr>))))))))"

subsection \<open>The main function\<close>

text \<open>
  The world of \<open>main\<close>: files by name (\<open>None\<close> when they cannot be opened), allocations, the
  password database, the kernel's answers. Threads are numbered: 0 the clock thread, 1 the
  peer thread, 2 the ntpq thread. Whether a bind is granted may depend on whether the user
  has been changed before.
\<close>

record main_env =
  mn_files :: "string \<Rightarrow> string option"
  mn_mem :: "nat \<Rightarrow> bool \<times> bool"
  mn_res :: "timespec option"
  mn_getpwnam :: "string \<Rightarrow> (int \<times> int) option"
  mn_priv_ok :: "priv_call \<Rightarrow> bool"
  mn_strtod :: "string \<Rightarrow> fval \<times> bool \<times> string"
  mn_inet_addr :: "string \<Rightarrow> u32"
  mn_inet_pton :: "string \<Rightarrow> u32 option"
  mn_freq_file :: "rat option"
  mn_mutex_ok :: "nat \<Rightarrow> bool"
  mn_cond_ok :: bool
  mn_create_ok :: "nat \<Rightarrow> bool"
  mn_detach_ok :: "nat \<Rightarrow> bool"
  mn_sock_of :: "family \<Rightarrow> int"
  mn_bind_ok :: "bool \<Rightarrow> int \<Rightarrow> u16 \<Rightarrow> bool"
  mn_listen_ok :: "int \<Rightarrow> bool"
  mn_rounds :: "sync_round_env list"

definition daemonizes :: "CliConfig \<Rightarrow> bool" where
  "daemonizes c \<longleftrightarrow> foreground c = 0 \<and> no_daemonize c = 0"

text \<open>
  \<open>main\<close> changes the user only when it daemonizes; the result: whether it did. A name behind the
  end of its argument is read by \<open>getpwnam\<close>, which is undefined (\<open>ntpd_run\<close>).
\<close>

definition drop_privileges :: "main_env \<Rightarrow> CliConfig \<Rightarrow> bool" where
  "drop_privileges M c \<longleftrightarrow> daemonizes c \<and>
     (case run_user c of
        UserName u \<Rightarrow> fst (apply_user_privileges (mn_getpwnam M) (mn_priv_ok M) (Some u)) = 0
      | _ \<Rightarrow> False)"

definition sync_interval :: "CliConfig \<Rightarrow> int" where
  "sync_interval c = (if 0 < timeout_sec c then timeout_sec c else SYNC_INTERVAL_SECONDS)"

text \<open>The modules, in the order of \<open>main\<close>.\<close>

definition init_modules :: "fpu \<Rightarrow> main_env \<Rightarrow> daemon \<Rightarrow> (int \<times> daemon) run" where
  "init_modules F M d =
     bindR (on_mode mode_handler_init d) (\<lambda>(_, d).
     bindR (on_mode (mode_handler_parse_config F (mn_strtod M) (mn_inet_addr M) (mn_files M)
              (Some ''/etc/dntpd/modes.conf'')) d) (\<lambda>(_, d).
     let d = d\<lparr>g_ido_state := the (ido_state_init (Some (g_ido_state d)))\<rparr>;
         d = snd (init_frequency_discipline F d);
         d = snd (load_frequency_persistent (mn_freq_file M) d)
     in leap_second_init d))"

definition start_ntpq_thread :: "bool \<Rightarrow> daemon \<Rightarrow> int" where
  "start_ntpq_thread create_ok d = (if g_tcp_sock d < 0 \<or> \<not> create_ok then - 1 else 0)"

text \<open>\<open>Some code\<close>: \<open>main\<close> gives up with that code, after cleaning up.\<close>

definition start_threads :: "main_env \<Rightarrow> daemon \<Rightarrow> (int option \<times> daemon) run" where
  "start_threads M d =
     (let (rc, d) = (if g_servers d \<noteq> []
                     then start_clock_thread (mn_mutex_ok M 0) (mn_cond_ok M) (mn_create_ok M 0)
                            (mn_detach_ok M 0) (sync_interval (g_cli d)) d
                     else (0, d))
      in if rc \<noteq> 0 then bindR (cleanup_resources d) (\<lambda>(_, d). Inr (Some 1, d))
         else
           (let (sock, _, _) = create_udp_socket (mn_sock_of M) (mn_inet_pton M)
                                 (mn_bind_ok M (drop_privileges M (g_cli d))) (g_cli d) 123
            in if sock < 0 then bindR (cleanup_resources d) (\<lambda>(_, d). Inr (Some 1, d))
               else
                 bindR (start_peer_thread (mn_mutex_ok M 1) (mn_create_ok M 1) (mn_detach_ok M 1) sock
                          (Some ''0.0.0.0'') (Some ''123'') 0 d) (\<lambda>(rc, d).
                 if rc \<noteq> 0 then bindR (cleanup_resources d) (\<lambda>(_, d). Inr (Some 1, d))
                 else
                   (let d = d\<lparr>g_tcp_sock := start_tcp_listener (mn_sock_of M) (mn_inet_pton M)
                              (mn_bind_ok M (drop_privileges M (g_cli d))) (mn_listen_ok M) (g_tcp_sock d)\<rparr>;
                        d = (if 0 \<le> g_tcp_sock d \<and> start_ntpq_thread (mn_create_ok M 2) d \<noteq> 0
                             then d\<lparr>g_tcp_sock := fst (stop_tcp_listener (g_tcp_sock d))\<rparr> else d)
                    in Inr (None, d)))))"

text \<open>
  The exit code, or \<open>None\<close> while the rounds given have not ended the loop. Once
  \<open>cleanup_resources\<close> is registered with \<open>atexit\<close> every return goes through it.
\<close>

definition exit_with :: "int \<Rightarrow> daemon \<Rightarrow> (int option \<times> daemon) run" where
  "exit_with code d = bindR (cleanup_resources d) (\<lambda>(_, d). Inr (Some code, d))"

definition ntpd_run :: "fpu \<Rightarrow> main_env \<Rightarrow> daemon \<Rightarrow> (int option \<times> daemon) run" where
  "ntpd_run F M d =
     bindR (get_system_precision (mn_res M)) (\<lambda>precision.
     bindR (load_server_config (mn_files M) (mn_mem M) (d\<lparr>g_local_precision := precision\<rparr>)) (\<lambda>(count, d).
     if count \<le> 0 then exit_with 1 d
     else if daemonizes (g_cli d) \<and> run_user (g_cli d) = PastEnd then Inl Undefined
     else
       bindR (init_modules F M d) (\<lambda>(_, d).
       bindR (start_threads M d) (\<lambda>(failed, d).
         case failed of
           Some code \<Rightarrow> exit_with code d
         | None \<Rightarrow>
             bindR (main_loop F (mn_rounds M) d) (\<lambda>(left, _, d).
               if left then exit_with 0 d else Inr (None, d))))))"

definition ntpd_main :: "fpu \<Rightarrow> main_env \<Rightarrow> string list \<Rightarrow> daemon \<Rightarrow> (int option \<times> daemon) run" where
  "ntpd_main F M argv d =
     (let (parse_ret, cli) = parse_arguments argv (g_cli d); d = d\<lparr>g_cli := cli\<rparr>
      in if parse_ret = 2 \<or> parse_ret = 3 then Inr (Some 0, d)
         else if parse_ret \<noteq> 0 then Inr (Some 1, d)
         else ntpd_run F M d)"

subsection \<open>Exit\<close>

lemma mode_handler_cleanup_stuck: "mode_handler_cleanup s = Inl Deadlock"
  unfolding mode_handler_cleanup_def acl_get_entry_count_def with_g_mode_mutex_def
  by (simp add: gmm.nested_deadlocks)

lemma cleanup_stuck: "\<not> returns (cleanup_resources d)"
  by (auto simp: cleanup_resources_def Let_def returns_iff on_mode_def mode_handler_cleanup_stuck
      bindR_eq_Inr_iff split: prod.splits)

text \<open>
  The exit handler never returns, in any state: it reaches \<open>mode_handler_cleanup\<close>, which
  locks its own mutex twice, unless it is stuck before. What follows, writing the frequency,
  removing the process-id file and freeing the servers, is never done.
\<close>

theorem cleanup_never_returns:
  "\<not> returns (cleanup_resources d)"
  by (rule cleanup_stuck)

lemma exit_with_stuck: "\<not> returns (exit_with code d)"
  using cleanup_stuck [of d] by (auto simp: exit_with_def returns_iff bindR_eq_Inr_iff)


lemma ntpd_run_never_exits: "ntpd_run F M d \<noteq> Inr (Some code, e)"
  using exit_with_stuck by (auto simp: ntpd_run_def returns_iff bindR_eq_Inr_iff split: if_splits option.splits)

text \<open>
  C14: a daemon whose arguments are accepted never exits in the ordinary way: whatever the
  configuration, the kernel, the network and the number of rounds, \<open>main\<close> gives no exit
  code. That holds with no server configured, with port 123 taken, after a signal, and
  in the mode that quits after one synchronisation.
\<close>

theorem daemon_never_exits:
  assumes "parse_arguments argv (g_cli d) = (0, cli)"
  shows "\<not> (\<exists>code e. ntpd_main F M argv d = Inr (Some code, e))"
  using assms ntpd_run_never_exits by (simp add: ntpd_main_def)

lemma daemon_never_exits_witness:
  "\<not> (\<exists>code e. ntpd_main exact_fpu (undefined\<lparr>mn_files := \<lambda>_. None\<rparr>) [''dntpd''] initial_daemon = Inr (Some code, e))"
  by (rule daemon_never_exits) (simp add: parse_arguments_def)

subsection \<open>The main loop\<close>

lemma set_next_allowed_quiet:
  "clock_cmds (set_next_allowed i t d) = clock_cmds d" "g_last_sync_ts (set_next_allowed i t d) = g_last_sync_ts d"
  "g_time_synced (set_next_allowed i t d) = g_time_synced d" "g_mutex (set_next_allowed i t d) = g_mutex d"
  "g_mode (set_next_allowed i t d) = g_mode d"
  by (simp_all add: set_next_allowed_def)

text \<open>What no round changes.\<close>

definition idle :: "daemon \<Rightarrow> daemon \<Rightarrow> bool" where
  "idle d e \<longleftrightarrow> clock_cmds e = clock_cmds d \<and> g_last_sync_ts e = g_last_sync_ts d \<and>
     (g_time_synced e \<longrightarrow> g_time_synced d) \<and> \<not> g_mutex e"

text \<open>A server's turn: not due yet, or a failed synchronisation and a new earliest time.\<close>

lemma sync_server_eq:
  assumes "\<not> g_mutex d" "sync_server F R i d = Inr (ok, e)"
  shows "ok = False" "if srv_next_allowed_sync (g_servers d ! i) \<noteq> 0 \<and>
      max 0 (rd_now R i) < srv_next_allowed_sync (g_servers d ! i) then e = d
    else \<exists>e'. quiet d e' \<and> e = set_next_allowed i (max 0 (rd_now R i) + 15) e'"
proof -
  let ?s = "g_servers d ! i"
  have now: "(if rd_now R i < 0 then 0 else rd_now R i) = max 0 (rd_now R i)" by simp
  have "ok = False \<and> (if srv_next_allowed_sync ?s \<noteq> 0 \<and> max 0 (rd_now R i) < srv_next_allowed_sync ?s then e = d
    else \<exists>e'. quiet d e' \<and> e = set_next_allowed i (max 0 (rd_now R i) + 15) e')"
  proof (cases "srv_next_allowed_sync ?s \<noteq> 0 \<and> max 0 (rd_now R i) < srv_next_allowed_sync ?s")
    case True
    then show ?thesis using assms(2) by (simp add: sync_server_code now Let_def)
  next
    case False
    then obtain rc e' where s: "sync_ntp_time F (rd_sync R i) (Some (srv_ip ?s)) (Some (srv_port ?s)) d = Inr (rc, e')"
      using assms(2) unfolding sync_server_code now Let_def by (cases "sync_ntp_time F (rd_sync R i) (Some (srv_ip ?s)) (Some (srv_port ?s)) d") auto
    have "rc = - 1" "quiet d e'" using sync_ntp_time_quiet [OF assms(1) s] by blast+
    then show ?thesis
      using assms(2) False s unfolding sync_server_code now Let_def by (auto simp: bindR_eq_Inr_iff)
  qed
  then show "ok = False" "if srv_next_allowed_sync ?s \<noteq> 0 \<and> max 0 (rd_now R i) < srv_next_allowed_sync ?s then e = d
    else \<exists>e'. quiet d e' \<and> e = set_next_allowed i (max 0 (rd_now R i) + 15) e'" by blast+
qed

text \<open>
  What a property of the daemon has to survive to survive the main loop: the laws of \<open>sync_frame\<close>, and the
  noting of a server's earliest next time.
\<close>

locale round_frame = sync_frame I for I :: "daemon \<Rightarrow> bool" +
  assumes keeps_next: "I d \<Longrightarrow> i < length (g_servers d) \<Longrightarrow> I (set_next_allowed i t d)"
begin

lemma sync_server_keeps:
  assumes "I d" "sync_server F R i d = Inr (ok, e)" "i < length (g_servers d)"
  shows "\<not> ok \<and> I e \<and> length (g_servers e) = length (g_servers d)"
proof -
  let ?s = "g_servers d ! i" and ?now = "if rd_now R i < 0 then 0 else rd_now R i"
  note free = mutex_free [OF assms(1)]
  show ?thesis
  proof (cases "srv_next_allowed_sync ?s \<noteq> 0 \<and> ?now < srv_next_allowed_sync ?s")
    case True
    then show ?thesis using assms by (auto simp: sync_server_code Let_def)
  next
    case False
    then obtain rc e' where s: "sync_ntp_time F (rd_sync R i) (Some (srv_ip ?s)) (Some (srv_port ?s)) d = Inr (rc, e')"
        "rc \<noteq> 0 \<Longrightarrow> \<not> ok \<and> (\<exists>t. e = set_next_allowed i t e')"
      using assms(2) unfolding sync_server_code Let_def by (auto simp: bindR_eq_Inr_iff split: if_splits)
    have "rc = - 1" "I e'" "quiet d e'"
      using sync_ntp_time_keeps [OF assms(1) s(1)] sync_ntp_time_quiet [OF free s(1)] by blast+
    with s(2) obtain t where "\<not> ok" "e = set_next_allowed i t e'" by auto
    moreover have "g_servers e' = g_servers d" using \<open>quiet d e'\<close> by (simp add: quiet_def)
    ultimately show ?thesis using keeps_next [OF \<open>I e'\<close>, of i t] assms(3) by (simp add: set_next_allowed_def)
  qed
qed

lemma sync_servers_keeps:
  assumes "I d" "sync_servers F R is d = Inr (ok, e)" "\<forall>i\<in>set is. i < length (g_servers d)"
  shows "(is \<noteq> [] \<longrightarrow> \<not> ok) \<and> I e"
  using assms
proof (induction "is" arbitrary: d ok)
  case (Cons i "is")
  then obtain ok1 ok2 d1 where *: "sync_server F R i d = Inr (ok1, d1)" "sync_servers F R is d1 = Inr (ok2, e)"
    "ok = (ok1 \<and> ok2)" by (auto simp: bindR_eq_Inr_iff)
  have k: "\<not> ok1" "I d1" "length (g_servers d1) = length (g_servers d)"
    using sync_server_keeps [OF Cons.prems(1) *(1)] Cons.prems(3) by simp_all
  then show ?case using Cons.IH [OF k(2) *(2)] *(3) Cons.prems(3) by simp
qed simp

lemma main_loop_keeps:
  assumes "I d" "main_loop F Rs d = Inr (left, oks, e)"
  shows "I e \<and> (\<forall>ok\<in>set oks. \<not> ok)"
  using assms
proof (induction Rs arbitrary: d left oks)
  case (Cons R Rs)
  consider (stop) "rd_shutdown R" | (none) "\<not> rd_shutdown R" "g_servers d = []" | (round) "\<not> rd_shutdown R" "g_servers d \<noteq> []"
    by blast
  then show ?case
  proof cases
    case stop
    then show ?thesis using Cons.prems by auto
  next
    case none
    then show ?thesis using Cons by (auto simp: with_clock_mutex_def split: if_splits)
  next
    case round
    then obtain ok d1 where s: "sync_servers F R [0..<length (g_servers d)] d = Inr (ok, d1)"
      using Cons.prems(2) by (auto simp: bindR_eq_Inr_iff)
    then have i: "\<not> ok" "I d1" using sync_servers_keeps [OF Cons.prems(1) s] round by auto
    then show ?thesis
      using Cons.IH [OF i(2)] Cons.prems(2) round s i(1)
      by (auto simp: bindR_eq_Inr_iff split: if_splits)
  qed
qed simp

end

interpretation idl: round_frame "idle d0" for d0
proof (unfold_locales, goal_cases)
  case (4 d clk now dir r d')
  then show ?case using schedule_frame [OF 4(2)] by (auto simp: idle_def)
next
  case (5 d t dl off u d')
  then show ?case using marx_add_frame [OF 5(2)] by (auto simp: idle_def)
next
  case (6 d c k r d')
  then show ?case using marx_filter_frame [OF 6(2)] by (auto simp: idle_def)
next
  case (7 d b r d')
  then show ?case using lose_sync_quiet [of b d r d'] by (auto simp: idle_def quiet_def)
qed (simp_all add: idle_def set_next_allowed_quiet)

lemma idle_refl: "\<not> g_mutex d \<Longrightarrow> idle d d"
  by (simp add: idle_def)

text \<open>
  The main loop never keeps the time. Over any number of rounds, with any servers, replies
  and clocks, no round synchronises all servers; no command goes to the clock, no time of
  synchronisation is recorded and a daemon that is not synchronised stays so.
\<close>

theorem main_loop_never_synchronises:
  assumes "\<not> g_mutex d" "\<not> g_time_synced d" "main_loop F Rs d = Inr (left, oks, e)"
  shows "clock_cmds e = clock_cmds d \<and> g_last_sync_ts e = g_last_sync_ts d \<and> \<not> g_time_synced e \<and>
    True \<notin> set oks"
  using idl.main_loop_keeps [OF idle_refl [OF assms(1)] assms(3)] assms(2) by (auto simp: idle_def)

text \<open>
  After a turn that was due, a server rests: the next 15 seconds of the clock leave it alone, whatever
  the other servers do, and the turn counts as a failure.
\<close>

theorem failed_server_rests:
  assumes "\<not> g_mutex d" "i < length (g_servers d)"
    "srv_next_allowed_sync (g_servers d ! i) \<le> max 0 (rd_now R i)"
    "sync_server F R i d = Inr (ok, e)"
    "max 0 (rd_now R' i) < max 0 (rd_now R i) + 15"
  shows "ok = False \<and> length (g_servers e) = length (g_servers d) \<and>
    srv_next_allowed_sync (g_servers e ! i) = max 0 (rd_now R i) + 15 \<and>
    sync_server F R' i e = Inr (False, e)"
proof -
  obtain e' where e': "quiet d e'" "e = set_next_allowed i (max 0 (rd_now R i) + 15) e'"
    using sync_server_eq(2) [OF assms(1,4)] assms(3) by (auto split: if_splits)
  have now: "(if rd_now R' i < 0 then 0 else rd_now R' i) = max 0 (rd_now R' i)" by simp
  show ?thesis
    using e' assms(2,5) sync_server_eq(1) [OF assms(1,4)]
    by (auto simp: set_next_allowed_def quiet_def sync_server_code now Let_def)
qed

subsection \<open>A silent server\<close>

definition silent_round :: sync_round_env where
  "silent_round = \<lparr>rd_shutdown = False, rd_now = (\<lambda>_. 1700000000), rd_sync = (\<lambda>_. good_env None)\<rparr>"

definition one_server :: daemon where
  "one_server = initial_daemon\<lparr>g_servers := [\<lparr>srv_ip = ''192.0.2.1'', srv_port = ''123'', srv_next_allowed_sync = 0\<rparr>]\<rparr>"

lemma one_server_simps:
  "g_servers one_server = [\<lparr>srv_ip = ''192.0.2.1'', srv_port = ''123'', srv_next_allowed_sync = 0\<rparr>]"
  "\<not> g_mutex one_server" "\<not> g_time_synced one_server" "clock_cmds one_server = []" "g_sync_sock one_server = - 1"
  "family_preference (g_cli one_server) = 0" "quit_after_sync (g_cli one_server) = 0"
  by (simp_all add: one_server_def initial_daemon_def default_cli_def)

lemma silent_server:
  assumes "g_sync_sock d = - 1" "family_preference (g_cli d) = 0"
  shows "sync_ntp_time F (good_env None) (Some ip) (Some ''123'') d = Inr (- 1, d\<lparr>g_sync_sock := 5\<rparr>)"
proof -
  have p: "strtoll ''123'' = (123, False, [])"
    by (simp add: strtoll_def scan_number_def skip_space_def is_space_def is_digit_def
      digits_val_def digit_val_def)
  show ?thesis
    by (simp add: sync_ntp_time_code get_sync_socket_def network4_create_socket_def p assms good_env_def
        create_ntp_request_eq fail_sync_def)
qed

abbreviation after_silence :: daemon where
  "after_silence \<equiv> set_next_allowed 0 1700000015 (one_server\<lparr>g_sync_sock := 5\<rparr>)"

lemma silent_turn:
  "sync_server F silent_round 0 one_server = Inr (False, after_silence)"
  by (simp add: sync_server_code silent_round_def one_server_simps silent_server in_i64_def)

lemma main_loop_never_synchronises_witness:
  "\<exists>e. main_loop exact_fpu [silent_round] one_server = Inr (False, [False], e) \<and> clock_cmds e = []"
proof -
  have m: "main_loop exact_fpu [silent_round] one_server = Inr (False, [False], after_silence)"
    using silent_turn [of exact_fpu] by (simp add: one_server_simps silent_round_def set_next_allowed_def)
  then show ?thesis using main_loop_never_synchronises [OF one_server_simps(2,3) m] by (simp add: one_server_simps)
qed

lemma failed_server_rests_witness:
  "\<exists>e. sync_server exact_fpu silent_round 0 one_server = Inr (False, e) \<and>
     sync_server exact_fpu (silent_round\<lparr>rd_now := \<lambda>_. 1700000014\<rparr>) 0 e = Inr (False, e)"
proof -
  obtain e where e: "sync_server exact_fpu silent_round 0 one_server = Inr (False, e)" using silent_turn by blast
  then show ?thesis
    using failed_server_rests [OF one_server_simps(2) _ _ e, of "silent_round\<lparr>rd_now := \<lambda>_. 1700000014\<rparr>"]
    by (simp add: one_server_simps silent_round_def)
qed

subsection \<open>The server list\<close>

text \<open>The server lines of a configuration.\<close>

definition comment_line :: "string \<Rightarrow> bool" where
  "comment_line l \<longleftrightarrow> l \<noteq> [] \<and> hd l \<in> {CHR 0x0A, CHR ''#'', CHR 0x0D}"

definition keyword_line :: "string \<Rightarrow> bool" where
  "keyword_line l \<longleftrightarrow> strn_eq 16 l ''enable_broadcast'' \<or> strn_eq 14 l ''broadcast_addr'' \<or>
     strn_eq 18 l ''broadcast_interval''"

definition servers_of :: "string list \<Rightarrow> (string \<times> string) list" where
  "servers_of ls = List.map_filter server_line (filter (\<lambda>l. \<not> comment_line l \<and> \<not> keyword_line l) ls)"

lemma broadcast_line_iff: "broadcast_line m l d = None \<longleftrightarrow> \<not> keyword_line l"
  by (simp add: broadcast_line_def keyword_line_def Let_def)

lemma broadcast_line_frame:
  assumes "broadcast_line m l d = Some e"
  shows "g_servers e = g_servers d \<and> g_peer_pool e = g_peer_pool d \<and> g_mutex e = g_mutex d"
  using assms by (auto simp: broadcast_line_def Let_def split: if_splits)

abbreviation server_entry :: "string \<times> string \<Rightarrow> ServerConfig" where
  "server_entry s \<equiv> \<lparr>srv_ip = fst s, srv_port = snd s, srv_next_allowed_sync = 0\<rparr>"

lemma add_server_eq:
  assumes "\<not> g_mutex d"
  shows "add_server ip port d = Inr ((), d\<lparr>g_servers := g_servers d @ [server_entry (ip, port)],
    g_peer_pool := take (max 8 (length (g_peer_pool d))) (g_peer_pool d @ [fresh_peer ip port])\<rparr>)"
  using assms by (simp add: add_server_def with_g_mutex_def with_mutex_def max_def)

lemma take_take_append: "take n (take n xs @ ys) = take n (xs @ ys)"
  by (cases "length xs \<le> n") simp_all

text \<open>A line leaves servers and pool alone, or adds one server.\<close>

lemma server_config_line_cases:
  assumes d: "\<not> g_mutex d" "length (g_peer_pool d) \<le> 8"
  obtains (skip) d1 where "server_config_line (True, True) l d = Inr (True, d1)"
      "\<And>ls. servers_of (l # ls) = servers_of ls"
      "g_servers d1 = g_servers d" "g_peer_pool d1 = g_peer_pool d" "\<not> g_mutex d1"
    | (server) ip port where "server_config_line (True, True) l d = Inr (True,
        d\<lparr>g_servers := g_servers d @ [server_entry (ip, port)],
          g_peer_pool := take 8 (g_peer_pool d @ [fresh_peer ip port])\<rparr>)"
      "\<And>ls. servers_of (l # ls) = (ip, port) # servers_of ls"
proof (cases "comment_line l")
  case True
  then have "server_config_line (True, True) l d = Inr (True, d)"
    by (simp add: server_config_line_def comment_line_def)
  then show thesis using True d skip [of d] by (simp add: servers_of_def)
next
  case False
  then have c: "(l \<noteq> [] \<and> hd l \<in> {CHR 0x0A, CHR ''#'', CHR 0x0D}) = False" by (simp add: comment_line_def)
  have add: "add_server ip port d = Inr ((), d\<lparr>g_servers := g_servers d @ [server_entry (ip, port)],
      g_peer_pool := take 8 (g_peer_pool d @ [fresh_peer ip port])\<rparr>)" for ip port
    using add_server_eq [OF d(1), of ip port] d(2) by (simp add: max_def)
  show thesis
  proof (cases "broadcast_line True l d")
    case (Some d1)
    then have "keyword_line l" using broadcast_line_iff [of True l d] by simp
    then show thesis using broadcast_line_frame [OF Some] d Some skip [of d1] False
      by (simp add: server_config_line_def c servers_of_def del: insert_iff)
  next
    case None
    then have k: "\<not> keyword_line l" using broadcast_line_iff [of True l d] by simp
    show thesis
    proof (cases "server_line l")
      case None
      then show thesis using d skip [of d] False k \<open>broadcast_line True l d = None\<close>
        by (simp add: server_config_line_def c servers_of_def List.map_filter_simps del: insert_iff)
    next
      case (Some s)
      then show thesis using server [of "fst s" "snd s"] False k None
        by (cases s) (simp add: server_config_line_def c servers_of_def List.map_filter_simps add del: insert_iff)
    qed
  qed
qed

lemma server_config_lines_eq:
  assumes "\<not> g_mutex d" "\<forall>x\<in>set xs. fst x = (True, True)" "length (g_peer_pool d) \<le> 8"
  shows "\<exists>e. server_config_lines xs d = Inr (int (length (g_servers e)), e) \<and>
    g_servers e = g_servers d @ map server_entry (servers_of (map snd xs)) \<and>
    g_peer_pool e = take 8 (g_peer_pool d @ map (\<lambda>(ip, port). fresh_peer ip port) (servers_of (map snd xs))) \<and>
    \<not> g_mutex e"
  using assms
proof (induction xs arbitrary: d)
  case (Cons x xs)
  then obtain l where x: "x = ((True, True), l)" by (cases x) auto
  show ?case
  proof (cases rule: server_config_line_cases [OF Cons.prems(1,3), of l, case_names skip server])
    case (skip d1)
    then show ?thesis using Cons.IH [of d1] Cons.prems x by simp
  next
    case (server ip port)
    let ?d = "d\<lparr>g_servers := g_servers d @ [server_entry (ip, port)],
      g_peer_pool := take 8 (g_peer_pool d @ [fresh_peer ip port])\<rparr>"
    have "\<not> g_mutex ?d" "length (g_peer_pool ?d) \<le> 8" using Cons.prems by simp_all
    note Cons.IH [OF this(1) _ this(2)]
    then show ?thesis using Cons.prems(2) x server
      by (simp add: take_take_append del: take_append)
  qed
qed (simp add: servers_of_def List.map_filter_simps)

text \<open>
  The address of a server never has a colon: a line is cut at its first, so of an IPv6
  address only the part before it is left, and the rest is taken for the port. The fields fit
  their buffers, and the port keeps the end of the line.
\<close>

theorem server_line_fields:
  assumes "server_line line = Some (ip, port)"
  shows "line = ip @ CHR '':'' # port \<and> CHR '':'' \<notin> set ip \<and> ip \<noteq> [] \<and> length ip < 127 \<and> length port < 15"
proof -
  let ?P = "\<lambda>x. x \<noteq> CHR '':''"
  have *: "ip = takeWhile ?P line" "port = tl (dropWhile ?P line)" "dropWhile ?P line \<noteq> []" "ip \<noteq> []"
    "length ip < 127" "length port < 15"
    using assms by (auto simp: server_line_def cut_at_def from_char_def Let_def split: if_splits)
  then obtain c where "dropWhile ?P line = c # port" by (cases "dropWhile ?P line") auto
  moreover from this have "c = CHR '':''" using hd_dropWhile [of ?P line] *(3) by (metis list.sel(1))
  ultimately have "line = ip @ CHR '':'' # port" using takeWhile_dropWhile_id [of ?P line] * by simp
  moreover have "CHR '':'' \<notin> set ip" using * by (auto dest: set_takeWhileD)
  ultimately show ?thesis using * by blast
qed

text \<open>
  What a line of the file has to be to announce a server, without the way the code looks for it: an address
  that is not empty and has no colon, a colon, and a port, which is all that follows, the end of the line included;
  address and port have less than 127 and 15 characters, and the line begins neither like a
  comment nor with a keyword.
\<close>

definition announces :: "string \<Rightarrow> string \<times> string \<Rightarrow> bool" where
  "announces l s \<longleftrightarrow> l = fst s @ CHR '':'' # snd s \<and> CHR '':'' \<notin> set (fst s) \<and> fst s \<noteq> [] \<and>
     length (fst s) < 127 \<and> length (snd s) < 15 \<and> hd l \<noteq> CHR 0x0A \<and> hd l \<noteq> CHR ''#'' \<and> hd l \<noteq> CHR 0x0D \<and>
     take 16 l \<noteq> ''enable_broadcast'' \<and> take 14 l \<noteq> ''broadcast_addr'' \<and> take 18 l \<noteq> ''broadcast_interval''"

lemma not_keyword:
  "\<not> keyword_line l \<longleftrightarrow>
    take 16 l \<noteq> ''enable_broadcast'' \<and> take 14 l \<noteq> ''broadcast_addr'' \<and> take 18 l \<noteq> ''broadcast_interval''"
  by (simp add: keyword_line_def strn_eq_def)

lemma server_line_iff:
  "server_line l = Some s \<longleftrightarrow> l = fst s @ CHR '':'' # snd s \<and> CHR '':'' \<notin> set (fst s) \<and> fst s \<noteq> [] \<and>
     length (fst s) < 127 \<and> length (snd s) < 15"
proof
  assume "server_line l = Some s"
  then show "l = fst s @ CHR '':'' # snd s \<and> CHR '':'' \<notin> set (fst s) \<and> fst s \<noteq> [] \<and>
     length (fst s) < 127 \<and> length (snd s) < 15" using server_line_fields [of l "fst s" "snd s"] by simp
next
  assume r: "l = fst s @ CHR '':'' # snd s \<and> CHR '':'' \<notin> set (fst s) \<and> fst s \<noteq> [] \<and>
     length (fst s) < 127 \<and> length (snd s) < 15"
  then have "\<forall>x\<in>set (fst s). x \<noteq> CHR '':''" by auto
  then have "takeWhile (\<lambda>x. x \<noteq> CHR '':'') l = fst s" "dropWhile (\<lambda>x. x \<noteq> CHR '':'') l = CHR '':'' # snd s"
    using r by (simp_all add: takeWhile_append2 dropWhile_append2)
  then show "server_line l = Some s" using r
    by (cases s) (simp add: server_line_def cut_at_def from_char_def)
qed

lemma announces_iff: "announces l s \<longleftrightarrow> \<not> comment_line l \<and> \<not> keyword_line l \<and> server_line l = Some s"
  unfolding announces_def server_line_iff not_keyword by (auto simp: comment_line_def)

lemma announced_servers:
  "list_all2 announces (filter (\<lambda>l. \<exists>s. announces l s) ls) (servers_of ls)"
proof (induction ls)
  case (Cons l ls)
  show ?case
  proof (cases "\<exists>s. announces l s")
    case True
    then obtain s where s: "announces l s" by blast
    then have "servers_of (l # ls) = s # servers_of ls"
      by (simp add: announces_iff servers_of_def List.map_filter_simps)
    then show ?thesis using s Cons True by (simp del: split_paired_Ex)
  next
    case False
    then have "servers_of (l # ls) = servers_of ls"
      by (auto simp: announces_iff servers_of_def List.map_filter_simps split: option.split)
    then show ?thesis using False Cons by simp
  qed
qed (simp add: servers_of_def List.map_filter_simps)

text \<open>
  C21: what a configuration file gives, when memory suffices: the servers that its lines announce, in
  their order, are the server list; the first eight of them are the peer pool; and their number is returned.
  All other lines announce nothing, among them a server without a colon and a port. (Lines are what
  \<open>fgets\<close> gives for a buffer of 256 bytes.)
\<close>

theorem load_server_config_exact:
  assumes "files (config_path (g_cli d)) = Some contents" "\<forall>k. mem k = (True, True)"
    "\<not> g_mutex d" "g_servers d = []" "g_peer_pool d = []"
  shows "\<exists>e ss. load_server_config files mem d = Inr (int (length ss), e) \<and>
    list_all2 announces (filter (\<lambda>l. \<exists>s. announces l s) (fgets_lines 255 contents)) ss \<and>
    g_servers e = map (\<lambda>(ip, port). \<lparr>srv_ip = ip, srv_port = port, srv_next_allowed_sync = 0\<rparr>) ss \<and>
    g_peer_pool e = take 8 (map (\<lambda>(ip, port). fresh_peer ip port) ss)"
proof -
  let ?ls = "fgets_lines 255 contents"
  have "map snd (zip (map mem [0..<length ?ls]) ?ls) = ?ls" by simp
  moreover have "\<forall>x\<in>set (zip (map mem [0..<length ?ls]) ?ls). fst x = (True, True)"
    using assms(2) by (auto dest: set_zip_leftD)
  ultimately obtain e where e: "load_server_config files mem d = Inr (int (length (g_servers e)), e)"
    "g_servers e = map server_entry (servers_of ?ls)"
    "g_peer_pool e = take 8 (map (\<lambda>(ip, port). fresh_peer ip port) (servers_of ?ls))"
    using server_config_lines_eq [OF assms(3), of "zip (map mem [0..<length ?ls]) ?ls"] assms
    by (auto simp: load_server_config_def Let_def)
  have "map server_entry ss = map (\<lambda>(ip, port). \<lparr>srv_ip = ip, srv_port = port, srv_next_allowed_sync = 0\<rparr>) ss" for ss
    by (simp add: split_def)
  then show ?thesis using e announced_servers [of ?ls]
    by (intro exI [of _ e] exI [of _ "servers_of ?ls"]) simp
qed

definition sample_config :: string where
  "sample_config = ''# servers'' @ newline @ ''192.0.2.1:123'' @ newline"

lemma sample_config_lines: "fgets_lines 255 sample_config = [''# servers'' @ newline, ''192.0.2.1:123'' @ newline]"
  by (simp add: sample_config_def newline_def fgets_lines.simps [of 255] fgets_chunk_def cstr_def cut_at_def)

lemma load_server_config_exact_witness:
  "\<exists>e. load_server_config (\<lambda>_. Some sample_config) (\<lambda>_. (True, True)) initial_daemon = Inr (1, e) \<and>
     g_servers e = [\<lparr>srv_ip = ''192.0.2.1'', srv_port = ''123'' @ newline, srv_next_allowed_sync = 0\<rparr>]"
proof -
  have d: "\<not> g_mutex initial_daemon" "g_servers initial_daemon = []" "g_peer_pool initial_daemon = []"
    by (simp_all add: initial_daemon_def)
  obtain e ss where e: "load_server_config (\<lambda>_. Some sample_config) (\<lambda>_. (True, True)) initial_daemon = Inr (int (length ss), e)"
    "list_all2 announces (filter (\<lambda>l. \<exists>s. announces l s) (fgets_lines 255 sample_config)) ss"
    "g_servers e = map (\<lambda>(ip, port). \<lparr>srv_ip = ip, srv_port = port, srv_next_allowed_sync = 0\<rparr>) ss"
    using load_server_config_exact [of "\<lambda>_. Some sample_config" _ sample_config "\<lambda>_. (True, True)", OF refl _ d] by blast
  have l: "\<not> announces (''# servers'' @ newline) s"
    "announces (''192.0.2.1:123'' @ newline) s \<longleftrightarrow> s = (''192.0.2.1'', ''123'' @ newline)" for s
    by (simp add: announces_iff comment_line_def)
      (auto simp add: announces_iff comment_line_def keyword_line_def strn_eq_def newline_def server_line_def
        from_char_def cut_at_def)
  have "ss = [(''192.0.2.1'', ''123'' @ newline)]"
    using e(2) by (auto simp: sample_config_lines l list_all2_Cons1 simp del: append.simps)
  then show ?thesis using e(1,3) by (simp del: append.simps)
qed

lemma server_line_fields_witness:
  "server_line ''2001:db8::1:123'' = Some (''2001'', ''db8::1:123'') \<and> CHR '':'' \<notin> set ''2001''"
proof -
  have "server_line ''2001:db8::1:123'' = Some (''2001'', ''db8::1:123'')"
    by (simp add: server_line_def cut_at_def from_char_def)
  with server_line_fields [OF this] show ?thesis by blast
qed

subsection \<open>The order of the start\<close>

lemma udp_socket_needs_bind:
  assumes "\<forall>fd. \<not> bind_ok fd (htons 123)"
  shows "fst (create_udp_socket sock_of inet_pton bind_ok cli 123) < 0"
  using assms by (auto simp: create_udp_socket_def network6_bind_socket_def network4_bind_socket_def Let_def
      split: prod.splits option.splits)

text \<open>
  The user is changed before port 123 is bound. So where that port needs privileges, a
  daemon that was given a user to run as, and changed to it, never gets as far as its main
  loop.
\<close>

theorem changed_user_cannot_start:
  assumes "drop_privileges M (g_cli d)" "\<forall>fd. \<not> mn_bind_ok M True fd (htons 123)"
  shows "\<not> returns (start_threads M d)"
proof -
  have stuck: "cleanup_resources x \<noteq> Inr y" for x y using cleanup_stuck [of x] by auto
  have c: "g_cli d' = g_cli d" if "start_clock_thread a b x y n d = (rc, d')" for a b x y n rc d'
    using that by (auto simp: start_clock_thread_def clock_thread_init_def Let_def split: if_splits)
  have s: "(case create_udp_socket (mn_sock_of M) (mn_inet_pton M) (mn_bind_ok M True) (g_cli d) 123 of
      (sock, x, y) \<Rightarrow> P sock) = P (fst (create_udp_socket (mn_sock_of M) (mn_inet_pton M) (mn_bind_ok M True) (g_cli d) 123))" for P
    by (simp add: split_def)
  show ?thesis
    using assms c udp_socket_needs_bind [of "mn_bind_ok M True" "mn_sock_of M" "mn_inet_pton M" "g_cli d"]
    by (auto simp: stuck start_threads_def returns_bindR s Let_def split: prod.splits if_splits)
qed

definition privileged_ports :: main_env where
  "privileged_ports =
     \<lparr>mn_files = (\<lambda>_. Some sample_config), mn_mem = (\<lambda>_. (True, True)), mn_res = None,
      mn_getpwnam = (\<lambda>_. Some (38, 38)), mn_priv_ok = (\<lambda>_. True), mn_strtod = (\<lambda>s. (Finite 0, False, s)),
      mn_inet_addr = (\<lambda>_. 0), mn_inet_pton = (\<lambda>_. None), mn_freq_file = None, mn_mutex_ok = (\<lambda>_. True),
      mn_cond_ok = True, mn_create_ok = (\<lambda>_. True), mn_detach_ok = (\<lambda>_. True), mn_sock_of = (\<lambda>_. 5),
      mn_bind_ok = (\<lambda>changed _ _. \<not> changed), mn_listen_ok = (\<lambda>_. True), mn_rounds = []\<rparr>"

lemma changed_user_cannot_start_witness:
  "\<not> returns (start_threads privileged_ports (initial_daemon\<lparr>g_cli := default_cli\<lparr>run_user := UserName ''ntp''\<rparr>\<rparr>)) \<and>
   returns (start_threads privileged_ports initial_daemon)"
proof -
  have "\<not> returns (start_threads privileged_ports (initial_daemon\<lparr>g_cli := default_cli\<lparr>run_user := UserName ''ntp''\<rparr>\<rparr>))"
    by (rule changed_user_cannot_start) (simp_all add: drop_privileges_def daemonizes_def default_cli_def
        apply_user_privileges_def privileged_ports_def)
  moreover have "returns (start_threads privileged_ports initial_daemon)"
    by (simp add: start_threads_def initial_daemon_def privileged_ports_def drop_privileges_def default_cli_def
        create_udp_socket_def network4_create_socket_def network4_bind_socket_def start_peer_thread_def
        peer_thread_init_def with_sock_mutex_def with_mutex_def zero_peer_ctx_def Let_def)
  ultimately show ?thesis by blast
qed

end
