(* ===== verification/System.thy ===== *)
theory System
  imports DaemonMain Ntpq
begin

section \<open>The running daemon\<close>

text \<open>
  After \<open>start_threads\<close> the main thread, the clock thread, the peer thread and the ntpq thread
  take steps in any order: a server's turn in a round of the main loop, a turn of the
  clock thread, a datagram in a peer thread, a line from an ntpq client. A step that
  gets stuck is no step. The state is the record \<open>daemon\<close> that they share. At the end, what a
  client and a server of this program learn from each other in one exchange.
\<close>

inductive daemon_step :: "fpu \<Rightarrow> daemon \<Rightarrow> daemon \<Rightarrow> bool" for F where
  main_turn: "i < length (g_servers d) \<Longrightarrow> sync_server F R i d = Inr (ok, e) \<Longrightarrow> daemon_step F d e"
| clock_begins: "g_servers d \<noteq> [] \<Longrightarrow> daemon_step F d (d\<lparr>g_clock_thread_running := True\<rparr>)"
| clock_goes_on: "g_clock_thread_running d \<Longrightarrow> clock_thread_turn T d = Inr (cont, e) \<Longrightarrow> daemon_step F d e"
| peer_datagram: "g_peer_threads_running d i \<Longrightarrow>
    handle_peer_request send_ok now buffer sz (int i) d = Inr (res, e) \<Longrightarrow> daemon_step F d e"
| ntpq_line: "handle_ntpq_request bytes d = Inr (reply, e) \<Longrightarrow> daemon_step F d e"

inductive_cases daemon_stepE [consumes 1, case_names main_turn clock_begins clock_goes_on peer_datagram ntpq_line]:
  "daemon_step F d e"

text \<open>The clock is never set, nothing is recorded, and the clock thread's mutex is gone.\<close>

definition timeless :: "daemon \<Rightarrow> bool" where
  "timeless d \<longleftrightarrow> clock_cmds d = [] \<and> g_last_sync_ts d = zero_ts \<and> \<not> g_time_synced d \<and> \<not> g_mutex d \<and>
     \<not> ck_mutex_ok (g_clock_ctx d)"

lemma correction_keeps_clock_ctx:
  assumes "apply_time_correction_slew_or_step kern ts off d = Inr (r, e)"
  shows "g_clock_ctx e = g_clock_ctx d"
proof -
  obtain p m where p: "on_mode (check_panic_condition off) d = Inr (p, d\<lparr>g_mode := m\<rparr>)"
    using assms by (auto simp: apply_time_correction_slew_or_step_def on_mode_def bindR_eq_Inr_iff)
  show ?thesis
    using assms
    by (auto simp: apply_time_correction_slew_or_step_def p bindR_eq_Inr_iff clock_command_def split_def Let_def
        split: if_splits option.splits)
qed

lemma broken_clock_turn:
  assumes "timeless d" "clock_thread_turn T d = Inr (cont, e)"
  shows "e = d"
proof (cases "tn_tv T")
  case None
  then show ?thesis using assms(2) by (simp add: clock_thread_turn_def)
next
  case (Some tv)
  have m: "with_g_mutex (\<lambda>d. Inr (g_last_sync_ts d, d)) d = Inr (g_last_sync_ts d, d)"
    using assms(1) by (simp add: with_g_mutex_free timeless_def)
  have "\<not> returns (clock_thread_turn T d)"
  proof (cases "clock_offset tv (g_last_sync_ts d)")
    case (Inr off)
    note o = this
    show ?thesis
    proof (cases "apply_time_correction_slew_or_step (tn_kern T) (tn_clk T) off d")
      case (Inr x)
      then obtain r d2 where x: "apply_time_correction_slew_or_step (tn_kern T) (tn_clk T) off d = Inr (r, d2)"
        by (cases x) simp
      then have "\<not> ck_mutex_ok (g_clock_ctx d2)" using correction_keeps_clock_ctx assms(1) by (simp add: timeless_def)
      then show ?thesis
        by (simp add: clock_thread_turn_def Some m o x update_system_clock_def with_clock_mutex_def)
    qed (simp add: clock_thread_turn_def Some m o)
  qed (simp add: clock_thread_turn_def Some m)
  then show ?thesis using assms(2) by simp
qed

text \<open>A datagram and an ntpq line change nothing that stays.\<close>

lemma peer_request_pure:
  assumes "handle_peer_request send_ok now buffer sz i d = Inr (res, e)"
  shows "e = d"
proof (cases "i < 0 \<or> MAX_PEERS \<le> i \<or> sz < sizeof_NtpPacket")
  case True
  then show ?thesis using assms by (auto simp: handle_peer_request_def split: if_splits)
next
  case False
  then obtain ok p g where p: "parse_ntp_packet (Some buffer) sz (Some zero_packet) (g_ido_state d) = Inr (ok, p, g)"
    using assms by (auto simp: handle_peer_request_def bindR_eq_Inr_iff)
  have g: "d\<lparr>g_ido_state := g\<rparr> = d" using ido_untouched [OF p] by simp
  have c: "(g_peer_ctx d)(nat i := (g_peer_ctx d (nat i))\<lparr>px_mutex := False\<rparr>) = g_peer_ctx d"
    if "\<not> px_mutex (g_peer_ctx d (nat i))"
  proof -
    have "(g_peer_ctx d (nat i))\<lparr>px_mutex := False\<rparr> = g_peer_ctx d (nat i)" using that by simp
    then show ?thesis by (simp only: fun_upd_triv)
  qed
  show ?thesis
    using assms False p g c
    by (cases d) (auto simp: handle_peer_request_def with_sock_mutex_def with_mutex_def bindR_eq_Inr_iff Let_def
        split: if_splits)
qed

lemma ntpq_pure:
  assumes "handle_ntpq_request bytes d = Inr (reply, e)"
  shows "e = d"
proof -
  have same: "d\<lparr>g_mutex := False\<rparr> = d" if "\<not> g_mutex d" using that by simp
  have clock: "x = d'" if "clock_thread_get_last_offset d' = Inr (r, x) \<or> clock_thread_get_last_correction d' = Inr (r, x)" for r x d'
    using that by (auto simp: clock_thread_get_last_offset_def clock_thread_get_last_correction_def
        with_clock_mutex_def split: if_splits)
  have "x = d" if "ntpq_sysinfo d = Inr (r, x)" for r x
    using that same
    by (auto simp: ntpq_sysinfo_def with_g_mutex_def with_mutex_def bindR_eq_Inr_iff split: if_splits
        dest!: clock [OF disjI1] clock [OF disjI2])
  moreover have "x = d" if "ntpq_response l d = Inr (r, x)" for l r x
    using that same calculation
    by (auto simp: ntpq_response_def with_g_mutex_def with_mutex_def split: if_splits)
  ultimately show ?thesis
    using assms by (auto simp: handle_ntpq_request_def bindR_eq_Inr_iff split: option.splits if_splits)
qed

text \<open>
  What a property of the daemon has to survive to hold in every reachable state: the laws of the main
  loop, and the clock thread.
\<close>

locale daemon_frame = round_frame I for I :: "daemon \<Rightarrow> bool" +
  assumes keeps_clock_begin: "I d \<Longrightarrow> I (d\<lparr>g_clock_thread_running := True\<rparr>)"
    and keeps_clock_turn: "I d \<Longrightarrow> clock_thread_turn T d = Inr (cont, e) \<Longrightarrow> I e"
begin

lemma step_keeps:
  assumes "daemon_step F d e" "I d"
  shows "I e"
  using assms(1)
proof (cases rule: daemon_stepE)
  case (main_turn i R ok)
  then show ?thesis using sync_server_keeps [OF assms(2) main_turn(2,1)] by simp
next
  case clock_begins
  then show ?thesis using keeps_clock_begin [OF assms(2)] by simp
next
  case (clock_goes_on T cont)
  then show ?thesis using keeps_clock_turn [OF assms(2)] by simp
next
  case (peer_datagram i send_ok now buffer sz res)
  then show ?thesis using peer_request_pure assms(2) by blast
next
  case (ntpq_line bytes reply)
  then show ?thesis using ntpq_pure assms(2) by blast
qed

lemma reachable:
  assumes "(daemon_step F)\<^sup>*\<^sup>* d e" "I d"
  shows "I e"
  using assms by (induction rule: rtranclp_induct) (auto intro: step_keeps)

end

interpretation tl: daemon_frame timeless
proof (unfold_locales, goal_cases)
  case (4 d clk now dir r d')
  then show ?case using schedule_frame [OF 4(2)] by (auto simp: timeless_def)
next
  case (5 d t dl off u d')
  then show ?case using marx_add_frame [OF 5(2)] by (auto simp: timeless_def)
next
  case (6 d c k r d')
  then show ?case using marx_filter_frame [OF 6(2)] by (auto simp: timeless_def)
next
  case (7 d b r d')
  then show ?case using lose_sync_quiet [of b d r d'] by (auto simp: timeless_def quiet_def)
next
  case (11 d T cont e)
  then show ?case using broken_clock_turn by blast
qed (simp_all add: timeless_def set_next_allowed_def)

text \<open>What \<open>start_threads\<close> leaves, with servers to synchronise with.\<close>

lemma started_timeless:
  assumes "start_threads M d = Inr (None, e)" "g_servers d \<noteq> []"
    "clock_cmds d = []" "g_last_sync_ts d = zero_ts" "\<not> g_time_synced d" "\<not> g_mutex d"
  shows "timeless e"
proof -
  have stuck: "cleanup_resources x \<noteq> Inr y" for x y using cleanup_stuck [of x] by auto
  have c: "\<exists>x. d' = d\<lparr>g_clock_ctx := x\<rparr> \<and> \<not> ck_mutex_ok x" if "start_clock_thread a b x y n d = (rc, d')" for a b x y n rc d'
    using that clock_thread_init_breaks_mutex [of a b n d]
    by (auto simp: start_clock_thread_def split: prod.splits if_splits)
  have p: "timeless d' = timeless d2" if "start_peer_thread a b x s ip port i d2 = Inr (rc, d')" for a b x s ip port i d2 rc d'
    using that by (auto simp: start_peer_thread_def peer_thread_init_def with_sock_mutex_def with_mutex_def
        timeless_def Let_def bindR_eq_Inr_iff split: if_splits)
  show ?thesis
    using assms
    by (auto simp: start_threads_def Let_def bindR_eq_Inr_iff stuck split: prod.splits if_splits
        dest!: c p) (auto simp: timeless_def)
qed

lemma sample_start:
  "\<exists>s. start_threads privileged_ports one_server = Inr (None, s) \<and> g_servers s = g_servers one_server \<and>
     g_sync_sock s = - 1 \<and> family_preference (g_cli s) = 0 \<and> g_sample_count s = 0"
  by (simp add: start_threads_def one_server_def initial_daemon_def privileged_ports_def drop_privileges_def
      default_cli_def start_clock_thread_def clock_thread_init_def create_udp_socket_def
      network4_create_socket_def network4_bind_socket_def start_peer_thread_def peer_thread_init_def
      with_sock_mutex_def with_mutex_def zero_peer_ctx_def Let_def)

subsection \<open>What a client learns from a server\<close>

definition in_era :: "timespec \<Rightarrow> bool" where
  "in_era ts \<longleftrightarrow> 0 \<le> tv_nsec ts \<and> tv_nsec ts < 1000000000 \<and> - 2208988800 \<le> tv_sec ts \<and> tv_sec ts \<le> 2085978495"

lemma fraction_round_trip:
  fixes n :: int
  assumes "0 \<le> n"
  shows "n - 1 \<le> n * 2 ^ 32 div 1000000000 * 1000000000 div 2 ^ 32" "n * 2 ^ 32 div 1000000000 * 1000000000 div 2 ^ 32 \<le> n"
proof -
  obtain q r where q: "n * 2 ^ 32 = q * 1000000000 + r" "0 \<le> r" "r < 1000000000" "n * 2 ^ 32 div 1000000000 = q"
    using div_mult_mod_eq [of "n * 2 ^ 32" 1000000000, symmetric] pos_mod_sign [of 1000000000 "n * 2 ^ 32"]
      pos_mod_bound [of 1000000000 "n * 2 ^ 32"] by auto
  obtain u v where u: "q * 1000000000 = u * 2 ^ 32 + v" "0 \<le> v" "v < 2 ^ 32" "q * 1000000000 div 2 ^ 32 = u"
    using div_mult_mod_eq [of "q * 1000000000" "2 ^ 32", symmetric] pos_mod_sign [of "2 ^ 32" "q * 1000000000"]
      pos_mod_bound [of "2 ^ 32" "q * 1000000000"] by auto
  show "n - 1 \<le> n * 2 ^ 32 div 1000000000 * 1000000000 div 2 ^ 32" "n * 2 ^ 32 div 1000000000 * 1000000000 div 2 ^ 32 \<le> n"
    using q u by auto
qed

lemma clock_reading_ns:
  assumes "in_era ts"
  shows "ns_of ts - 1 \<le> ts_ns (ntp_timestamp_now (Some ts))" "ts_ns (ntp_timestamp_now (Some ts)) \<le> ns_of ts"
  using assms ntp_timestamp_now_exact [of ts] fraction_round_trip [of "tv_nsec ts"]
  by (simp_all add: in_era_def ts_ns_def ns_of_def)

text \<open>
  C1: what NTP is for. A server whose clock is ahead of the client's by \<open>theta\<close> nanoseconds
  answers the client's request; the request takes \<open>d1\<close>, the server \<open>p\<close> and the reply \<open>d2\<close>
  nanoseconds. From the bytes of the reply and its own clock the client computes the round trip to
  within two microseconds, and \<open>theta\<close> to within half the asymmetry of the path and two microseconds.
\<close>

theorem client_measures_server:
  assumes "unlocked d" "fpu_ok F" "g_mode_config (g_mode d) = default_mode_config"
    and "length cbuf = 48" "create_ntp_request (Some cbuf) poll precision (Some c1) = Inr (Some req, Some ts1)"
    and "rq = \<lparr>rq_buffer = Some req, rq_size = 48, rq_ip = ip, rq_port = port\<rparr>" "ip \<noteq> []" "port \<noteq> []"
    and "strtoul port = (pn, False, [])" "pn \<le> 65535"
    and "ne_inet_pton E ip = Some a" "0 \<le> ne_sock E AF_INET" "ne_send_ok E"
    and "served E now ip NTP_MODE_CLIENT (g_mode d)"
    and "\<not> ntp_is_kod (Some s0)" "\<not> ntp_is_kod (Some c0)"
    and "in_era c1" "in_era s2" "in_era s3" "in_era c4"
    and "ns_of s2 = ns_of c1 + d1 + theta" "ns_of s3 = ns_of s2 + p" "ns_of c4 = ns_of s3 + d2 - theta"
    and "2 \<le> d1 + d2"
  shows "\<exists>resp out d' ok reply delay_us offset_us.
    handle_peer_request_thread F E now clk (Some s2) (Some s3) s0 rq d = Inr (out, d') \<and>
    out_reply out = Some (\<lparr>sin_port = htons (word_of_int pn), sin_addr = a\<rparr>, resp) \<and>
    parse_ntp_packet (Some resp) 48 (Some c0) g = Inr (ok, Some reply, g) \<and>
    calculate_delay_offset (Some ts1) (Some (pkt_recv_ts reply)) (Some (pkt_xmit_ts reply))
      (Some (ntp_timestamp_now (Some c4))) = Inr (Some (delay_us, offset_us)) \<and>
    \<bar>1000 * uint delay_us - (d1 + d2)\<bar> \<le> 2000 \<and>
    \<bar>1000 * offset_us - theta\<bar> \<le> \<bar>d1 - d2\<bar> div 2 + 2000"
proof -
  obtain resp reply where e:
    "handle_peer_request_thread F E now clk (Some s2) (Some s3) s0 rq d =
      Inr (\<lparr>out_reply = Some (\<lparr>sin_port = htons (word_of_int pn), sin_addr = a\<rparr>, resp),
            out_broadcast = None, out_freed = True\<rparr>,
           d\<lparr>g_mode := rate_limit_update (ne_inet_addr E) now (Some ip) (g_mode d)\<rparr>)"
    "parse_ntp_packet (Some resp) 48 (Some c0) g =
      Inr (\<not> g_time_synced d \<or> g_local_stratum d \<le> 16, Some reply, g)"
    "ts1 = ntp_timestamp_now (Some c1)" "pkt_recv_ts reply = ntp_timestamp_now (Some s2)"
    "pkt_xmit_ts reply = ntp_timestamp_now (Some s3)"
    using exchange_ok [OF assms(1-16), of clk "Some s2" "Some s3" g] by blast
  let ?n = "\<lambda>ts. ts_ns (ntp_timestamp_now (Some ts))"
  obtain n1 n2 n3 n4 where n: "?n c1 = n1" "?n s2 = n2" "?n s3 = n3" "?n c4 = n4" by blast
  have b: "ns_of c1 - 1 \<le> n1" "n1 \<le> ns_of c1" "ns_of s2 - 1 \<le> n2" "n2 \<le> ns_of s2"
    "ns_of s3 - 1 \<le> n3" "n3 \<le> ns_of s3" "ns_of c4 - 1 \<le> n4" "n4 \<le> ns_of c4"
    using clock_reading_ns assms(17-20) by (simp_all flip: n)
  have "0 \<le> (n2 - n1 - theta) + (n4 - n3 + theta)" using b assms(21-24) by linarith
  then obtain delay_us offset_us where m:
    "calculate_delay_offset (Some ts1) (Some (pkt_recv_ts reply)) (Some (pkt_xmit_ts reply))
      (Some (ntp_timestamp_now (Some c4))) = Inr (Some (delay_us, offset_us))"
    "uint delay_us = ((n2 - n1 - theta) + (n4 - n3 + theta)) div 1000"
    "\<bar>1000 * offset_us - theta\<bar> \<le> \<bar>(n2 - n1 - theta) - (n4 - n3 + theta)\<bar> div 2 + 1000"
    using measures_ok [of "ntp_timestamp_now (Some s2)" ts1 "n2 - n1 - theta" theta "ntp_timestamp_now (Some s3)"
        "n3 - n2" "ntp_timestamp_now (Some c4)" "n4 - n3 + theta"] n e(3-5) by auto
  have "\<bar>1000 * uint delay_us - (d1 + d2)\<bar> \<le> 2000"
    using m(2) b assms(21-24) by linarith
  moreover have "\<bar>1000 * offset_us - theta\<bar> \<le> \<bar>d1 - d2\<bar> div 2 + 2000"
    using m(3) b assms(21-24) by linarith
  ultimately show ?thesis using e(1,2) m(1) by auto
qed

lemma client_measures_server_witness:
  "\<exists>ts1 (reply :: NtpPacket) delay_us offset_us.
    calculate_delay_offset (Some ts1) (Some (pkt_recv_ts reply)) (Some (pkt_xmit_ts reply))
      (Some (ntp_timestamp_now (Some \<lparr>tv_sec = 1700000002, tv_nsec = 0\<rparr>))) = Inr (Some (delay_us, offset_us)) \<and>
    \<bar>1000 * uint delay_us - 2000000000\<bar> \<le> 2000 \<and> \<bar>1000 * offset_us - 2000000000\<bar> \<le> 2000"
proof -
  let ?c1 = "\<lparr>tv_sec = 1700000000, tv_nsec = 0\<rparr>" and ?s = "\<lparr>tv_sec = 1700000003, tv_nsec = 0\<rparr>"
    and ?c4 = "\<lparr>tv_sec = 1700000002, tv_nsec = 0\<rparr>"
  have "\<exists>req ts1. create_ntp_request (Some (replicate 48 0)) 6 0xEC (Some ?c1) = Inr (Some req, Some ts1)"
    by (subst create_ntp_request_eq) simp_all
  then obtain req ts1 where req: "create_ntp_request (Some (replicate 48 0)) 6 0xEC (Some ?c1) = Inr (Some req, Some ts1)"
    by (elim exE)
  define rq where "rq = \<lparr>rq_buffer = Some req, rq_size = 48, rq_ip = ''192.168.1.23'', rq_port = ''5000''\<rparr>"
  have e: "ne_inet_pton lan_env ''192.168.1.23'' = Some (toy_inet ''192.168.1.23'')"
    "0 \<le> ne_sock lan_env AF_INET" "ne_send_ok lan_env"
    by (simp_all only: lan_env_def net_env.simps)
  have l: "''192.168.1.23'' \<noteq> []" "''5000'' \<noteq> []" "(5000 :: int) \<le> 65535" "length (replicate 48 0 :: u8 list) = 48"
    by simp_all
  have t: "in_era ?c1" "in_era ?s" "in_era ?s" "in_era ?c4" "ns_of ?s = ns_of ?c1 + 1000000000 + 2000000000"
    "ns_of ?s = ns_of ?s + 0" "ns_of ?c4 = ns_of ?s + 1000000000 - 2000000000" "(2 :: int) \<le> 1000000000 + 1000000000"
    by (simp_all add: in_era_def ns_of_def)
  note x = client_measures_server [OF served_daemon_props(1) exact_fpu_ok served_daemon_props(2) l(4) req
      rq_def l(1,2) port_5000 l(3) e lan_client_served zero_packet_not_kod zero_packet_not_kod t, of None ido_zero]
  then obtain reply :: NtpPacket and delay_us offset_us where
    "calculate_delay_offset (Some ts1) (Some (pkt_recv_ts reply)) (Some (pkt_xmit_ts reply))
      (Some (ntp_timestamp_now (Some ?c4))) = Inr (Some (delay_us, offset_us))"
    "\<bar>1000 * uint delay_us - (1000000000 + 1000000000)\<bar> \<le> 2000"
    "\<bar>1000 * offset_us - 2000000000\<bar> \<le> \<bar>1000000000 - 1000000000\<bar> div 2 + 2000" by blast
  then show ?thesis by (intro exI [of _ ts1] exI [of _ reply] exI [of _ delay_us] exI [of _ offset_us]) simp
qed

end
