(* ===== verification/Usable.thy ===== *)
theory Usable
  imports Sync
begin

section \<open>What a reply does to the main thread (time_sync.c)\<close>

text \<open>
  \<open>sync_ntp_time\<close> on a state in which nothing has been measured yet, decided completely: which exchanges
  return, and which do not. A reply is usable if it passes every check that the code makes; those are
  the replies that run into the unlocking of a mutex that is not held.
\<close>

subsection \<open>Usable replies\<close>

text \<open>
  The reply that \<open>sync_ntp_time\<close> has in its buffer at the end of the exchange, if it gets
  that far, and what has to be true of it to be used for the clock.
\<close>

definition reply_over :: "sync_env \<Rightarrow> string \<Rightarrow> string \<Rightarrow> int \<Rightarrow> u8 list option" where
  "reply_over E ip port sock =
     (case strtoll port of (n, range_error, _) \<Rightarrow>
        if 0 \<le> sock \<and> 1 \<le> n \<and> n \<le> 65535 \<and> \<not> range_error \<and> \<not> sy_errno E \<and> sy_resolve E ip \<noteq> None \<and>
           sy_timeout_ok E \<and> sy_send_ok E
        then map_option (take 1024) (sy_received E) else None)"

definition sock_of :: "sync_env \<Rightarrow> daemon \<Rightarrow> int \<times> int" where
  "sock_of E d = get_sync_socket (sy_sock E) (g_cli d) (g_sync_sock d)"

abbreviation reply_to :: "sync_env \<Rightarrow> string \<Rightarrow> string \<Rightarrow> daemon \<Rightarrow> u8 list option" where
  "reply_to E ip port d \<equiv> reply_over E ip port (fst (sock_of E d))"

definition reply_header :: "sync_env \<Rightarrow> u8 list \<Rightarrow> NtpPacket" where
  "reply_header E bs = hdr_dec (bs @ map (sy_stale E) [length bs..<1024]) (sy_pkt0 E)"

definition usable :: "sync_env \<Rightarrow> NtpTimestamp \<Rightarrow> u8 list \<Rightarrow> bool" where
  "usable E t1 bs =
     (let p = reply_header E bs; b = pkt_li_vn_mode p
      in 48 \<le> length bs \<and> \<not> ntp_is_kod (Some (sy_pkt0 E)) \<and>
         version_of b = NTP_VN_4 \<and> mode_of b = NTP_MODE_SERVER \<and> leap_of b \<noteq> 3 \<and>
         pkt_orig_ts p = t1 \<and> pkt_xmit_ts p \<noteq> zero_ts \<and> 1 \<le> pkt_stratum p \<and> pkt_stratum p \<le> 15 \<and>
         sy_tv E \<noteq> None \<and>
         (case calculate_delay_offset (Some t1) (Some (pkt_recv_ts p)) (Some (pkt_xmit_ts p))
                 (Some (ntp_timestamp_now (sy_t4 E))) of
            Inr (Some (delay, off)) \<Rightarrow> \<bar>off\<bar> \<le> MAXDIST \<and> delay \<le> 10000000
          | _ \<Rightarrow> False))"

definition usable_over :: "sync_env \<Rightarrow> string \<Rightarrow> string \<Rightarrow> int \<Rightarrow> bool" where
  "usable_over E ip port sock \<longleftrightarrow>
     (case reply_over E ip port sock of
        None \<Rightarrow> False | Some bs \<Rightarrow> usable E (ntp_timestamp_now (sy_t1 E)) bs)"

definition gets_usable :: "sync_env \<Rightarrow> string \<Rightarrow> string \<Rightarrow> daemon \<Rightarrow> bool" where
  "gets_usable E ip port d \<longleftrightarrow> usable_over E ip port (fst (sock_of E d))"

text \<open>Nothing has been measured yet, and no mutex is held.\<close>

definition unmeasured :: "daemon \<Rightarrow> bool" where
  "unmeasured d \<longleftrightarrow> unlocked d \<and> g_sample_count d = 0"

lemma unmeasured_updates:
  "unmeasured d \<Longrightarrow> unmeasured (d\<lparr>g_leap := l\<rparr>)" "unmeasured d \<Longrightarrow> unmeasured (d\<lparr>g_sync_sock := k\<rparr>)"
  "unmeasured d \<Longrightarrow> unmeasured (d\<lparr>g_peer_pool := ps\<rparr>)"
  by (simp_all add: unmeasured_def unlocked_def)

lemma schedule_returns:
  assumes "unmeasured d"
  shows "\<exists>r l. leap_second_schedule_event clk now dir d = Inr (r, d\<lparr>g_leap := l\<rparr>)"
proof -
  have "\<exists>r e. leap_second_schedule_event clk now dir d = Inr (r, e)"
    using assms by (simp add: leap_second_schedule_event_def with_g_leap_mutex_free unmeasured_def unlocked_def Let_def)
  then show ?thesis using schedule_frame by blast
qed

lemma leap_indicator_returns:
  assumes "unmeasured d"
  shows "\<exists>l. handle_leap_indicator clk now (leap_of b) d = Inr (leap_of b = 3, d\<lparr>g_leap := l\<rparr>)"
proof -
  have li: "leap_of b = 0 \<or> leap_of b = 1 \<or> leap_of b = 2 \<or> leap_of b = 3"
    using leap_of_le [of b] by (simp add: word_le_nat_alt word_unat_eq_iff) arith
  have same: "d\<lparr>g_leap := g_leap d\<rparr> = d" by simp
  obtain r1 l1 r2 l2 where "leap_second_schedule_event clk now LEAP_SECOND_DIR_POSITIVE d = Inr (r1, d\<lparr>g_leap := l1\<rparr>)"
    "leap_second_schedule_event clk now LEAP_SECOND_DIR_NEGATIVE d = Inr (r2, d\<lparr>g_leap := l2\<rparr>)"
    using schedule_returns [OF assms] by blast
  then show ?thesis using li same by (auto simp: handle_leap_indicator_def intro: exI [of _ "g_leap d"])
qed

lemma lose_sync_unmeasured:
  assumes "unmeasured d"
  shows "\<exists>e. lose_sync b d = Inr (- 1, e) \<and> unmeasured e \<and> g_sync_sock e = g_sync_sock d"
  using assms by (auto simp: lose_sync_def with_g_mutex_def with_mutex_def unmeasured_def unlocked_def)

lemma sync_measure_unmeasured:
  assumes "unmeasured d"
  shows "if sy_tv E \<noteq> None \<and> 1 \<le> pkt_stratum pkt \<and> pkt_stratum pkt \<le> 15 \<and> \<bar>off\<bar> \<le> MAXDIST \<and> delay \<le> 10000000
    then sync_measure F E ip t4 li pkt delay off d = Inl Undefined
    else in_i64 \<bar>off\<bar> \<longrightarrow> (\<exists>e. sync_measure F E ip t4 li pkt delay off d = Inr (- 1, e) \<and>
      unmeasured e \<and> g_sync_sock e = g_sync_sock d)"
proof (cases "sy_tv E \<noteq> None \<and> 1 \<le> pkt_stratum pkt \<and> pkt_stratum pkt \<le> 15 \<and> \<bar>off\<bar> \<le> MAXDIST \<and> delay \<le> 10000000")
  case True
  then show ?thesis
    using sync_measure_good [of d pkt off delay E F ip t4 li] assms by (simp add: unmeasured_def)
next
  case False
  have z: "pkt_stratum pkt = 0 \<longleftrightarrow> \<not> 1 \<le> pkt_stratum pkt"
    by (simp add: word_le_nat_alt word_unat_eq_iff) arith
  obtain e1 e2 where l: "lose_sync True d = Inr (- 1, e1)" "lose_sync False d = Inr (- 1, e2)"
    and um: "unmeasured e1" "unmeasured e2" "g_sync_sock e1 = g_sync_sock d" "g_sync_sock e2 = g_sync_sock d"
    using lose_sync_unmeasured [OF assms] by blast
  have none: "marx_filter_outliers (int (g_sample_count d)) 3 d = Inr (0, d)"
    using assms by (simp add: unmeasured_def marx_filter_outliers_def)
  have "sync_measure F E ip t4 li pkt delay off d \<in> {Inr (- 1, e1), Inr (- 1, e2)}" if "in_i64 \<bar>off\<bar>"
  proof -
    consider "pkt_stratum pkt = 0 \<or> 15 < pkt_stratum pkt"
      | "\<not> (pkt_stratum pkt = 0 \<or> 15 < pkt_stratum pkt)" "MAXDIST < \<bar>off\<bar>"
      | "\<not> (pkt_stratum pkt = 0 \<or> 15 < pkt_stratum pkt)" "\<not> MAXDIST < \<bar>off\<bar>" "10000000 < delay"
      | "\<not> (pkt_stratum pkt = 0 \<or> 15 < pkt_stratum pkt)" "\<not> MAXDIST < \<bar>off\<bar>" "\<not> 10000000 < delay" "sy_tv E = None"
      using False z by (meson linorder_not_le)
    then show ?thesis by cases (simp_all add: sync_measure_code that l none one_offset)
  qed
  with False um show ?thesis by (auto simp only: if_False)
qed

lemma measured_offset_in_range:
  assumes "calculate_delay_offset (Some t1) (Some t2) (Some t3) (Some t4) = Inr (Some (delay, off))"
  shows "in_i64 \<bar>off\<bar>"
proof -
  define s where "s = (ts_ns t2 - ts_ns t1) + (ts_ns t3 - ts_ns t4)"
  have "\<bar>s\<bar> \<le> 2 ^ 63 - 1"
    using ts_ns_bounds [of t1] ts_ns_bounds [of t2] ts_ns_bounds [of t3] ts_ns_bounds [of t4]
    by (simp add: s_def)
  moreover have "off = (s sdiv 2) sdiv 1000"
    using assms by (auto simp: delay_offset_eq s_def Let_def split: if_splits)
  moreover have "\<bar>s sdiv 2\<bar> \<le> \<bar>s\<bar>" "\<bar>(s sdiv 2) sdiv 1000\<bar> \<le> \<bar>s sdiv 2\<bar>"
    by (simp_all add: abs_sdiv_le)
  ultimately show ?thesis by (simp add: in_i64_def)
qed

lemma mac_read_fields:
  "pkt_li_vn_mode (mac_read data sz p) = pkt_li_vn_mode p" "pkt_stratum (mac_read data sz p) = pkt_stratum p"
  "pkt_orig_ts (mac_read data sz p) = pkt_orig_ts p" "pkt_recv_ts (mac_read data sz p) = pkt_recv_ts p"
  "pkt_xmit_ts (mac_read data sz p) = pkt_xmit_ts p"
  by (simp_all add: mac_read_def)

text \<open>The parser takes the reply, or the client gives up on it.\<close>

definition taken :: "sync_env \<Rightarrow> u8 list \<Rightarrow> bool" where
  "taken E bs \<longleftrightarrow> 48 \<le> length bs \<and> \<not> ntp_is_kod (Some (sy_pkt0 E)) \<and> accepted (reply_header E bs)"

lemma usable_taken:
  assumes "usable E t1 bs"
  shows "taken E bs"
proof -
  have "pkt_stratum (reply_header E bs) \<le> 15" using assms by (simp add: usable_def Let_def)
  then have "pkt_stratum (reply_header E bs) \<le> 16" by (rule order_trans) simp
  with assms show ?thesis by (simp add: usable_def taken_def accepted_def Let_def)
qed

lemma sync_reply_not_taken:
  assumes "length bs \<le> 1024" "\<not> taken E bs"
  shows "sync_reply F E ip t1 bs d = Inr (- 1, d)"
proof -
  let ?buf = "bs @ map (sy_stale E) [length bs..<1024]"
  have "\<exists>x. parse_ntp_packet (Some ?buf) (length bs) (Some (sy_pkt0 E)) (g_ido_state d) =
      Inr (False, x, g_ido_state d)"
    using assms by (auto simp: parse_ntp_packet_eq taken_def reply_header_def)
  moreover have "d\<lparr>g_ido_state := g_ido_state d\<rparr> = d" by simp
  ultimately show ?thesis by (auto simp: sync_reply_code Let_def fail_sync_def)
qed

lemma sync_reply_taken:
  assumes "unmeasured d" "length bs \<le> 1024" "taken E bs"
  shows "\<exists>l q. pkt_stratum q = pkt_stratum (reply_header E bs) \<and>
    (let p = reply_header E bs; b = pkt_li_vn_mode p; d1 = d\<lparr>g_leap := l\<rparr>
     in sync_reply F E ip t1 bs d =
       (if leap_of b = 3 \<or> mode_of b \<noteq> 4 \<or> pkt_orig_ts p \<noteq> t1 \<or> pkt_xmit_ts p = zero_ts then fail_sync d1
        else bindR (calculate_delay_offset (Some t1) (Some (pkt_recv_ts p)) (Some (pkt_xmit_ts p))
                      (Some (ntp_timestamp_now (sy_t4 E))))
          (\<lambda>m. case m of None \<Rightarrow> fail_sync d1
               | Some (delay_us, offset_us) \<Rightarrow>
                   sync_measure F E ip (ntp_timestamp_now (sy_t4 E)) (leap_of b) q delay_us offset_us d1)))"
proof -
  define p where "p = reply_header E bs"
  define buf where "buf = bs @ map (sy_stale E) [length bs..<1024]"
  define q where "q = mac_read buf (length bs) p"
  have q: "pkt_li_vn_mode q = pkt_li_vn_mode p" "pkt_stratum q = pkt_stratum p" "pkt_orig_ts q = pkt_orig_ts p"
    "pkt_recv_ts q = pkt_recv_ts p" "pkt_xmit_ts q = pkt_xmit_ts p"
    by (simp_all add: q_def mac_read_fields)
  have parse: "parse_ntp_packet (Some buf) (length bs) (Some (sy_pkt0 E)) (g_ido_state d) =
      Inr (True, Some q, g_ido_state d)"
    using assms(2,3) by (simp add: parse_ntp_packet_eq p_def q_def buf_def taken_def reply_header_def)
  have same: "d\<lparr>g_ido_state := g_ido_state d\<rparr> = d" by simp
  obtain l where "handle_leap_indicator (sy_clk E) (sy_now E) (leap_of (pkt_li_vn_mode p)) d =
      Inr (leap_of (pkt_li_vn_mode p) = 3, d\<lparr>g_leap := l\<rparr>)"
    using leap_indicator_returns [OF assms(1)] by blast
  then show ?thesis
    using parsed_not_kod [OF parse] q unfolding p_def [symmetric] Let_def
    by (intro exI [of _ l] exI [of _ q]) (simp add: sync_reply_code Let_def buf_def [symmetric] parse same)
qed

lemma sync_reply_unmeasured:
  assumes "unmeasured d" "length bs \<le> 1024"
  shows "if usable E t1 bs then sync_reply F E ip t1 bs d = Inl Undefined
    else \<exists>e. sync_reply F E ip t1 bs d = Inr (- 1, e) \<and> unmeasured e \<and> g_sync_sock e = g_sync_sock d"
proof (cases "taken E bs")
  case False
  then show ?thesis using usable_taken sync_reply_not_taken [OF assms(2)] assms(1) by auto
next
  case True
  define p where "p = reply_header E bs"
  obtain m where m: "calculate_delay_offset (Some t1) (Some (pkt_recv_ts p)) (Some (pkt_xmit_ts p))
      (Some (ntp_timestamp_now (sy_t4 E))) = Inr m"
    using delay_offset_eq by (auto simp: Let_def)
  obtain l q where q: "pkt_stratum q = pkt_stratum p" and eq: "sync_reply F E ip t1 bs d =
     (if leap_of (pkt_li_vn_mode p) = 3 \<or> mode_of (pkt_li_vn_mode p) \<noteq> 4 \<or> pkt_orig_ts p \<noteq> t1 \<or>
         pkt_xmit_ts p = zero_ts then fail_sync (d\<lparr>g_leap := l\<rparr>)
      else (case m of None \<Rightarrow> fail_sync (d\<lparr>g_leap := l\<rparr>)
            | Some (delay_us, offset_us) \<Rightarrow> sync_measure F E ip (ntp_timestamp_now (sy_t4 E))
                (leap_of (pkt_li_vn_mode p)) q delay_us offset_us (d\<lparr>g_leap := l\<rparr>)))"
    using sync_reply_taken [OF assms True, of F ip t1] unfolding Let_def p_def [symmetric] m bindR_simps by blast
  note um = unmeasured_updates(1) [OF assms(1), of l]
  note u = usable_def [of E t1 bs, unfolded Let_def p_def [symmetric] m]
  show ?thesis
  proof (cases m)
    case (Some x)
    obtain delay off where x: "x = (delay, off)" by (cases x)
    have "in_i64 \<bar>off\<bar>" using measured_offset_in_range m Some x by blast
    then show ?thesis
      using sync_measure_unmeasured [OF um, of E q off delay F ip] True um m Some x
      by (auto simp: u eq q fail_sync_def taken_def accepted_def p_def split: if_splits)
  qed (use um in \<open>auto simp: u eq fail_sync_def\<close>)
qed

text \<open>An exchange with one server returns exactly if it gets no usable reply.\<close>

lemma sync_ntp_time_unmeasured:
  assumes "unmeasured d"
  shows "if gets_usable E ip port d then sync_ntp_time F E (Some ip) (Some port) d = Inl Undefined
    else \<exists>e. sync_ntp_time F E (Some ip) (Some port) d = Inr (- 1, e) \<and> unmeasured e \<and>
      g_sync_sock e = snd (sock_of E d)"
proof -
  obtain sock cached where s: "get_sync_socket (sy_sock E) (g_cli d) (g_sync_sock d) = (sock, cached)" by fastforce
  then have so: "sock_of E d = (sock, cached)" by (simp add: sock_of_def)
  obtain n r rest where p: "strtoll port = (n, r, rest)" by (cases "strtoll port")
  let ?d = "d\<lparr>g_sync_sock := cached\<rparr>"
  have um: "unmeasured ?d" by (rule unmeasured_updates(2) [OF assms])
  show ?thesis
  proof (cases "reply_to E ip port d")
    case None
    then have "sync_ntp_time F E (Some ip) (Some port) d = Inr (- 1, ?d)"
      by (auto simp: sync_ntp_time_code reply_over_def s so p Let_def fail_sync_def create_ntp_request_eq
          split: option.splits if_splits)
    then show ?thesis using um None by (simp add: gets_usable_def usable_over_def so)
  next
    case (Some bs)
    then obtain bytes a where r: "sy_received E = Some bytes" "bs = take 1024 bytes" "sy_resolve E ip = Some a"
      "0 \<le> sock" "\<not> (n < 1 \<or> 65535 < n \<or> r \<or> sy_errno E)" "sy_timeout_ok E" "sy_send_ok E"
      by (auto simp: reply_over_def so p split: if_splits)
    let ?d' = "?d\<lparr>g_peer_pool := mark_reachable ip port (sy_now E) (g_peer_pool ?d)\<rparr>"
    have eq: "sync_ntp_time F E (Some ip) (Some port) d =
        (if bs = [] then fail_sync ?d else sync_reply F E ip (ntp_timestamp_now (sy_t1 E)) bs ?d')"
      using r um
      by (auto simp: sync_ntp_time_code sync_reply_def s p Let_def create_ntp_request_eq with_g_mutex_def with_mutex_def
          unmeasured_def unlocked_def)
    have "unmeasured ?d'" by (rule unmeasured_updates(3) [OF um])
    from sync_reply_unmeasured [OF this, of bs E "ntp_timestamp_now (sy_t1 E)" F ip]
    show ?thesis
      using um r(2) Some unfolding eq gets_usable_def usable_over_def
      by (auto simp: fail_sync_def usable_def Let_def so split: if_splits)
  qed
qed

end
