(* ===== verification/Platform.thy ===== *)
theory Platform
  imports System Usable
begin

section \<open>The daemon on a real platform\<close>

text \<open>
  In \<open>System\<close> a step whose outcome is undefined is no step. Two of these outcomes have a known effect where
  the daemon runs: unlocking a mutex that nobody holds leaves it free, and locking one that has been
  destroyed lets the caller go on. With these, the main thread of a server's turn with a usable
  reply goes on after its unlocking, corrects the clock and then waits for \<open>g_mutex\<close>, which it holds
  itself, in the frequency discipline: it waits for good, and the other threads go on as far as
  they do not need that mutex. \<open>platform_step\<close> has that as a state.
\<close>

subsection \<open>The steps\<close>

text \<open>What the main thread does: it goes through its loop, or it waits for good.\<close>

datatype system = Going daemon | Waiting daemon

fun daemon_of :: "system \<Rightarrow> daemon" where
  "daemon_of (Going d) = d"
| "daemon_of (Waiting d) = d"

text \<open>
  From the unlocking on, which leaves a free mutex free: the clock is corrected, and the frequency
  discipline locks \<open>g_mutex\<close> and then waits for it, see \<open>waits_for_itself\<close>.
\<close>

definition wait_in_discipline :: "fpu \<Rightarrow> sync_env \<Rightarrow> string \<Rightarrow> sync_next" where
  "wait_in_discipline F E ip t4 li stratum valid_count delay_us offset_us d =
     bindR (sync_correct F E valid_count offset_us d) (\<lambda>d. Inr (1, d\<lparr>g_mutex := True\<rparr>))"

lemma waits_for_itself:
  assumes "1 \<le> valid" "sync_correct F E valid off d = Inr e"
  shows "sync_apply F E ip t4 li stratum valid delay off d = Inl Deadlock"
  using assms by (simp add: sync_apply_def frequency_discipline_deadlocks)

text \<open>A piece of code that locks the clock thread's mutex, on a platform where a destroyed one does no harm.\<close>

definition ignoring_destroyed :: "(daemon \<Rightarrow> ('a \<times> daemon) run) \<Rightarrow> daemon \<Rightarrow> ('a \<times> daemon) run" where
  "ignoring_destroyed f d =
     bindR (f (upd_clock (\<lambda>c. c\<lparr>ck_mutex_ok := True\<rparr>) d)) (\<lambda>(r, e).
       Inr (r, upd_clock (\<lambda>c. c\<lparr>ck_mutex_ok := ck_mutex_ok (g_clock_ctx d)\<rparr>) e))"

text \<open>The other threads; \<open>C\<close> says which turns of the clock thread there may be.\<close>

inductive background_step :: "(clock_turn \<Rightarrow> bool) \<Rightarrow> daemon \<Rightarrow> daemon \<Rightarrow> bool" for C where
  clock_begins: "g_servers d \<noteq> [] \<Longrightarrow> background_step C d (d\<lparr>g_clock_thread_running := True\<rparr>)"
| clock_goes_on: "g_clock_thread_running d \<Longrightarrow> C T \<Longrightarrow>
    ignoring_destroyed (clock_thread_turn T) d = Inr (cont, e) \<Longrightarrow> background_step C d e"
| peer_datagram: "g_peer_threads_running d i \<Longrightarrow>
    handle_peer_request send_ok now buffer sz (int i) d = Inr (res, e) \<Longrightarrow> background_step C d e"
| ntpq_line: "ignoring_destroyed (handle_ntpq_request bytes) d = Inr (reply, e) \<Longrightarrow> background_step C d e"

inductive platform_step :: "(clock_turn \<Rightarrow> bool) \<Rightarrow> fpu \<Rightarrow> system \<Rightarrow> system \<Rightarrow> bool" for C F where
  main_turn: "i < length (g_servers d) \<Longrightarrow> sync_server F R i d = Inr (ok, e) \<Longrightarrow>
    platform_step C F (Going d) (Going e)"
| main_waits: "i < length (g_servers d) \<Longrightarrow> asks R i d \<Longrightarrow>
    exchange_then (wait_in_discipline F (rd_sync R i)) (rd_sync R i)
      (Some (srv_ip (g_servers d ! i))) (Some (srv_port (g_servers d ! i))) d = Inr (1, e) \<Longrightarrow>
    platform_step C F (Going d) (Waiting e)"
| others_go_on: "background_step C d e \<Longrightarrow> platform_step C F (Going d) (Going e)"
| others_while_waiting: "background_step C d e \<Longrightarrow> platform_step C F (Waiting d) (Waiting e)"

inductive_cases background_stepE [consumes 1, case_names clock_begins clock_goes_on peer_datagram ntpq_line]:
  "background_step C d e"

inductive_cases platform_stepE [consumes 1, case_names main_turn main_waits others_go_on others_while_waiting]:
  "platform_step C F x y"

subsection \<open>No turn is lost\<close>

text \<open>Whatever holds between two steps of the main thread: see the locale \<open>round_frame\<close>.\<close>

context round_frame
begin

lemma every_turn_is_a_step:
  assumes "I d" "i < length (g_servers d)" "rd_now R i + 15 < 2 ^ 63"
  obtains (goes_on) ok e where "sync_server F R i d = Inr (ok, e)"
    | (waits) e where "asks R i d" "exchange_then (wait_in_discipline F (rd_sync R i)) (rd_sync R i)
        (Some (srv_ip (g_servers d ! i))) (Some (srv_port (g_servers d ! i))) d = Inr (1, e)"
    | (overflow) e where "\<And>N. exchange_then N (rd_sync R i)
        (Some (srv_ip (g_servers d ! i))) (Some (srv_port (g_servers d ! i))) d = Inl e"
    | (correction) valid off u e where "I u" "sync_correct F (rd_sync R i) valid off u = Inl e"
proof -
  let ?s = "g_servers d ! i" and ?now = "if rd_now R i < 0 then 0 else rd_now R i"
  let ?ex = "\<lambda>N. exchange_then N (rd_sync R i) (Some (srv_ip ?s)) (Some (srv_port ?s)) d"
  have now: "i64 (?now + 15) = Inr (?now + 15)" using assms(3) by (simp add: i64_def in_i64_def)
  show thesis
  proof (cases "srv_next_allowed_sync ?s \<noteq> 0 \<and> ?now < srv_next_allowed_sync ?s")
    case True
    then show thesis using goes_on [of False d] by (simp add: sync_server_code Let_def)
  next
    case False
    then have asked: "asks R i d" by (simp add: asks_def sync_server_with_def Let_def)
    from exchange_gets_to [OF assms(1), of "rd_sync R i" "Some (srv_ip ?s)" "Some (srv_port ?s)"]
    show thesis unfolding gets_to_def
    proof (elim disjE exE conjE)
      fix e assume "\<forall>N. ?ex N = Inl e"
      then show thesis using overflow by blast
    next
      fix e assume "\<forall>N. ?ex N = Inr (- 1, e)"
      then have "sync_ntp_time F (rd_sync R i) (Some (srv_ip ?s)) (Some (srv_port ?s)) d = Inr (- 1, e)"
        by (simp add: sync_ntp_time_def)
      with False now have "sync_server F R i d = Inr (False, set_next_allowed i (?now + 15) e)"
        unfolding sync_server_code Let_def by (simp only: if_False bindR_simps split_conv) simp
      then show thesis by (rule goes_on)
    next
      fix ip t4 li stratum valid delay off u
      assume n: "I u" "\<forall>N. ?ex N = N ip t4 li stratum valid delay off u"
      show thesis
      proof (cases "sync_correct F (rd_sync R i) valid off u")
        case (Inl e)
        then show thesis using correction n(1) by blast
      next
        case (Inr e)
        then show thesis using waits [OF asked, of "e\<lparr>g_mutex := True\<rparr>"] n(2) by (simp add: wait_in_discipline_def)
      qed
    qed
  qed
qed

end

subsection \<open>What the other threads leave alone\<close>

lemma destroyed_twice: "upd_clock (\<lambda>c. c\<lparr>ck_mutex_ok := ck_mutex_ok (g_clock_ctx d)\<rparr>) (upd_clock (\<lambda>c. c\<lparr>ck_mutex_ok := b\<rparr>) d) = d"
  by (cases d, cases "g_clock_ctx d") simp

lemma ignoring_pure:
  assumes "ignoring_destroyed f d = Inr (r, e)" "\<And>x r y. f x = Inr (r, y) \<Longrightarrow> y = x"
  shows "e = d"
proof -
  obtain y where "f (upd_clock (\<lambda>c. c\<lparr>ck_mutex_ok := True\<rparr>) d) = Inr (r, y)"
    "e = upd_clock (\<lambda>c. c\<lparr>ck_mutex_ok := ck_mutex_ok (g_clock_ctx d)\<rparr>) y"
    using assms(1) by (auto simp: ignoring_destroyed_def bindR_eq_Inr_iff)
  moreover from this assms(2) have "y = upd_clock (\<lambda>c. c\<lparr>ck_mutex_ok := True\<rparr>) d" by blast
  ultimately show ?thesis using destroyed_twice by simp
qed

text \<open>With \<open>g_mutex\<close> held by the main thread the clock thread's turn that reads the time waits as well.\<close>

lemma waiting_turn:
  assumes "g_mutex d" "ignoring_destroyed (clock_thread_turn T) d = Inr (cont, e)"
  shows "e = d"
proof -
  let ?d = "upd_clock (\<lambda>c. c\<lparr>ck_mutex_ok := True\<rparr>) d"
  obtain y where y: "clock_thread_turn T ?d = Inr (cont, y)"
    "e = upd_clock (\<lambda>c. c\<lparr>ck_mutex_ok := ck_mutex_ok (g_clock_ctx d)\<rparr>) y"
    using assms(2) by (auto simp: ignoring_destroyed_def bindR_eq_Inr_iff)
  have "y = ?d" using y(1) assms(1) by (cases "tn_tv T") (simp_all add: clock_thread_turn_def with_g_mutex_held)
  then show ?thesis using y(2) destroyed_twice by simp
qed

text \<open>A correction of the clock changes nothing of the daemon, but the kernel gets at most one command.\<close>

lemma correction_frame:
  assumes "\<not> g_mode_mutex (g_mode d)" "apply_time_correction_slew_or_step kern now off d = Inr (r, e)"
  shows "\<exists>cs. e = d\<lparr>clock_cmds := cs\<rparr> \<and> length cs \<le> Suc (length (clock_cmds d))"
proof -
  have "m = g_mode d" if "check_panic_condition off (g_mode d) = Inr (p, m)" for p m
    using that assms(1) by (auto simp: check_panic_condition_def with_g_mode_mutex_free bindR_eq_Inr_iff split: if_splits)
  then have p: "x = d" if "on_mode (check_panic_condition off) d = Inr (p, x)" for p x
    using that by (auto simp: on_mode_def bindR_eq_Inr_iff)
  have "e = d \<or> (\<exists>c. e = d\<lparr>clock_cmds := c # clock_cmds d\<rparr>)"
    using assms(2)
    by (auto simp: apply_time_correction_slew_or_step_def bindR_eq_Inr_iff clock_command_def split_def Let_def
        split: if_splits option.splits dest!: p)
  then show ?thesis
  proof
    assume "e = d"
    then show ?thesis by (intro exI [of _ "clock_cmds d"]) simp
  qed auto
qed

lemma sync_correct_frame:
  assumes "\<not> g_mode_mutex (g_mode d)" "sync_correct F E valid off d = Inr e"
  shows "\<exists>a cs. e = d\<lparr>g_clock_accuracy := a, clock_cmds := cs\<rparr> \<and> length cs \<le> Suc (length (clock_cmds d)) \<and>
    (\<exists>x. update_clock_accuracy F (sy_ts E) (sy_res E) (sy_now E) off (g_local_poll d) d = Inr x \<and> g_clock_accuracy x = a)"
proof -
  obtain x where x: "update_clock_accuracy F (sy_ts E) (sy_res E) (sy_now E) off (g_local_poll d) d = Inr x"
    "if 1 \<le> valid then \<exists>r. apply_time_correction_slew_or_step (sy_kern E) (sy_clk E) off x = Inr (r, e) else e = x"
    using assms(2) by (auto simp: sync_correct_def bindR_eq_Inr_iff split: if_splits)
  have "\<exists>a. x = d\<lparr>g_clock_accuracy := a\<rparr>"
    using x(1) by (auto simp: update_clock_accuracy_def bindR_eq_Inr_iff Let_def split_def)
  then obtain a where a: "x = d\<lparr>g_clock_accuracy := a\<rparr>" by blast
  have "\<exists>cs. e = x\<lparr>clock_cmds := cs\<rparr> \<and> length cs \<le> Suc (length (clock_cmds d))"
  proof (cases "1 \<le> valid")
    case True
    then show ?thesis using x(2) correction_frame [of x] assms(1) a by fastforce
  next
    case False
    then show ?thesis using x(2) by (intro exI [of _ "clock_cmds d"]) (simp add: a)
  qed
  then show ?thesis using x(1) by (auto simp: a)
qed

lemma clock_turn_frame:
  assumes "\<not> g_mutex d" "\<not> g_mode_mutex (g_mode d)" "ignoring_destroyed (clock_thread_turn T) d = Inr (cont, e)"
  shows "\<exists>c cs. e = d\<lparr>g_clock_ctx := c, clock_cmds := cs\<rparr>"
proof -
  let ?d = "upd_clock (\<lambda>c. c\<lparr>ck_mutex_ok := True\<rparr>) d"
  obtain y where y: "clock_thread_turn T ?d = Inr (cont, y)"
    "e = upd_clock (\<lambda>c. c\<lparr>ck_mutex_ok := ck_mutex_ok (g_clock_ctx d)\<rparr>) y"
    using assms(3) by (auto simp: ignoring_destroyed_def bindR_eq_Inr_iff)
  have m: "\<not> g_mode_mutex (g_mode ?d)" using assms(2) by simp
  have "\<exists>c cs. y = ?d\<lparr>g_clock_ctx := c, clock_cmds := cs\<rparr>"
  proof (cases "tn_tv T")
    case None
    then have "y = ?d\<lparr>g_clock_ctx := g_clock_ctx ?d, clock_cmds := clock_cmds ?d\<rparr>"
      using y(1) by (simp add: clock_thread_turn_def)
    then show ?thesis by blast
  next
    case (Some tv)
    then obtain off r z c where z: "apply_time_correction_slew_or_step (tn_kern T) (tn_clk T) off ?d = Inr (r, z)"
      "y = z\<lparr>g_clock_ctx := c\<rparr>"
      using y(1) assms(1)
      by (auto simp: clock_thread_turn_def with_g_mutex_free bindR_eq_Inr_iff update_system_clock_def
          with_clock_mutex_def split: if_splits option.splits)
    obtain cs where "z = ?d\<lparr>clock_cmds := cs\<rparr>" using correction_frame [OF m z(1)] by blast
    then have "y = ?d\<lparr>g_clock_ctx := c, clock_cmds := cs\<rparr>" using z(2) by simp
    then show ?thesis by blast
  qed
  then obtain c cs where "y = ?d\<lparr>g_clock_ctx := c, clock_cmds := cs\<rparr>" by blast
  then have "e = d\<lparr>g_clock_ctx := c\<lparr>ck_mutex_ok := ck_mutex_ok (g_clock_ctx d)\<rparr>, clock_cmds := cs\<rparr>"
    using y(2) by simp
  then show ?thesis by blast
qed

subsection \<open>Invariants of the platform\<close>

definition holds :: "(daemon \<Rightarrow> bool) \<Rightarrow> (daemon \<Rightarrow> bool) \<Rightarrow> system \<Rightarrow> bool" where
  "holds I J x \<longleftrightarrow> (case x of Going d \<Rightarrow> I d | Waiting d \<Rightarrow> J d)"

text \<open>
  A property of the daemon while its main thread goes on, and one for when it waits; what the correction of
  the clock makes of the one has to have the other.
\<close>

locale platform_frame = round_frame I for I :: "daemon \<Rightarrow> bool" +
  fixes J :: "daemon \<Rightarrow> bool" and C :: "clock_turn \<Rightarrow> bool"
  assumes keeps_begin: "I d \<Longrightarrow> I (d\<lparr>g_clock_thread_running := True\<rparr>)"
    and keeps_turn: "I d \<Longrightarrow> C T \<Longrightarrow> ignoring_destroyed (clock_thread_turn T) d = Inr (cont, e) \<Longrightarrow> I e"
    and corrected: "I d \<Longrightarrow> 1 \<le> valid \<Longrightarrow> sync_correct F E valid off d = Inr e \<Longrightarrow> J (e\<lparr>g_mutex := True\<rparr>)"
    and held: "J d \<Longrightarrow> g_mutex d"
    and waiting_begin: "J d \<Longrightarrow> J (d\<lparr>g_clock_thread_running := True\<rparr>)"
begin

lemma background_keeps:
  assumes "background_step C d e"
  shows "I d \<Longrightarrow> I e" "J d \<Longrightarrow> J e"
proof -
  have "(I d \<longrightarrow> I e) \<and> (J d \<longrightarrow> J e)" using assms
  proof (cases rule: background_stepE)
    case clock_begins
    then show ?thesis using keeps_begin waiting_begin by simp
  next
    case (clock_goes_on T cont)
    then have "J d \<longrightarrow> e = d" using waiting_turn [OF held clock_goes_on(3)] by simp
    then show ?thesis using keeps_turn [OF _ clock_goes_on(2,3)] by auto
  next
    case (peer_datagram i send_ok now buffer sz res)
    then show ?thesis using peer_request_pure [OF peer_datagram(2)] by simp
  next
    case (ntpq_line bytes reply)
    then show ?thesis using ignoring_pure [OF ntpq_line ntpq_pure] by simp
  qed
  then show "I d \<Longrightarrow> I e" "J d \<Longrightarrow> J e" by auto
qed

lemma wait_corrects:
  assumes "I d" "exchange_then (wait_in_discipline F E) E' ip port d = Inr (1, e)"
  shows "J e"
proof -
  from exchange_then_cases [OF assms] obtain ip t4 li stratum valid delay off u where
    "1 \<le> valid" "I u" "wait_in_discipline F E ip t4 li stratum valid delay off u = Inr (1, e)" by auto
  then show ?thesis using corrected by (auto simp: wait_in_discipline_def bindR_eq_Inr_iff)
qed

lemma step_holds:
  assumes "platform_step C F x y" "holds I J x"
  shows "holds I J y"
  using assms(1)
proof (cases rule: platform_stepE)
  case (main_turn i d R ok e)
  then show ?thesis using sync_server_keeps [of d F R i ok e] assms(2) by (simp add: holds_def)
next
  case (main_waits i d R e)
  then show ?thesis using wait_corrects assms(2) by (simp add: holds_def)
qed (use background_keeps assms(2) in \<open>auto simp: holds_def\<close>)

lemma reachable_holds:
  assumes "(platform_step C F)\<^sup>*\<^sup>* x y" "holds I J x"
  shows "holds I J y"
  using assms by (induction rule: rtranclp_induct) (auto intro: step_holds)

end

subsection \<open>The daemon does not keep time\<close>

text \<open>The clock thread reads a time between 2001 and 2038.\<close>

definition sane_reading :: "clock_turn \<Rightarrow> bool" where
  "sane_reading T \<longleftrightarrow> (case tn_tv T of
     None \<Rightarrow> True
   | Some (s, u) \<Rightarrow> 1000000000 \<le> s \<and> s \<le> 2147483648 \<and> 0 \<le> u \<and> u < 1000000)"

text \<open>\<open>n\<close> is the number of commands that the clock has got so far.\<close>

definition unset :: "nat \<Rightarrow> daemon \<Rightarrow> bool" where
  "unset n d \<longleftrightarrow> length (clock_cmds d) \<le> n \<and> g_last_sync_ts d = zero_ts \<and> \<not> g_time_synced d"

definition idle_time :: "daemon \<Rightarrow> bool" where
  "idle_time d \<longleftrightarrow> unlocked d \<and> unset 0 d"

lemma sane_turn_idle:
  assumes "idle_time d" "sane_reading T" "ignoring_destroyed (clock_thread_turn T) d = Inr (cont, e)"
  shows "idle_time e"
proof -
  let ?d = "upd_clock (\<lambda>c. c\<lparr>ck_mutex_ok := True\<rparr>) d"
  obtain y where y: "clock_thread_turn T ?d = Inr (cont, y)"
    "e = upd_clock (\<lambda>c. c\<lparr>ck_mutex_ok := ck_mutex_ok (g_clock_ctx d)\<rparr>) y"
    using assms(3) by (auto simp: ignoring_destroyed_def bindR_eq_Inr_iff)
  have "\<exists>c. y = d\<lparr>g_clock_ctx := c\<rparr>"
  proof (cases "tn_tv T")
    case None
    then show ?thesis using y(1) by (auto simp: clock_thread_turn_def)
  next
    case (Some tv)
    have "unlocked ?d" "uint (ts_sec (g_last_sync_ts ?d)) \<le> 5000"
      using assms(1) by (simp_all add: idle_time_def unset_def unlocked_def zero_ts_def)
    from clock_thread_corrects_nothing [OF this(1) _ Some] this(2) assms(2) Some
    show ?thesis using y(1) by (fastforce simp: sane_reading_def)
  qed
  then show ?thesis using assms(1) y(2) by (auto simp: idle_time_def unset_def unlocked_def)
qed

interpretation idle: platform_frame idle_time "\<lambda>d. g_mutex d \<and> unset 1 d" sane_reading
proof (unfold_locales, goal_cases)
  case (4 d clk now dir r d')
  then show ?case using schedule_frame [OF 4(2)]
    by (auto simp: idle_time_def unset_def unlocked_def leap_second_schedule_event_def with_g_leap_mutex_def
        with_mutex_def Let_def split: if_splits)
next
  case (5 d t dl off u d')
  then show ?case using marx_add_frame [OF 5(2)] by (auto simp: idle_time_def unset_def unlocked_def)
next
  case (6 d c k r d')
  then show ?case using marx_filter_frame [OF 6(2)] by (auto simp: idle_time_def unset_def unlocked_def)
next
  case (7 d b r d')
  then show ?case
    by (auto simp: lose_sync_def with_g_mutex_def with_mutex_def idle_time_def unset_def unlocked_def split: if_splits)
next
  case (11 d T cont e)
  then show ?case using sane_turn_idle by blast
next
  case (12 d valid F E off e)
  then show ?case using sync_correct_frame [of d F E valid off e]
    by (auto simp: idle_time_def unset_def unlocked_def)
qed (simp_all add: idle_time_def unset_def unlocked_def set_next_allowed_def)

lemma started_idle:
  assumes "start_threads M d = Inr (None, e)" "idle_time d"
  shows "idle_time e"
proof -
  have stuck: "cleanup_resources x \<noteq> Inr y" for x y using cleanup_stuck [of x] by auto
  have c: "\<exists>x. d' = d\<lparr>g_clock_ctx := x\<rparr>" if "start_clock_thread a b x y n d = (rc, d')" for a b x y n rc d'
    using that by (auto simp: start_clock_thread_def clock_thread_init_def Let_def split: prod.splits if_splits)
  have p: "idle_time d' = idle_time d2" if "start_peer_thread a b x s ip port i d2 = Inr (rc, d')" for a b x s ip port i d2 rc d'
    using that by (auto simp: start_peer_thread_def peer_thread_init_def with_sock_mutex_def with_mutex_def
        idle_time_def unset_def unlocked_def Let_def bindR_eq_Inr_iff split: if_splits)
  show ?thesis
    using assms
    by (auto simp: start_threads_def Let_def bindR_eq_Inr_iff stuck split: prod.splits if_splits
        dest!: c p) (auto simp: idle_time_def unset_def unlocked_def)
qed


text \<open>A daemon with one server that gets a usable reply: the clock gets its one command.\<close>

abbreviation good_world :: sync_env where
  "good_world \<equiv> good_env (Some (hdr_bytes good_reply))"

lemma good_exchange:
  assumes "unlocked d" "g_sample_count d < 2" "g_sync_sock d = - 1" "family_preference (g_cli d) = 0"
    and p: "strtoll port = (123, False, rest)"
  shows "\<exists>t4 li st u. exchange_then N good_world (Some ip) (Some port) d =
      N ip t4 li st (int (g_sample_count d + 1)) 19999 0 u \<and> unlocked u \<and> clock_cmds u = clock_cmds d"
proof -
  let ?t1 = "ntp_timestamp_now (Some \<lparr>tv_sec = 1700000000, tv_nsec = 0\<rparr>)"
  let ?d = "d\<lparr>g_sync_sock := 5, g_peer_pool := mark_reachable ip port 1700000000 (g_peer_pool d)\<rparr>"
  have e: "sy_sock good_world = (\<lambda>_. 5)" "\<not> sy_errno good_world" "sy_resolve good_world ip = Some 0x0100007F"
    "sy_timeout_ok good_world" "sy_send_ok good_world" "sy_received good_world = Some (hdr_bytes good_reply)"
    "sy_t1 good_world = Some \<lparr>tv_sec = 1700000000, tv_nsec = 0\<rparr>" "sy_now good_world = 1700000000"
    "sy_pkt0 good_world = zero_packet" "sy_tv good_world \<noteq> None" "sy_t4 good_world = sy_t4 (good_env None)"
    by (simp_all add: good_env_def)
  have len: "length (hdr_bytes good_reply) = 48" by simp
  then have bs: "take 1024 (hdr_bytes good_reply) = hdr_bytes good_reply" "hdr_bytes good_reply \<noteq> []" by force+
  have same: "d\<lparr>g_sync_sock := 5, g_mutex := False, g_peer_pool := ps\<rparr> = d\<lparr>g_sync_sock := 5, g_peer_pool := ps\<rparr>" for ps
    using assms(1) by (cases d) (simp add: unlocked_def)
  have ex: "exchange_then N good_world (Some ip) (Some port) d = reply_then (N ip) good_world ?t1 (hdr_bytes good_reply) ?d"
    using assms(1) by (simp add: exchange_then_def get_sync_socket_def network4_create_socket_def p e assms(3,4) bs
        create_ntp_request_eq with_g_mutex_def with_mutex_def unlocked_def Let_def same del: append.simps)
  have b: "version_of 0x24 = 4" "mode_of 0x24 = NTP_MODE_SERVER" "leap_of 0x24 = 0"
    by (simp_all add: version_of_def mode_of_def leap_of_def)
  have r: "pkt_li_vn_mode good_reply = 0x24" "pkt_stratum good_reply = 2" "pkt_orig_ts good_reply = ?t1"
    by (simp_all add: good_reply_def)
  have x: "pkt_xmit_ts good_reply \<noteq> zero_ts" by code_simp
  have k: "\<not> ntp_is_kod (Some (sy_pkt0 good_world))" by (simp add: e ntp_is_kod_def zero_packet_def)
  have a: "accepted good_reply" "mode_of (pkt_li_vn_mode good_reply) = NTP_MODE_SERVER"
    "handle_leap_indicator (sy_clk good_world) (sy_now good_world) (leap_of (pkt_li_vn_mode good_reply)) ?d = Inr (False, ?d)"
    by (simp_all add: accepted_def r b handle_leap_indicator_def)
  obtain q where q: "pkt_stratum q = 2"
    "\<And>N. reply_then N good_world ?t1 (hdr_bytes good_reply) ?d =
       measure_then N good_world (ntp_timestamp_now (sy_t4 good_world)) 0 q 19999 0 ?d"
    using reply_eq [OF a(1,2) k a(3), of ?t1] good_reply_measure x by (auto simp: r b e(11))
  have "unlocked ?d" "g_sample_count ?d < 2" using assms(1,2) by (simp_all add: unlocked_def)
  from measure_good [OF this, of q 0 19999 good_world "N ip" "ntp_timestamp_now (sy_t4 good_world)" 0] q(1) e(10)
  obtain u where "measure_then (N ip) good_world (ntp_timestamp_now (sy_t4 good_world)) 0 q 19999 0 ?d =
      N ip (ntp_timestamp_now (sy_t4 good_world)) 0 (ntp_local_stratum_from_peer (pkt_stratum q))
        (int (g_sample_count d + 1)) 19999 0 u" "unlocked u" "clock_cmds u = clock_cmds d" by auto
  then show ?thesis unfolding ex q(2) by blast
qed

lemma good_correction:
  assumes "unlocked u"
  shows "\<exists>a. sync_correct exact_fpu good_world (int (n + 1)) 0 u = Inr (u\<lparr>g_clock_accuracy := a, clock_cmds := AdjTime 0 0 # clock_cmds u\<rparr>)"
proof -
  have "\<exists>p. calculate_clock_precision exact_fpu (sy_ts good_world) (sy_res good_world) = Inr p"
    using count_halvings_spec [of 1]
    by (auto simp: calculate_clock_precision_def good_env_def Let_def get_system_precision_def)
  then obtain a where a: "update_clock_accuracy exact_fpu (sy_ts good_world) (sy_res good_world) (sy_now good_world) 0 (g_local_poll u) u =
      Inr (u\<lparr>g_clock_accuracy := a\<rparr>)"
    by (auto simp: update_clock_accuracy_def Let_def split_def)
  have "unlocked (u\<lparr>g_clock_accuracy := a\<rparr>)" using assms by (simp add: unlocked_def)
  from correction_slew [OF this, of 0 0 0] panic_limit_bounds(1)
  have "apply_time_correction_slew_or_step (sy_kern good_world) (sy_clk good_world) 0 (u\<lparr>g_clock_accuracy := a\<rparr>) =
      Inr (clock_command (sy_kern good_world) (AdjTime 0 0) (u\<lparr>g_clock_accuracy := a\<rparr>))"
    by (simp add: slew_delta_def)
  then show ?thesis using a by (auto simp: sync_correct_def clock_command_def)
qed

lemma good_turn_waits:
  assumes "unlocked d" "g_sample_count d < 2" "g_sync_sock d = - 1" "family_preference (g_cli d) = 0"
    "g_servers d = [\<lparr>srv_ip = ip, srv_port = port, srv_next_allowed_sync = 0\<rparr>]" "strtoll port = (123, False, rest)"
  shows "\<exists>e. platform_step C exact_fpu (Going d) (Waiting e) \<and> clock_cmds e = AdjTime 0 0 # clock_cmds d"
proof -
  let ?R = "silent_round\<lparr>rd_sync := \<lambda>_. good_world\<rparr>" and ?N = "wait_in_discipline exact_fpu good_world"
  obtain t4 li st u where u: "exchange_then ?N good_world (Some ip) (Some port) d =
      ?N ip t4 li st (int (g_sample_count d + 1)) 19999 0 u" "unlocked u" "clock_cmds u = clock_cmds d"
    using good_exchange [OF assms(1-4,6), of ?N ip] by blast
  obtain a where "sync_correct exact_fpu good_world (int (g_sample_count d + 1)) 0 u =
      Inr (u\<lparr>g_clock_accuracy := a, clock_cmds := AdjTime 0 0 # clock_cmds u\<rparr>)" using good_correction [OF u(2)] by blast
  then obtain e where e: "exchange_then ?N good_world (Some ip) (Some port) d = Inr (1, e)"
    "clock_cmds e = AdjTime 0 0 # clock_cmds d" using u(1,3) by (simp add: wait_in_discipline_def)
  have "asks ?R 0 d" by (simp add: asks_def sync_server_with_def assms(5))
  then have "platform_step C exact_fpu (Going d) (Waiting e)"
    using e(1) assms(5) by (intro platform_step.main_waits [of 0 d ?R]) simp_all
  then show ?thesis using e(2) by blast
qed


end
