(* ===== verification/WellFormed.thy ===== *)
theory WellFormed
  imports Platform
begin

section \<open>The invariant of the daemon\<close>

text \<open>
  What holds of the state of a running daemon: the type invariants of the parts, the bounds of the
  arrays and buffers, and that no mutex is held between two steps, but \<open>g_mutex\<close> by a main thread that
  waits for good. The command line, the configuration file and the initialisations establish it, and each step of
  \<open>platform_step\<close> keeps it, as an instance of the locale \<open>platform_frame\<close>.
\<close>

definition peer_wf :: "PeerState \<Rightarrow> bool" where
  "peer_wf p \<longleftrightarrow> length (peer_ip p) \<le> 63 \<and> length (peer_port p) \<le> 15"

definition server_wf :: "ServerConfig \<Rightarrow> bool" where
  "server_wf s \<longleftrightarrow> srv_ip s \<noteq> [] \<and> CHR '':'' \<notin> set (srv_ip s) \<and> length (srv_ip s) < 127 \<and> length (srv_port s) < 15"

definition history_wf :: "ClockAccuracyState \<Rightarrow> bool" where
  "history_wf a \<longleftrightarrow> length (ca_offset_history a) = 16 \<and> length (ca_offset_history_time a) = 16 \<and> ca_history_idx a < 16"

text \<open>A scheduled leap second is a minute long, see \<open>leap_second_schedule_event\<close>.\<close>

definition leap_wf :: "LeapSecondState \<Rightarrow> bool" where
  "leap_wf l \<longleftrightarrow> (lp_event_scheduled l \<longrightarrow> \<bar>lp_pending_offset_us l\<bar> = 60000000)"

definition daemon_wf :: "daemon \<Rightarrow> bool" where
  "daemon_wf d \<longleftrightarrow> unlocked d \<and> sample_wf d \<and> mode_wf (g_mode d) \<and> neg_wf (g_ido_state d) \<and> cli_wf (g_cli d) \<and>
     (\<forall>s\<in>set (g_servers d). server_wf s) \<and> length (g_peer_pool d) \<le> 8 \<and> (\<forall>p\<in>set (g_peer_pool d). peer_wf p) \<and>
     history_wf (g_clock_accuracy d) \<and> leap_wf (g_leap d) \<and> \<bar>fr_ppm (g_freq_state d)\<bar> < FREQ_OFFSET_MAX_PPM"

lemma initial_daemon_wf: "daemon_wf initial_daemon"
  by (simp add: daemon_wf_def initial_daemon_unlocked)
    (simp add: initial_daemon_def sample_wf_def mode_wf_def initial_mode_state_def neg_wf_def ido_zero_def
      cli_wf_def default_cli_def history_wf_def zero_accuracy_def leap_wf_def zero_leap_def zero_freq_def)

subsection \<open>The sample filter\<close>

lemma sample_wf_cong:
  "sample_wf (d\<lparr>g_samples := xs, g_sample_count := n\<rparr>) \<longleftrightarrow> length xs = MAX_SAMPLES \<and> n \<le> MAX_SAMPLES"
  by (simp add: sample_wf_def)

lemma marx_add_keeps_wf:
  assumes "sample_wf s" "marx_add_sample_us t dl off s = Inr (u, s')"
  shows "sample_wf s'"
  using assms by (auto simp: marx_add_sample_us_def with_g_mutex_def with_mutex_def sample_wf_def split: if_splits)

lemma marx_remove_keeps_wf:
  assumes "sample_wf s" "marx_remove_sample i s = Inr (u, s')"
  shows "sample_wf s'"
proof -
  have "length (shift_down (g_samples s) (nat i) (g_sample_count s - nat i - 1)) = length (g_samples s)"
    if "0 \<le> i" "i < int (g_sample_count s)"
    using that assms(1) by (intro length_shift_down) (auto simp: sample_wf_def)
  then show ?thesis
    using assms
    by (auto simp: marx_remove_sample_def with_g_mutex_def with_mutex_def sample_wf_def Let_def split: if_splits)
qed

lemma filter_loop_keeps_wf:
  "filter_loop th is f s = Inr (r, s') \<Longrightarrow> sample_wf s \<Longrightarrow> sample_wf s'"
proof (induction th "is" f s rule: filter_loop.induct)
  case (2 th i "is" f s)
  show ?case
  proof (cases "smp_delay (g_samples s ! i) \<le> th")
    case True
    then show ?thesis using 2 by (auto simp: sample_wf_def)
  next
    case False
    then obtain u t where t: "marx_remove_sample (int i) s = Inr (u, t)" "filter_loop th is f t = Inr (r, s')"
      using "2.prems" by (auto simp: bindR_eq_Inr_iff)
    then show ?thesis using "2.IH"(2) [OF False] marx_remove_keeps_wf "2.prems"(2) by blast
  qed
qed auto

lemma marx_filter_keeps_wf:
  assumes "sample_wf s" "marx_filter_outliers c k s = Inr (r, s')"
  shows "sample_wf s'"
  using assms filter_loop_keeps_wf
  by (auto simp: marx_filter_outliers_def Let_def bindR_eq_Inr_iff split: if_splits)

subsection \<open>Steps\<close>

lemma mark_reachable_wf:
  "length (mark_reachable ip port now ps) = length ps"
  "(\<forall>p\<in>set ps. peer_wf p) \<Longrightarrow> p \<in> set (mark_reachable ip port now ps) \<Longrightarrow> peer_wf p"
  by (induction ps) (auto simp: peer_wf_def split: if_splits)

lemma schedule_wf:
  assumes "leap_second_schedule_event clk now dir d = Inr (r, d')" "leap_wf (g_leap d)"
  shows "leap_wf (g_leap d') \<and> \<not> g_leap_mutex d'"
  using assms
  by (auto simp: leap_second_schedule_event_def with_g_leap_mutex_def with_mutex_def leap_wf_def Let_def split: if_splits)

lemma next_allowed_wf:
  assumes "\<forall>s\<in>set ss. server_wf s" "i < length ss"
  shows "\<forall>s\<in>set (ss[i := (ss ! i)\<lparr>srv_next_allowed_sync := t\<rparr>]). server_wf s"
proof -
  have "server_wf ((ss ! i)\<lparr>srv_next_allowed_sync := t\<rparr>)" using assms nth_mem by (fastforce simp: server_wf_def)
  then show ?thesis using assms(1) set_update_subset_insert [of ss i] by blast
qed

lemma accuracy_wf:
  assumes "update_clock_accuracy F ts res now off delta d = Inr x" "history_wf (g_clock_accuracy d)"
  shows "history_wf (g_clock_accuracy x)"
proof -
  have "ca_offset_history (snd (calculate_allan_variance F off delta a)) = ca_offset_history a \<and>
      ca_offset_history_time (snd (calculate_allan_variance F off delta a)) = ca_offset_history_time a" for a
    by (simp add: calculate_allan_variance_def Let_def)
  then show ?thesis using assms
    by (auto simp: update_clock_accuracy_def history_wf_def bindR_eq_Inr_iff Let_def split_def)
qed

text \<open>With a main thread that waits, \<open>g_mutex\<close> is held, and all else is as before.\<close>

definition waiting_wf :: "daemon \<Rightarrow> bool" where
  "waiting_wf d \<longleftrightarrow> g_mutex d \<and> daemon_wf (d\<lparr>g_mutex := False\<rparr>)"

lemma daemon_wf_unlocked: "daemon_wf d \<Longrightarrow> unlocked d"
  by (simp add: daemon_wf_def)

lemma daemon_wf_cong:
  "daemon_wf (d\<lparr>g_clock_ctx := c, clock_cmds := cs\<rparr>) = daemon_wf d"
  "daemon_wf (d\<lparr>g_clock_thread_running := b\<rparr>) = daemon_wf d"
  by (simp_all add: daemon_wf_def unlocked_def sample_wf_def)

interpretation wf: platform_frame daemon_wf waiting_wf "\<lambda>_. True"
proof (unfold_locales, goal_cases)
  case (3 d ip port now)
  then show ?case using mark_reachable_wf(2) [of "g_peer_pool d"]
    by (auto simp: daemon_wf_def unlocked_def sample_wf_def mark_reachable_wf(1))
next
  case (4 d clk now dir r d')
  then show ?case using schedule_wf [OF 4(2)] schedule_frame [OF 4(2)]
    by (auto simp: daemon_wf_def unlocked_def sample_wf_def)
next
  case (5 d t dl off u d')
  then show ?case using marx_add_keeps_wf [OF _ 5(2)] marx_add_frame [OF 5(2)]
    by (auto simp: daemon_wf_def unlocked_def)
next
  case (6 d c k r d')
  then show ?case using marx_filter_keeps_wf [OF _ 6(2)] marx_filter_frame [OF 6(2)]
    by (auto simp: daemon_wf_def unlocked_def)
next
  case (7 d b r d')
  then show ?case
    by (auto simp: lose_sync_def with_g_mutex_def with_mutex_def daemon_wf_def unlocked_def sample_wf_def
        split: if_splits)
next
  case (9 d i t)
  then show ?case using next_allowed_wf [of "g_servers d" i t]
    by (simp add: daemon_wf_def unlocked_def sample_wf_def set_next_allowed_def)
next
  case (11 d T cont e)
  then show ?case using clock_turn_frame [of d T cont e] unlockedD [OF daemon_wf_unlocked [OF 11(1)]]
    by (auto simp: daemon_wf_cong)
next
  case (12 d valid F E off e)
  obtain a cs where "e = d\<lparr>g_clock_accuracy := a, clock_cmds := cs\<rparr>" "history_wf a"
    using sync_correct_frame [OF unlockedD(3) [OF daemon_wf_unlocked [OF 12(1)]] 12(3)] accuracy_wf 12(1)
    by (auto simp: daemon_wf_def)
  then show ?case using 12(1) by (simp add: waiting_wf_def daemon_wf_def unlocked_def sample_wf_def)
next
  case (14 d)
  then show ?case by (simp add: waiting_wf_def daemon_wf_def unlocked_def sample_wf_def)
qed (auto simp: daemon_wf_def unlocked_def sample_wf_def waiting_wf_def)

subsection \<open>The start\<close>

text \<open>Before the threads run nothing has happened to the clock yet, and nothing has been measured.\<close>

definition booted :: "daemon \<Rightarrow> bool" where
  "booted d \<longleftrightarrow> daemon_wf d \<and> clock_cmds d = [] \<and> g_last_sync_ts d = zero_ts \<and> \<not> g_time_synced d \<and>
     g_sample_count d = 0"

lemma broadcast_line_wf:
  assumes "broadcast_line m l d = Some e" "booted d"
  shows "booted e"
proof -
  have "\<exists>c. e = d\<lparr>g_cli := c\<rparr> \<and> (cli_wf (g_cli d) \<longrightarrow> cli_wf c)"
    using assms(1) by (cases d) (auto simp: broadcast_line_def Let_def cli_wf_def split: if_splits)
  then show ?thesis using assms(2) by (auto simp: booted_def daemon_wf_def unlocked_def sample_wf_def)
qed

lemma add_server_wf:
  assumes "booted d" "server_line l = Some (ip, port)"
  shows "\<exists>e. add_server ip port d = Inr ((), e) \<and> booted e"
proof -
  have "\<not> g_mutex d" "length (g_peer_pool d) \<le> 8" using assms(1) by (simp_all add: booted_def daemon_wf_def unlocked_def)
  then show ?thesis
    using assms(1) server_line_fields [OF assms(2)]
    by (auto simp: add_server_eq booted_def daemon_wf_def unlocked_def sample_wf_def server_wf_def peer_wf_def fresh_peer_def
        dest!: in_set_takeD)
qed

lemma server_config_line_wf:
  assumes "server_config_line mem l d = Inr (go, e)" "booted d"
  shows "booted e"
proof (cases "l \<noteq> [] \<and> hd l \<in> {CHR 0x0A, CHR ''#'', CHR 0x0D}")
  case True
  then show ?thesis using assms by (simp add: server_config_line_def del: insert_iff)
next
  case False
  note skip = this
  show ?thesis
  proof (cases "broadcast_line (fst mem) l d")
    case (Some d1)
    then show ?thesis using assms broadcast_line_wf [OF Some] skip by (simp add: server_config_line_def del: insert_iff)
  next
    case None
    have none: "booted (d\<lparr>g_servers := []\<rparr>)" using assms(2) by (simp add: booted_def daemon_wf_def unlocked_def sample_wf_def)
    show ?thesis
    proof (cases "server_line l")
      case (Some s)
      then show ?thesis
        using add_server_wf [OF assms(2), of l "fst s" "snd s"] assms None skip none
        by (cases s) (auto simp: server_config_line_def simp del: insert_iff split: if_splits)
    qed (use assms None skip in \<open>simp add: server_config_line_def del: insert_iff\<close>)
  qed
qed

lemma server_config_lines_wf:
  "server_config_lines xs d = Inr (n, e) \<Longrightarrow> booted d \<Longrightarrow>
    booted e \<and> (0 < n \<longrightarrow> n = int (length (g_servers e)))"
proof (induction xs arbitrary: d)
  case (Cons x xs)
  obtain mem l where x: "x = (mem, l)" by (cases x)
  obtain go d1 where s: "server_config_line mem l d = Inr (go, d1)"
      "(if go then server_config_lines xs d1 else Inr (0, d1)) = Inr (n, e)"
    using Cons.prems(1) by (auto simp: x bindR_eq_Inr_iff)
  then show ?case using server_config_line_wf [OF s(1) Cons.prems(2)] Cons.IH [of d1] by (auto split: if_splits)
qed auto

lemma load_server_config_wf:
  assumes "load_server_config files mem d = Inr (n, e)" "booted d" "0 < n"
  shows "booted e \<and> g_servers e \<noteq> []"
  using assms server_config_lines_wf [of _ d n e]
  by (force simp: load_server_config_def Let_def split: option.splits)

lemma init_frequency_wf:
  assumes "booted d"
  shows "booted (snd (load_frequency_persistent file (snd (init_frequency_discipline F d))))"
  using assms
  by (auto simp: load_frequency_persistent_def init_frequency_discipline_def init_clock_accuracy_def Let_def
      reference_clock_init_def booted_def daemon_wf_def unlocked_def sample_wf_def history_wf_def zero_freq_def
      split: option.split)

lemma leap_second_init_wf:
  assumes "booted d" "leap_second_init d = Inr (rc, e)"
  shows "booted e"
  using assms
  by (auto simp: leap_second_init_def with_g_leap_mutex_def with_mutex_def booted_def daemon_wf_def unlocked_def
      sample_wf_def leap_wf_def split: if_splits)

lemma mode_handler_init_wf:
  assumes "mode_handler_init s = Inr (r, s')"
  shows "mode_wf s'"
  using assms by (auto simp: mode_handler_init_def with_g_mode_mutex_def with_mutex_def mode_wf_def split: if_splits)

lemma parse_config_wf:
  assumes "mode_handler_parse_config F strtod inet_addr files (Some name) s = Inr (r, s')" "mode_wf s"
  shows "mode_wf s'"
proof (cases "files name")
  case (Some contents)
  then show ?thesis
    using assms(1) config_lines_wf [OF assms(2), of F strtod inet_addr "fgets_lines 255 contents"]
    by (auto simp: mode_handler_parse_config_def)
qed (use assms in \<open>simp add: mode_handler_parse_config_def\<close>)

lemma init_modules_wf:
  assumes "init_modules F M d = Inr (rc, e)" "booted d"
  shows "booted e"
proof -
  obtain r1 m1 r2 m2 where m: "mode_handler_init (g_mode d) = Inr (r1, m1)"
      "mode_handler_parse_config F (mn_strtod M) (mn_inet_addr M) (mn_files M) (Some ''/etc/dntpd/modes.conf'') m1 = Inr (r2, m2)"
    and l: "leap_second_init (snd (load_frequency_persistent (mn_freq_file M) (snd (init_frequency_discipline F
         (d\<lparr>g_mode := m2, g_ido_state := ido_zero\<rparr>))))) = Inr (rc, e)"
    using assms(1) by (auto simp: init_modules_def on_mode_def bindR_eq_Inr_iff Let_def ido_state_init_def)
  have "mode_wf m2" using parse_config_wf [OF m(2) mode_handler_init_wf [OF m(1)]] .
  moreover from this have "\<not> g_mode_mutex m2" by (simp add: mode_wf_def)
  moreover have "neg_wf ido_zero" by (simp add: neg_wf_def ido_zero_def)
  ultimately have "booted (d\<lparr>g_mode := m2, g_ido_state := ido_zero\<rparr>)"
    using assms(2) by (simp add: booted_def daemon_wf_def unlocked_def sample_wf_def)
  from leap_second_init_wf [OF init_frequency_wf [OF this] l] show ?thesis .
qed

lemma init_modules_servers:
  assumes "init_modules F M d = Inr (rc, e)"
  shows "g_servers e = g_servers d"
  using assms
  by (auto simp: init_modules_def on_mode_def bindR_eq_Inr_iff Let_def ido_state_init_def leap_second_init_def
      with_g_leap_mutex_def with_mutex_def load_frequency_persistent_def init_frequency_discipline_def
      init_clock_accuracy_def reference_clock_init_def split: if_splits option.splits)

lemma started_wf:
  assumes "start_threads M d = Inr (None, e)"
  shows "daemon_wf e = daemon_wf d \<and> g_sample_count e = g_sample_count d"
proof -
  have stuck: "cleanup_resources x \<noteq> Inr y" for x y using cleanup_stuck [of x] by auto
  have c: "\<exists>x. d' = d\<lparr>g_clock_ctx := x\<rparr>" if "start_clock_thread a b x y n d = (rc, d')" for a b x y n rc d'
    using that by (auto simp: start_clock_thread_def clock_thread_init_def Let_def split: prod.splits if_splits)
  have p: "daemon_wf d' = daemon_wf d2 \<and> g_sample_count d' = g_sample_count d2"
    if "start_peer_thread a b x s ip port i d2 = Inr (rc, d')" for a b x s ip port i d2 rc d'
    using that by (auto simp: start_peer_thread_def peer_thread_init_def with_sock_mutex_def with_mutex_def
        daemon_wf_def unlocked_def sample_wf_def Let_def bindR_eq_Inr_iff split: if_splits)
  show ?thesis
    using assms
    by (auto simp: start_threads_def Let_def bindR_eq_Inr_iff stuck split: prod.splits if_splits
        dest!: c p) (auto simp: daemon_wf_def unlocked_def sample_wf_def)
qed

text \<open>What the command line, the configuration files and the initialisations leave.\<close>

lemma started_daemon:
  assumes "parse_arguments argv default_cli = (0, cli)"
    and "load_server_config (mn_files M) (mn_mem M) (initial_daemon\<lparr>g_cli := cli, g_local_precision := p\<rparr>) = Inr (n, d1)"
    and "0 < n" "init_modules F M d1 = Inr (rc, d2)" "start_threads M d2 = Inr (None, s)"
  shows "timeless s \<and> daemon_wf s \<and> g_sample_count s = 0 \<and> g_servers d2 \<noteq> []"
proof -
  have "cli_wf default_cli" by (simp add: cli_wf_def default_cli_def)
  then have "cli_wf cli" using parse_args_wf assms(1) by (fastforce simp: parse_arguments_def)
  moreover have "booted initial_daemon" using initial_daemon_wf by (simp add: booted_def) (simp add: initial_daemon_def)
  ultimately have b: "booted (initial_daemon\<lparr>g_cli := cli, g_local_precision := p\<rparr>)"
    by (simp add: booted_def daemon_wf_def unlocked_def sample_wf_def)
  note l = load_server_config_wf [OF assms(2) b assms(3)]
  have b2: "booted d2" using init_modules_wf [OF assms(4)] l by blast
  then have "daemon_wf s" "g_sample_count s = 0" using started_wf [OF assms(5)] by (simp_all add: booted_def)
  moreover have ne: "g_servers d2 \<noteq> []" using init_modules_servers [OF assms(4)] l by simp
  from b2 ne have "timeless s"
    using started_timeless [OF assms(5)] by (simp add: booted_def daemon_wf_def unlocked_def)
  ultimately show ?thesis using ne by blast
qed

definition sys_wf :: "system \<Rightarrow> bool" where
  "sys_wf x \<longleftrightarrow> holds daemon_wf waiting_wf x"

text \<open>
  C4: the daemon keeps its invariant. Whatever the command line, the configuration files, the
  allocations and the kernel, if the daemon starts then its state is well formed, and whatever steps its four
  threads take in whatever order, from this state or from any other that is well formed, they lead to a well
  formed one: all tables, buffers and names are within their bounds, the negotiation state is a legal one, a
  scheduled leap second is of a minute, the frequency is below its maximum, and no mutex is held,
  but \<open>g_mutex\<close> for good once the main thread has got a usable reply.
\<close>

theorem daemon_stays_well_formed:
  assumes "parse_arguments argv default_cli = (0, cli)"
    and "load_server_config (mn_files M) (mn_mem M) (initial_daemon\<lparr>g_cli := cli, g_local_precision := p\<rparr>) = Inr (n, d1)"
    and "0 < n" "init_modules F M d1 = Inr (rc, d2)" "start_threads M d2 = Inr (None, s)"
    and "x = Going s \<or> sys_wf x" "(platform_step (\<lambda>_. True) F)\<^sup>*\<^sup>* x y"
  shows "sys_wf y"
proof -
  have "sys_wf x" using started_daemon [OF assms(1-5)] assms(6) by (auto simp: sys_wf_def holds_def)
  then show ?thesis using wf.reachable_holds [OF assms(7)] by (simp add: sys_wf_def)
qed

text \<open>A daemon with one server in its configuration file, after a line from an ntpq client.\<close>

definition small_site :: main_env where
  "small_site = privileged_ports\<lparr>mn_files := (\<lambda>f. if f = ''/etc/dntpd/dntpd.conf'' then Some sample_config else None),
     mn_mem := (\<lambda>_. (True, True))\<rparr>"

lemma small_site_loads:
  assumes "\<not> g_mutex d" "g_cli d = default_cli" "g_servers d = []" "g_peer_pool d = []"
  shows "load_server_config (mn_files small_site) (mn_mem small_site) d =
    Inr (1, d\<lparr>g_servers := [server_entry (''192.0.2.1'', ''123'' @ newline)],
       g_peer_pool := [fresh_peer ''192.0.2.1'' (''123'' @ newline)]\<rparr>)"
proof -
  define l1 l2 where "l1 = ''# servers'' @ newline" and "l2 = ''192.0.2.1:123'' @ newline"
  have l: "fgets_lines 255 sample_config = [l1, l2]" by (simp only: sample_config_lines l1_def l2_def)
  have z: "zip (map (\<lambda>_. (True, True)) [0..<length [l1, l2]]) [l1, l2] = [((True, True), l1), ((True, True), l2)]"
    by (simp add: upt_rec)
  have c: "server_config_line m l1 d = Inr (True, d)" for m by (simp add: server_config_line_def l1_def)
  have "server_line l2 = Some (''192.0.2.1'', ''123'' @ newline)" "broadcast_line True l2 d = None"
    "l2 \<noteq> []" "hd l2 = CHR ''1''"
    by (simp_all add: l2_def server_line_def from_char_def cut_at_def newline_def broadcast_line_def strn_eq_def)
  then have s: "server_config_line (True, True) l2 d = Inr (True, d\<lparr>g_servers := [server_entry (''192.0.2.1'', ''123'' @ newline)],
       g_peer_pool := [fresh_peer ''192.0.2.1'' (''123'' @ newline)]\<rparr>)"
    using assms by (simp add: server_config_line_def add_server_eq max_def del: append.simps)
  have p: "mn_files small_site (config_path (g_cli d)) = Some sample_config" "mn_mem small_site = (\<lambda>_. (True, True))"
    by (simp_all add: small_site_def config_path_def assms(2) default_cli_def)
  show ?thesis
    unfolding load_server_config_def p option.case l Let_def z by (simp add: c s del: append.simps)
qed

lemma small_site_starts:
  assumes "booted d" "g_cli d = default_cli" "g_servers d \<noteq> []" "g_tcp_sock d = - 1" "g_peer_ctx d = (\<lambda>_. zero_peer_ctx)"
  shows "\<exists>d2 s. init_modules exact_fpu small_site d = Inr (0, d2) \<and>
    start_threads small_site d2 = Inr (None, s) \<and> g_servers s = g_servers d \<and> g_cli s = g_cli d \<and>
    g_sync_sock s = g_sync_sock d"
proof -
  have m: "\<not> g_mode_mutex (g_mode d)" "\<not> g_leap_mutex d"
    using assms(1) by (simp_all add: booted_def daemon_wf_def unlocked_def)
  obtain d2 where d2: "init_modules exact_fpu small_site d = Inr (0, d2)" "g_cli d2 = g_cli d" "g_servers d2 = g_servers d"
    "g_tcp_sock d2 = g_tcp_sock d" "g_peer_ctx d2 = g_peer_ctx d" "g_sync_sock d2 = g_sync_sock d"
    using m by (auto simp: init_modules_def on_mode_def mode_handler_init_def with_g_mode_mutex_def with_mutex_def
        mode_handler_parse_config_def small_site_def privileged_ports_def ido_state_init_def leap_second_init_def
        with_g_leap_mutex_def load_frequency_persistent_def init_frequency_discipline_def
        init_clock_accuracy_def reference_clock_init_def Let_def)
  then have "\<exists>s. start_threads small_site d2 = Inr (None, s) \<and> g_servers s = g_servers d \<and> g_cli s = g_cli d \<and>
      g_sync_sock s = g_sync_sock d"
    by (simp add: assms start_threads_def small_site_def privileged_ports_def drop_privileges_def
        default_cli_def start_clock_thread_def clock_thread_init_def create_udp_socket_def
        network4_create_socket_def network4_bind_socket_def start_peer_thread_def peer_thread_init_def
        with_sock_mutex_def with_mutex_def zero_peer_ctx_def Let_def)
  with d2 show ?thesis by blast
qed

lemma small_site_runs:
  "\<exists>d1 d2 s. load_server_config (mn_files small_site) (mn_mem small_site)
       (initial_daemon\<lparr>g_cli := default_cli, g_local_precision := - 20\<rparr>) = Inr (1, d1) \<and>
     init_modules exact_fpu small_site d1 = Inr (0, d2) \<and> start_threads small_site d2 = Inr (None, s) \<and>
     g_servers s = [server_entry (''192.0.2.1'', ''123'' @ newline)] \<and> g_cli s = default_cli \<and> g_sync_sock s = - 1"
proof -
  define d1 where "d1 = initial_daemon\<lparr>g_servers := [server_entry (''192.0.2.1'', ''123'' @ newline)],
       g_peer_pool := [fresh_peer ''192.0.2.1'' (''123'' @ newline)]\<rparr>"
  have i: "initial_daemon\<lparr>g_cli := default_cli, g_local_precision := - 20\<rparr> = initial_daemon"
    by (simp add: initial_daemon_def)
  have l: "load_server_config (mn_files small_site) (mn_mem small_site) initial_daemon = Inr (1, d1)"
    unfolding d1_def by (rule small_site_loads) (simp_all add: initial_daemon_def)
  have b: "booted initial_daemon" using initial_daemon_wf by (simp add: booted_def) (simp add: initial_daemon_def)
  have "booted d1" using load_server_config_wf [OF l b] by simp
  then obtain d2 s where s: "init_modules exact_fpu small_site d1 = Inr (0, d2)" "start_threads small_site d2 = Inr (None, s)"
      "g_servers s = g_servers d1" "g_cli s = g_cli d1" "g_sync_sock s = g_sync_sock d1"
    using small_site_starts [of d1] by (auto simp: d1_def initial_daemon_def simp del: append.simps)
  have "g_servers d1 = [server_entry (''192.0.2.1'', ''123'' @ newline)]" "g_cli d1 = default_cli" "g_sync_sock d1 = - 1"
    by (simp_all add: d1_def initial_daemon_def del: append.simps)
  with l s show ?thesis unfolding i
    by (intro exI [of _ d1] exI [of _ d2] exI [of _ s]) (simp del: append.simps)
qed

lemma plain_arguments: "parse_arguments [''dntpd''] default_cli = (0, default_cli)"
  by (simp add: parse_arguments_def)

lemma port_123_line: "strtoll (''123'' @ newline) = (123, False, newline)"
  by (simp add: strtoll_def scan_number_def skip_space_def is_space_def is_digit_def
    digits_val_def digit_val_def newline_def)

lemma daemon_stays_well_formed_witness:
  "\<exists>d1 d2 s e. init_modules exact_fpu small_site d1 = Inr (0, d2) \<and> start_threads small_site d2 = Inr (None, s) \<and>
     (platform_step (\<lambda>_. True) exact_fpu)\<^sup>*\<^sup>* (Going s) (Waiting e) \<and> clock_cmds e \<noteq> [] \<and> waiting_wf e"
proof -
  obtain d1 d2 s where s: "load_server_config (mn_files small_site) (mn_mem small_site)
       (initial_daemon\<lparr>g_cli := default_cli, g_local_precision := - 20\<rparr>) = Inr (1, d1)"
     "init_modules exact_fpu small_site d1 = Inr (0, d2)" "start_threads small_site d2 = Inr (None, s)"
     "g_servers s = [server_entry (''192.0.2.1'', ''123'' @ newline)]" "g_cli s = default_cli" "g_sync_sock s = - 1"
    using small_site_runs by blast
  have "daemon_wf s" "g_sample_count s = 0" using started_daemon [OF plain_arguments s(1) _ s(2,3)] by simp_all
  then obtain e where e: "platform_step (\<lambda>_. True) exact_fpu (Going s) (Waiting e)" "clock_cmds e \<noteq> []"
    using good_turn_waits [OF daemon_wf_unlocked _ s(6) _ _ port_123_line, of "''192.0.2.1''" "\<lambda>_. True"] s(4,5)
    by (auto simp: default_cli_def simp del: append.simps)
  then have run: "(platform_step (\<lambda>_. True) exact_fpu)\<^sup>*\<^sup>* (Going s) (Waiting e)" by blast
  have "sys_wf (Waiting e)"
    by (rule daemon_stays_well_formed [OF plain_arguments s(1) _ s(2,3) disjI1 run]) simp_all
  then show ?thesis using s(2,3) run e(2)
    by (intro exI [of _ d1] exI [of _ d2] exI [of _ s] exI [of _ e]) (simp add: sys_wf_def holds_def)
qed

end
