(* ===== verification/Runs.thy ===== *)
theory Runs
  imports Prelude
begin

section \<open>Runs of a handler\<close>

text \<open>
  A handler that is called with one event after another, and the interface of a handler that
  deals with each of its partners only when its last dealing with it is long enough ago. The server's request
  handler with its rate limit table is one (Serving), the main loop with its retry times another (Polling).
\<close>

fun run_all :: "('ev \<Rightarrow> 's \<Rightarrow> ('o \<times> 's) run) \<Rightarrow> 'ev list \<Rightarrow> 's \<Rightarrow> ('o list \<times> 's) run" where
  "run_all h [] s = Inr ([], s)"
| "run_all h (ev # evs) s =
     bindR (h ev s) (\<lambda>(r, s). bindR (run_all h evs s) (\<lambda>(rs, s). Inr (r # rs, s)))"

lemma run_all_ConsD:
  assumes "run_all h (ev # evs) s = Inr (rs, s')"
  obtains r s1 rs' where "h ev s = Inr (r, s1)" "run_all h evs s1 = Inr (rs', s')" "rs = r # rs'"
  using assms by (auto simp: bindR_eq_Inr_iff)

text \<open>
  What the handler promises, with room for \<open>cap\<close> clients: \<open>last_of\<close> is the time of a client's last
  answer. A turn that is no answer records nothing.
\<close>

locale rate_limited =
  fixes handle :: "'ev \<Rightarrow> 's \<Rightarrow> ('o \<times> 's) run"
    and answers :: "'o \<Rightarrow> bool"
    and client :: "'ev \<Rightarrow> 'k"
    and time_of :: "'ev \<Rightarrow> int"
    and last_of :: "'s \<Rightarrow> 'k \<Rightarrow> int option"
    and gap :: "'s \<Rightarrow> int"
    and good :: "'s \<Rightarrow> bool"
    and cap :: nat
  assumes gap_pos: "0 \<le> gap s"
    and handle_keeps: "handle ev s = Inr (r, s') \<Longrightarrow> good s \<Longrightarrow> good s' \<and> gap s' = gap s"
    and answered_late: "handle ev s = Inr (r, s') \<Longrightarrow> good s \<Longrightarrow> answers r \<Longrightarrow>
      last_of s (client ev) = Some t \<Longrightarrow> gap s \<le> time_of ev - t"
    and answer_recorded: "handle ev s = Inr (r, s') \<Longrightarrow> good s \<Longrightarrow> answers r \<Longrightarrow>
      finite (dom (last_of s)) \<Longrightarrow> card (insert (client ev) (dom (last_of s))) \<le> cap \<Longrightarrow>
      last_of s' = (last_of s)(client ev \<mapsto> time_of ev)"
    and silence_records_nothing: "handle ev s = Inr (r, s') \<Longrightarrow> good s \<Longrightarrow> \<not> answers r \<Longrightarrow>
      last_of s' = last_of s"
begin

lemma step_recorded:
  assumes "handle ev s = Inr (r, s')" "good s" "finite (dom (last_of s))"
    "card (insert (client ev) (dom (last_of s))) \<le> cap"
  shows "last_of s' = (if answers r then (last_of s)(client ev \<mapsto> time_of ev) else last_of s)"
  using answer_recorded [OF assms(1,2) _ assms(3,4)] silence_records_nothing [OF assms(1,2)] by auto

lemma step_room:
  assumes "handle ev s = Inr (r, s')" "good s" "finite (dom (last_of s))"
    "card (dom (last_of s) \<union> insert (client ev) C) \<le> cap" "finite C"
  shows "last_of s' = (if answers r then (last_of s)(client ev \<mapsto> time_of ev) else last_of s)"
    "finite (dom (last_of s'))" "card (dom (last_of s') \<union> C) \<le> cap"
proof -
  have "card (insert (client ev) (dom (last_of s))) \<le> card (dom (last_of s) \<union> insert (client ev) C)"
    using assms(3,5) by (intro card_mono) auto
  with assms(4) have c: "card (insert (client ev) (dom (last_of s))) \<le> cap" by simp
  show l: "last_of s' = (if answers r then (last_of s)(client ev \<mapsto> time_of ev) else last_of s)"
    by (rule step_recorded [OF assms(1-3) c])
  show "finite (dom (last_of s'))" using assms(3) by (simp add: l)
  have "card (dom (last_of s') \<union> C) \<le> card (dom (last_of s) \<union> insert (client ev) C)"
    using assms(3,5) by (intro card_mono) (auto simp: l)
  with assms(4) show "card (dom (last_of s') \<union> C) \<le> cap" by simp
qed

text \<open>Nobody who is in the table at the start is answered before the gap is over.\<close>

lemma run_answers_late:
  assumes "run_all handle evs s = Inr (rs, s')" "good s" "finite (dom (last_of s))"
    "card (dom (last_of s) \<union> client ` set evs) \<le> cap"
    "j < length evs" "answers (rs ! j)" "last_of s (client (evs ! j)) = Some t"
  shows "gap s \<le> time_of (evs ! j) - t"
  using assms
proof (induction evs arbitrary: s rs j t)
  case (Cons ev evs)
  obtain r s1 rs' where h: "handle ev s = Inr (r, s1)" "run_all handle evs s1 = Inr (rs', s')" "rs = r # rs'"
    using run_all_ConsD [OF Cons.prems(1)] .
  show ?case
  proof (cases j)
    case 0
    then show ?thesis using answered_late [OF h(1) Cons.prems(2)] Cons.prems(6,7) h(3) by simp
  next
    case (Suc i)
    have k: "good s1" "gap s1 = gap s" using handle_keeps [OF h(1) Cons.prems(2)] by auto
    note room = step_room [OF h(1) Cons.prems(2,3), of "client ` set evs"]
    have l: "last_of s1 = (if answers r then (last_of s)(client ev \<mapsto> time_of ev) else last_of s)"
      and f: "finite (dom (last_of s1))" "card (dom (last_of s1) \<union> client ` set evs) \<le> cap"
      using room Cons.prems(4) by auto
    note IH = Cons.IH [OF h(2) k(1) f, of i]
    show ?thesis
    proof (cases "answers r \<and> client (evs ! i) = client ev")
      case True
      then have "gap s \<le> time_of (evs ! i) - time_of ev"
        using IH [of "time_of ev"] Cons.prems(5,6) by (simp add: l k Suc h(3))
      moreover have "gap s \<le> time_of ev - t"
        using answered_late [OF h(1) Cons.prems(2), of t] True Cons.prems(7) by (simp add: Suc)
      ultimately show ?thesis using gap_pos [of s] by (simp add: Suc)
    next
      case False
      then have "last_of s1 (client (evs ! i)) = Some t"
        using Cons.prems(7) by (auto simp: l Suc)
      then show ?thesis using IH [of t] Cons.prems(5,6) by (simp add: k Suc h(3))
    qed
  qed
qed simp

text \<open>What is known of the clients after a run: the answers, in order, are a map's updates.\<close>

lemma run_records:
  assumes "run_all handle evs s = Inr (rs, s')" "good s" "finite (dom (last_of s))"
    "card (dom (last_of s) \<union> client ` set evs) \<le> cap"
  shows "last_of s' = fold (\<lambda>(ev, r) m. if answers r then m(client ev \<mapsto> time_of ev) else m) (zip evs rs) (last_of s)"
  using assms
proof (induction evs arbitrary: s rs)
  case (Cons ev evs)
  obtain r s1 rs' where h: "handle ev s = Inr (r, s1)" "run_all handle evs s1 = Inr (rs', s')" "rs = r # rs'"
    using run_all_ConsD [OF Cons.prems(1)] .
  have k: "good s1" using handle_keeps [OF h(1) Cons.prems(2)] by blast
  note room = step_room [OF h(1) Cons.prems(2,3), of "client ` set evs"]
  have l: "last_of s1 = (if answers r then (last_of s)(client ev \<mapsto> time_of ev) else last_of s)"
    and f: "finite (dom (last_of s1))" "card (dom (last_of s1) \<union> client ` set evs) \<le> cap"
    using room Cons.prems(4) by auto
  show ?case using Cons.IH [OF h(2) k f] by (simp add: h(3) l)
qed simp

lemma answers_are_spaced:
  assumes "run_all handle evs s = Inr (rs, s')" "good s" "finite (dom (last_of s))"
    "card (dom (last_of s) \<union> client ` set evs) \<le> cap"
    "i < j" "j < length evs" "answers (rs ! i)" "answers (rs ! j)" "client (evs ! i) = client (evs ! j)"
  shows "gap s \<le> time_of (evs ! j) - time_of (evs ! i)"
  using assms
proof (induction evs arbitrary: s rs i j)
  case (Cons ev evs)
  obtain r s1 rs' where h: "handle ev s = Inr (r, s1)" "run_all handle evs s1 = Inr (rs', s')" "rs = r # rs'"
    using run_all_ConsD [OF Cons.prems(1)] .
  obtain j' where j: "j = Suc j'" using Cons.prems(5) by (cases j) auto
  have k: "good s1" "gap s1 = gap s" using handle_keeps [OF h(1) Cons.prems(2)] by auto
  note room = step_room [OF h(1) Cons.prems(2,3), of "client ` set evs"]
  have l: "last_of s1 = (if answers r then (last_of s)(client ev \<mapsto> time_of ev) else last_of s)"
    and f: "finite (dom (last_of s1))" "card (dom (last_of s1) \<union> client ` set evs) \<le> cap"
    using room Cons.prems(4) by auto
  show ?case
  proof (cases i)
    case 0
    then show ?thesis
      using run_answers_late [OF h(2) k(1) f, of j' "time_of ev"] Cons.prems(6-9) by (simp add: l k j h(3))
  next
    case (Suc i')
    then show ?thesis
      using Cons.IH [OF h(2) k(1) f, of i' j'] Cons.prems(5-9) by (simp add: k j h(3))
  qed
qed simp

end

end
