(* ===== verification/AccessRules.thy ===== *)
theory AccessRules
  imports ModeHandler Cli Runs
begin

section \<open>The access list from its rules (mode_handler.c)\<close>

text \<open>
  What a list of access rules means, from their text to the decision: each rule is a network in
  CIDR notation with flags, and a client gets the flags of the first rule whose prefix its
  address has. The array of entries that \<open>acl_add_entry\<close> fills and \<open>acl_get_client_flags\<close> searches
  implements this.
\<close>

record access_rule =
  rule_net :: string
  rule_addr :: u32
  rule_prefix :: nat
  rule_flags :: u8

definition rule_text :: "access_rule \<Rightarrow> string" where
  "rule_text r = rule_net r @ ''/'' @ decimal (rule_prefix r)"

text \<open>The specification, on addresses as numbers.\<close>

definition covers :: "u32 \<Rightarrow> access_rule \<Rightarrow> bool" where
  "covers x r \<longleftrightarrow> drop_bit (32 - rule_prefix r) x = drop_bit (32 - rule_prefix r) (rule_addr r)"

definition granted :: "u8 \<Rightarrow> access_rule list \<Rightarrow> u32 \<Rightarrow> u8" where
  "granted policy rules x = (case find (covers x) rules of Some r \<Rightarrow> rule_flags r | None \<Rightarrow> policy)"

text \<open>A rule that is written as it should be, for what \<open>inet_addr\<close> makes of its address.\<close>

definition rule_ok :: "(string \<Rightarrow> u32) \<Rightarrow> access_rule \<Rightarrow> bool" where
  "rule_ok inet_addr r \<longleftrightarrow> CHR ''/'' \<notin> set (rule_net r) \<and> length (rule_net r) < 64 \<and>
     inet_addr (rule_net r) = htonl (rule_addr r) \<and> rule_addr r \<noteq> 0 \<and> htonl (rule_addr r) \<noteq> INADDR_NONE \<and>
     rule_prefix r \<le> 32"

definition add_rule :: "(string \<Rightarrow> u32) \<Rightarrow> access_rule \<Rightarrow> mode_state \<Rightarrow> (int \<times> mode_state) run" where
  "add_rule inet_addr r = acl_add_entry inet_addr (Some (rule_text r)) (rule_flags r)"

definition rule_entry :: "access_rule \<Rightarrow> AclEntry" where
  "rule_entry r = \<lparr>acl_ip = htonl (rule_addr r), acl_mask = prefix_mask (of_nat (rule_prefix r)),
     acl_flags = rule_flags r, acl_comment = None\<rparr>"

lemma scan_decimal:
  assumes "n < 2 ^ 32"
  shows "scan_uint (decimal n) = Some (of_nat n)"
proof -
  note d = decimal_digits [of n]
  then obtain c cs where c: "decimal n = c # cs" "is_digit c" by (cases "decimal n") auto
  then have "\<not> is_space c" "c \<noteq> CHR ''-''" "c \<noteq> CHR ''+''" by (auto simp: is_digit_def is_space_def)
  moreover have "takeWhile is_digit (decimal n) = decimal n" "dropWhile is_digit (decimal n) = []"
    using d by (auto simp: takeWhile_eq_all_conv)
  ultimately have "scan_number (decimal n) = (False, decimal n, [])"
    using c by (simp add: scan_number_def skip_space_def Let_def)
  then show ?thesis using d assms by (simp add: scan_uint_def)
qed

lemma htonl_zero_iff: "htonl a = 0 \<longleftrightarrow> a = 0"
proof -
  have "htonl 0 = 0" by (simp add: htonl_def u32_of_bytes_def)
  then show ?thesis using htonl_eq_iff [of a 0] by simp
qed

lemma rule_parsed:
  assumes "rule_ok inet_addr r"
  shows "parse_network inet_addr (Some (rule_text r)) =
    (htonl (rule_addr r), Some (prefix_mask (of_nat (rule_prefix r))))"
proof -
  have n: "CHR ''/'' \<notin> set (rule_net r)" using assms by (simp add: rule_ok_def)
  have f: "from_char (CHR ''/'') (rule_text r) = CHR ''/'' # decimal (rule_prefix r)"
    "cut_at (CHR ''/'') (rule_text r) = rule_net r"
    using n by (auto simp: rule_text_def from_char_def cut_at_def dropWhile_append takeWhile_append)
  have "\<not> 32 < (of_nat (rule_prefix r) :: u32)"
    using assms by (simp add: rule_ok_def not_less word_le_nat_alt unsigned_of_nat take_bit_nat_eq_self)
  then show ?thesis
    using assms scan_decimal [of "rule_prefix r"] by (simp add: parse_network_def f rule_ok_def Let_def)
qed

lemma rules_added:
  assumes "\<not> g_mode_mutex s" "\<forall>r\<in>set rules. rule_ok inet_addr r" "length (g_acl_entries s) + length rules \<le> 256"
  shows "run_all (add_rule inet_addr) rules s =
    Inr (replicate (length rules) 0, s\<lparr>g_acl_entries := g_acl_entries s @ map rule_entry rules\<rparr>)"
  using assms
proof (induction rules arbitrary: s)
  case (Cons r rules)
  let ?s = "s\<lparr>g_acl_entries := g_acl_entries s @ [rule_entry r]\<rparr>"
  have p: "parse_network inet_addr (Some (rule_text r)) = (htonl (rule_addr r), Some (prefix_mask (of_nat (rule_prefix r))))"
    using rule_parsed Cons.prems(2) by simp
  have "rule_addr r \<noteq> 0" using Cons.prems(2) by (simp add: rule_ok_def)
  then have "add_rule inet_addr r s = Inr (0, ?s)"
    using acl_add_eq [OF Cons.prems(1) p] Cons.prems(3) by (simp add: add_rule_def rule_entry_def htonl_zero_iff)
  moreover have "run_all (add_rule inet_addr) rules ?s =
      Inr (replicate (length rules) 0, ?s\<lparr>g_acl_entries := g_acl_entries ?s @ map rule_entry rules\<rparr>)"
    by (rule Cons.IH) (use Cons.prems in auto)
  ultimately show ?case by simp
qed simp

lemma rule_entry_covers:
  assumes "rule_prefix r \<le> 32"
  shows "ip_in_network (htonl x) (acl_ip (rule_entry r)) (acl_mask (rule_entry r)) \<longleftrightarrow> covers x r"
proof -
  have "(of_nat (rule_prefix r) :: u32) \<le> 32" "unat (of_nat (rule_prefix r) :: u32) = rule_prefix r"
    using assms by (simp_all add: word_le_nat_alt unsigned_of_nat take_bit_nat_eq_self)
  then show ?thesis
    by (simp add: rule_entry_def covers_def ip_in_network_def prefix_mask_eq htonl_and and_mask_eq_iff)
qed

lemma lookup_rules:
  assumes "\<forall>r\<in>set rules. rule_prefix r \<le> 32"
  shows "acl_lookup (htonl x) (map rule_entry rules) = map_option rule_entry (find (covers x) rules)"
  using assms by (induction rules) (simp_all add: rule_entry_covers)

lemma granted_flags:
  assumes "\<not> g_mode_mutex s" "g_acl_entries s = map rule_entry rules" "\<forall>r\<in>set rules. rule_prefix r \<le> 32"
    "inet_addr c = htonl x" "x \<noteq> 0"
  shows "acl_get_client_flags inet_addr (Some c) s = Inr (granted (acl_default_policy (g_mode_config s)) rules x, s)"
proof -
  have "inet_addr c \<noteq> 0" using assms(4,5) by (simp add: htonl_zero_iff)
  then show ?thesis
    using assms by (subst acl_flags_eq) (simp_all add: lookup_rules granted_def rule_entry_def split: option.split)
qed

text \<open>
  C18: the access list decides by the first prefix. Any rules, at most 256, are all accepted; and then, and as long as
  nothing is added or removed, every client gets the flags of the first rule, in the order in which they were added,
  whose prefix its address has, or else the default policy.
\<close>

theorem access_list_decides_by_first_prefix:
  assumes "mode_wf s" "g_acl_entries s = []" "length rules \<le> 256" "\<forall>r\<in>set rules. rule_ok inet_addr r"
    and "inet_addr c = htonl x" "x \<noteq> 0"
  shows "\<exists>s'. run_all (add_rule inet_addr) rules s = Inr (replicate (length rules) 0, s') \<and>
    acl_get_client_flags inet_addr (Some c) s' =
      Inr (granted (acl_default_policy (g_mode_config s)) rules x, s')"
proof -
  let ?s = "s\<lparr>g_acl_entries := map rule_entry rules\<rparr>"
  have a: "run_all (add_rule inet_addr) rules s = Inr (replicate (length rules) 0, ?s)"
    using rules_added [OF mode_wf_free [OF assms(1)] assms(4)] assms(2,3) by simp
  have "\<not> g_mode_mutex ?s" "\<forall>r\<in>set rules. rule_prefix r \<le> 32"
    using mode_wf_free [OF assms(1)] assms(4) by (simp_all add: rule_ok_def)
  then have "acl_get_client_flags inet_addr (Some c) ?s =
      Inr (granted (acl_default_policy (g_mode_config s)) rules x, ?s)"
    using granted_flags [of ?s rules inet_addr c x] assms(5,6) by simp
  with a show ?thesis by blast
qed

text \<open>One network with a hole: its second half is refused everything, the rest may ask.\<close>

definition site_inet :: "string \<Rightarrow> u32" where
  "site_inet s = (if s = ''192.168.1.128'' then htonl 0xC0A80180 else if s = ''192.168.1.0'' then htonl 0xC0A80100
     else if s = ''192.168.1.200'' then htonl 0xC0A801C8 else INADDR_NONE)"

definition site_rules :: "access_rule list" where
  "site_rules = [\<lparr>rule_net = ''192.168.1.128'', rule_addr = 0xC0A80180, rule_prefix = 25, rule_flags = 3\<rparr>,
     \<lparr>rule_net = ''192.168.1.0'', rule_addr = 0xC0A80100, rule_prefix = 24, rule_flags = 0\<rparr>]"

lemma access_list_decides_by_first_prefix_witness:
  "\<exists>s'. run_all (add_rule site_inet) site_rules initial_mode_state = Inr ([0, 0], s') \<and>
     acl_get_client_flags site_inet (Some ''192.168.1.200'') s' = Inr (3, s')"
proof -
  have wf: "mode_wf initial_mode_state" "g_acl_entries initial_mode_state = []"
    by (simp_all add: mode_wf_def initial_mode_state_def)
  have "htonl 0xC0A80180 \<noteq> INADDR_NONE" "htonl 0xC0A80100 \<noteq> INADDR_NONE" by code_simp+
  then have ok: "\<forall>r\<in>set site_rules. rule_ok site_inet r"
    by (simp add: site_rules_def rule_ok_def site_inet_def)
  have c: "covers 0xC0A801C8 (site_rules ! 0)" by (simp add: site_rules_def covers_def drop_bit_eq_div)
  then have g: "granted p site_rules 0xC0A801C8 = 3" for p by (simp add: granted_def site_rules_def)
  show ?thesis
    using access_list_decides_by_first_prefix [OF wf _ ok, of "''192.168.1.200''" "0xC0A801C8"]
    by (simp add: g site_inet_def) (simp add: site_rules_def numeral_2_eq_2)
qed

end
