(* ===== verification/ModeFile.thy ===== *)
theory ModeFile
  imports ModeConfigFile AccessRules
begin

section \<open>Mode configurations as files (mode_handler.c)\<close>

text \<open>
  What \<open>mode_handler_parse_config\<close> is the inverse of: a configuration, with networks that are to
  be let in, written as a file. The factor \<open>max_response_ratio\<close> is left out, since what it
  reads depends on the format of a \<open>float\<close>.
\<close>

definition file_line :: "string \<times> string \<Rightarrow> string" where
  "file_line kv = fst kv @ '' '' @ snd kv @ [CHR 0x0A]"

definition bool_text :: "u8 \<Rightarrow> string" where
  "bool_text b = (if b = 0 then ''no'' else ''yes'')"

definition policy_names :: "(u8 \<times> string) list" where
  "policy_names = [(ACL_FLAG_NOQUERY, ''noquery''), (ACL_FLAG_NOSERVE, ''noserve''), (ACL_FLAG_LIMITED, ''limited''),
     (ACL_FLAG_NOPEER, ''nopeer''), (ACL_FLAG_NOTRUST, ''notrust'')]"

fun comma_list :: "string list \<Rightarrow> string" where
  "comma_list [] = ''none''"
| "comma_list [w] = w"
| "comma_list (w # ws) = w @ '','' @ comma_list ws"

definition policy_text :: "u8 \<Rightarrow> string" where
  "policy_text p = comma_list (map snd (filter (\<lambda>(f, _). p AND f \<noteq> 0) policy_names))"

definition settings_lines :: "ModeConfig \<Rightarrow> (string \<times> string) list" where
  "settings_lines c =
     [(''enable_control_messages'', bool_text (enable_control_messages c)),
      (''enable_symmetric_mode'', bool_text (enable_symmetric_mode c)),
      (''enable_broadcast'', bool_text (enable_broadcast c)),
      (''drop_unauthenticated_control'', bool_text (drop_unauthenticated_control c)),
      (''enable_ntp_auth'', bool_text (enable_ntp_auth c)),
      (''acl_default_policy'', policy_text (acl_default_policy c)),
      (''rate_limit_interval'', decimal (unat (rate_limit_interval c))),
      (''initial_stratum'', decimal (unat (initial_stratum c))),
      (''panic_threshold'', decimal (unat (panic_threshold c)))]"

definition mode_file :: "ModeConfig \<Rightarrow> access_rule list \<Rightarrow> string" where
  "mode_file c rules = concat (map file_line (settings_lines c @ map (\<lambda>r. (''acl_allow'', rule_text r)) rules))"

subsection \<open>Lines\<close>

definition plain_text :: "string \<Rightarrow> bool" where
  "plain_text w \<longleftrightarrow> w \<noteq> [] \<and> (\<forall>c\<in>set w. \<not> is_space c \<and> c \<noteq> CHR ''#'' \<and> c \<noteq> CHR 0x00)"

text \<open>A file of lines of at most 255 characters is read line by line.\<close>

lemma fgets_lines_concat:
  assumes "\<forall>l\<in>set ls. \<exists>w. l = w @ [CHR 0x0A] \<and> CHR 0x0A \<notin> set w \<and> CHR 0x00 \<notin> set w \<and> length w < n"
  shows "fgets_lines n (concat ls) = ls"
  using assms
proof (induction ls)
  case (Cons l ls)
  obtain w where w: "l = w @ [CHR 0x0A]" "CHR 0x0A \<notin> set w" "CHR 0x00 \<notin> set w" "length w < n"
    using Cons.prems by auto
  let ?s = "w @ CHR 0x0A # concat ls"
  have t: "take n ?s = w @ CHR 0x0A # take (n - length w - 1) (concat ls)"
    using w(4) by (cases "n - length w") simp_all
  have tw: "takeWhile (\<lambda>c. c \<noteq> CHR 0x0A) (take n ?s) = w"
    unfolding t using w(2) by (subst takeWhile_append2) auto
  have "length w < length (take n ?s)" unfolding t by simp
  then have c: "fgets_chunk n ?s = (w @ [CHR 0x0A], concat ls)"
    unfolding fgets_chunk_def tw Let_def by simp
  have "cstr (w @ [CHR 0x0A]) = w @ [CHR 0x0A]"
    using w(3) by (auto simp: cstr_def cut_at_def takeWhile_eq_all_conv)
  then show ?case using Cons w(4) c by (simp add: fgets_lines.simps [of n ?s] w(1))
qed (simp add: fgets_lines.simps)

lemma file_line_read:
  assumes "plain_text k" "length k \<le> 63" "plain_text v" "length v \<le> 127"
  shows "config_line F strtod inet_addr (file_line (k, v)) s = config_entry F strtod inet_addr k v s"
proof -
  have cut: "cut_at (CHR ''#'') (file_line (k, v)) = k @ CHR '' '' # v @ [CHR 0x0A]"
    using assms(1,3) by (auto simp: cut_at_def file_line_def plain_text_def takeWhile_eq_all_conv)
  have w1: "scan_word 63 (k @ CHR '' '' # v @ [CHR 0x0A]) = (k, CHR '' '' # v @ [CHR 0x0A])"
    using assms(1,2) by (intro scan_word_prefix) (auto simp: plain_text_def is_space_def)
  have "scan_word 127 (CHR '' '' # v @ [CHR 0x0A]) = scan_word 127 (v @ [CHR 0x0A])"
    by (simp add: scan_word_def skip_space_def is_space_def)
  also have "\<dots> = (v, [CHR 0x0A])"
    using assms(3,4) by (intro scan_word_prefix) (auto simp: plain_text_def is_space_def)
  finally show ?thesis using w1 assms(1,3) by (simp add: config_line_def cut plain_text_def)
qed

text \<open>So the file is the sequence of its entries.\<close>

fun config_entries ::
    "fpu \<Rightarrow> (string \<Rightarrow> fval \<times> bool \<times> string) \<Rightarrow> (string \<Rightarrow> u32) \<Rightarrow> (string \<times> string) list \<Rightarrow> mode_state \<Rightarrow> mode_state run" where
  "config_entries F strtod inet_addr [] s = Inr s"
| "config_entries F strtod inet_addr (kv # kvs) s =
     bindR (config_entry F strtod inet_addr (fst kv) (snd kv) s) (config_entries F strtod inet_addr kvs)"

lemma config_lines_entries:
  assumes "\<forall>kv\<in>set kvs. plain_text (fst kv) \<and> length (fst kv) \<le> 63 \<and> plain_text (snd kv) \<and> length (snd kv) \<le> 127"
  shows "config_lines F strtod inet_addr (fgets_lines 255 (concat (map file_line kvs))) s =
    config_entries F strtod inet_addr kvs s"
proof -
  have "\<exists>w. l = w @ [CHR 0x0A] \<and> CHR 0x0A \<notin> set w \<and> CHR 0x00 \<notin> set w \<and> length w < 255"
    if l: "l \<in> set (map file_line kvs)" for l
  proof -
    obtain k v where kv: "(k, v) \<in> set kvs" "l = file_line (k, v)" using l by auto
    then have p: "plain_text k" "length k \<le> 63" "plain_text v" "length v \<le> 127" using assms by auto
    have "is_space (CHR 0x0A)" by (simp add: is_space_def)
    then have "CHR 0x0A \<notin> set (k @ '' '' @ v)" "CHR 0x00 \<notin> set (k @ '' '' @ v)"
      using p(1,3) by (auto simp: plain_text_def)
    then show ?thesis using p(2,4) kv(2) by (intro exI [of _ "k @ '' '' @ v"]) (simp add: file_line_def)
  qed
  then have "fgets_lines 255 (concat (map file_line kvs)) = map file_line kvs"
    by (intro fgets_lines_concat) blast
  moreover have "config_lines F strtod inet_addr (map file_line kvs) s = config_entries F strtod inet_addr kvs s"
    using assms
  proof (induction kvs arbitrary: s)
    case (Cons kv kvs)
    obtain k v where kv: "kv = (k, v)" by (cases kv)
    have "config_line F strtod inet_addr (file_line (k, v)) s = config_entry F strtod inet_addr k v s"
      using Cons.prems by (intro file_line_read) (auto simp: kv)
    moreover have "config_lines F strtod inet_addr (map file_line kvs) = config_entries F strtod inet_addr kvs"
      using Cons by (intro ext) simp
    ultimately show ?case by (simp add: kv)
  qed simp
  ultimately show ?thesis by simp
qed

subsection \<open>Values\<close>

lemma set_bool_text:
  assumes "b \<in> {0, 1}"
  shows "set_bool (bool_text b) f s = upd_config (f b) s"
  using assms by (auto simp: set_bool_def bool_text_def parse_bool_def)

text \<open>The 32 policies, one by one.\<close>

lemma policies:
  "\<forall>p\<in>set (map word_of_nat [0..<32]). policy_flags (policy_text p) 0 = (p :: u8)"
  "\<forall>p\<in>set (map word_of_nat [0..<32]). plain_text (policy_text (p :: u8)) \<and> length (policy_text p) \<le> 127"
  by code_simp+

lemma policy_text_read:
  assumes "p < 32"
  shows "policy_flags (policy_text p) 0 = p" "plain_text (policy_text p)" "length (policy_text p) \<le> 127"
proof -
  have "unat p \<in> set [0..<32]" using assms by (simp add: word_less_nat_alt)
  then have "p \<in> set (map word_of_nat [0..<32])" unfolding list.set_map by (intro image_eqI [of _ _ "unat p"]) simp_all
  then show "policy_flags (policy_text p) 0 = p" "plain_text (policy_text p)" "length (policy_text p) \<le> 127"
    using policies by blast+
qed

lemma strtoll_decimal:
  assumes "n < 2 ^ 63"
  shows "strtoll (decimal n) = (int n, False, [])"
  using decimal_digits [of n] assms strtoll_digits [of "decimal n"] by simp

lemma uint8_text: "parse_uint8 (Some (decimal (unat (n :: u8)))) = Inr n"
proof -
  have "unat n < 2 ^ 8" "uint n < 2 ^ 8" using unsigned_less [of n] uint_lt2p [of n] by simp_all
  then show ?thesis by (simp add: parse_uint8_def strtoll_decimal)
qed

lemma panic_text:
  assumes "n \<noteq> 0"
  shows "set_panic (decimal (unat (n :: u16))) s = upd_config (\<lambda>c. c\<lparr>panic_threshold := n\<rparr>) s"
proof -
  have "unat n < 2 ^ 16" "uint n < 2 ^ 16" using unsigned_less [of n] uint_lt2p [of n] by simp_all
  moreover have "0 < uint n" using assms by (simp add: order.strict_iff_order uint_0_iff)
  ultimately show ?thesis by (simp add: set_panic_def strtoll_decimal)
qed

lemma decimal_plain: "plain_text (decimal n)"
  using decimal_digits [of n] by (auto simp: plain_text_def is_digit_def is_space_def)

definition writable :: "ModeConfig \<Rightarrow> bool" where
  "writable c \<longleftrightarrow> {enable_control_messages c, enable_symmetric_mode c, enable_broadcast c,
       drop_unauthenticated_control c, enable_ntp_auth c} \<subseteq> {0, 1} \<and>
     acl_default_policy c < 32 \<and> panic_threshold c \<noteq> 0"

lemma config_entries_append:
  "config_entries F strtod inet_addr (xs @ ys) s =
     bindR (config_entries F strtod inet_addr xs s) (config_entries F strtod inet_addr ys)"
proof (induction xs arbitrary: s)
  case (Cons x xs)
  then have "config_entries F strtod inet_addr (xs @ ys) =
      (\<lambda>s. bindR (config_entries F strtod inet_addr xs s) (config_entries F strtod inet_addr ys))" by (intro ext)
  then show ?case by (simp add: bindR_assoc)
qed simp

lemma settings_read:
  assumes "writable c" "max_response_ratio c = max_response_ratio (g_mode_config s)"
  shows "config_entries F strtod inet_addr (settings_lines c) s = Inr (s\<lparr>g_mode_config := c\<rparr>)"
  using assms
  by (simp add: settings_lines_def config_entry_def set_bool_text writable_def policy_text_read uint8_text panic_text)

lemma rules_read:
  assumes "\<not> g_mode_mutex s" "\<forall>r\<in>set rules. rule_ok inet_addr r \<and> rule_flags r = 0" "length (g_acl_entries s) + length rules \<le> 256"
  shows "config_entries F strtod inet_addr (map (\<lambda>r. (''acl_allow'', rule_text r)) rules) s =
    Inr (s\<lparr>g_acl_entries := g_acl_entries s @ map rule_entry rules\<rparr>)"
  using assms
proof (induction rules arbitrary: s)
  case (Cons r rules)
  let ?s = "s\<lparr>g_acl_entries := g_acl_entries s @ [rule_entry r]\<rparr>"
  have "run_all (add_rule inet_addr) [r] s = Inr ([0], ?s)"
    using rules_added [OF Cons.prems(1), of "[r]"] Cons.prems(2,3) by simp
  then have "acl_add_entry inet_addr (Some (rule_text r)) 0 s = Inr (0, ?s)"
    using Cons.prems(2) by (auto simp: add_rule_def bindR_eq_Inr_iff)
  then have "config_entry F strtod inet_addr ''acl_allow'' (rule_text r) s = Inr ?s"
    by (simp add: config_entry_def)
  moreover have "config_entries F strtod inet_addr (map (\<lambda>r. (''acl_allow'', rule_text r)) rules) ?s =
      Inr (?s\<lparr>g_acl_entries := g_acl_entries ?s @ map rule_entry rules\<rparr>)"
    by (rule Cons.IH) (use Cons.prems in auto)
  ultimately show ?case by simp
qed simp

lemma rule_text_plain:
  assumes "rule_ok inet_addr r" "plain_text (rule_net r)"
  shows "plain_text (rule_text r)" "length (rule_text r) \<le> 127"
proof -
  show "plain_text (rule_text r)"
    using assms decimal_plain [of "rule_prefix r"] by (auto simp: rule_text_def plain_text_def is_space_def)
  have "length (decimal (rule_prefix r)) \<le> 2"
    using assms(1) decimal_length [of "rule_prefix r" 1] by (simp add: rule_ok_def)
  then show "length (rule_text r) \<le> 127" using assms(1) by (simp add: rule_text_def rule_ok_def)
qed

lemma mode_file_entries:
  assumes "writable c" "\<forall>r\<in>set rules. rule_ok inet_addr r \<and> plain_text (rule_net r)"
  shows "config_lines F strtod inet_addr (fgets_lines 255 (mode_file c rules)) s =
    config_entries F strtod inet_addr (settings_lines c @ map (\<lambda>r. (''acl_allow'', rule_text r)) rules) s"
proof -
  have "unat (rate_limit_interval c) < 2 ^ 8" "unat (initial_stratum c) < 2 ^ 8" "unat (panic_threshold c) < 2 ^ 16"
    by (rule unsigned_less [THEN order_less_le_trans], simp)+
  then have u: "length (decimal (unat (rate_limit_interval c))) \<le> 5" "length (decimal (unat (initial_stratum c))) \<le> 5"
    "length (decimal (unat (panic_threshold c))) \<le> 5"
    using decimal_length [of _ 4] by simp_all
  have "acl_default_policy c < 32" using assms(1) by (simp add: writable_def)
  note p = policy_text_read [OF this]
  have b: "plain_text (bool_text x)" "length (bool_text x) \<le> 127" for x
    by (simp_all add: bool_text_def plain_text_def is_space_def)
  have k: "plain_text ''acl_allow''" by (simp add: plain_text_def is_space_def)
  have "\<forall>kv\<in>set (settings_lines c). plain_text (fst kv) \<and> length (fst kv) \<le> 63 \<and> plain_text (snd kv) \<and> length (snd kv) \<le> 127"
    using u by (simp add: settings_lines_def b p decimal_plain)
      (simp add: plain_text_def is_space_def)
  then show ?thesis
    unfolding mode_file_def using assms(2) rule_text_plain k
    by (intro config_lines_entries) auto
qed

text \<open>
  C35: a configuration is read back from its file. A file with all the switches, the default policy, the
  intervals and thresholds, and up to 256 networks to let in, gives exactly this configuration and these networks,
  in their order, whatever was configured before; together with the access list's meaning (AccessRules) the text
  of the file decides who is let in.
\<close>

theorem mode_file_round_trip:
  assumes "mode_wf s" "g_acl_entries s = []" "length rules \<le> 256" "writable c"
    and "max_response_ratio c = max_response_ratio (g_mode_config s)"
    and "\<forall>r\<in>set rules. rule_ok inet_addr r \<and> plain_text (rule_net r) \<and> rule_flags r = 0"
    and "files name = Some (mode_file c rules)"
  shows "\<exists>s'. mode_handler_parse_config F strtod inet_addr files (Some name) s = Inr (0, s') \<and> g_mode_config s' = c \<and>
    (\<forall>client x. inet_addr client = htonl x \<longrightarrow> x \<noteq> 0 \<longrightarrow>
       acl_get_client_flags inet_addr (Some client) s' = Inr (granted (acl_default_policy c) rules x, s'))"
proof -
  let ?s = "s\<lparr>g_mode_config := c, g_acl_entries := map rule_entry rules\<rparr>"
  have m: "\<not> g_mode_mutex s" using mode_wf_free [OF assms(1)] .
  have "config_entries F strtod inet_addr (settings_lines c @ map (\<lambda>r. (''acl_allow'', rule_text r)) rules) s = Inr ?s"
    unfolding config_entries_append settings_read [OF assms(4,5)] bindR_simps
    using rules_read [of "s\<lparr>g_mode_config := c\<rparr>" rules inet_addr F strtod] m assms(2,3,6) by simp
  then have "mode_handler_parse_config F strtod inet_addr files (Some name) s = Inr (0, ?s)"
    using mode_file_entries [OF assms(4), of rules inet_addr F strtod s] assms(6,7)
    by (simp add: mode_handler_parse_config_def)
  moreover have "acl_get_client_flags inet_addr (Some client) ?s = Inr (granted (acl_default_policy c) rules x, ?s)"
    if "inet_addr client = htonl x" "x \<noteq> 0" for client x
    using granted_flags [of ?s rules inet_addr client x] m assms(6) that by (simp add: rule_ok_def)
  ultimately show ?thesis by (intro exI [of _ ?s]) simp
qed

text \<open>The example network of the access list, with everything else refused, and a longer rate limit interval.\<close>

definition site_config :: ModeConfig where
  "site_config = default_mode_config\<lparr>rate_limit_interval := 8, enable_control_messages := 1\<rparr>"

lemma mode_file_round_trip_witness:
  "\<exists>s'. mode_handler_parse_config exact_fpu (\<lambda>s. (NaN, False, [])) site_inet
           (\<lambda>_. Some (mode_file site_config (tl site_rules))) (Some ''modes.conf'') initial_mode_state = Inr (0, s') \<and>
     g_mode_config s' = site_config \<and> acl_get_client_flags site_inet (Some ''192.168.1.200'') s' = Inr (0, s')"
proof -
  have wf: "mode_wf initial_mode_state" "g_acl_entries initial_mode_state = []" "length (tl site_rules) \<le> 256"
    "writable site_config" "max_response_ratio site_config = max_response_ratio (g_mode_config initial_mode_state)"
    by (simp_all add: mode_wf_def initial_mode_state_def site_config_def default_mode_config_def writable_def site_rules_def)
  have "htonl 0xC0A80100 \<noteq> INADDR_NONE" by code_simp
  then have ok: "\<forall>r\<in>set (tl site_rules). rule_ok site_inet r \<and> plain_text (rule_net r) \<and> rule_flags r = 0"
    by (simp add: site_rules_def rule_ok_def site_inet_def plain_text_def is_space_def)
  have "covers 0xC0A801C8 (site_rules ! 1)" by (simp add: site_rules_def covers_def drop_bit_eq_div)
  then have "granted p (tl site_rules) 0xC0A801C8 = 0" for p by (simp add: granted_def site_rules_def)
  moreover have "site_inet ''192.168.1.200'' = htonl 0xC0A801C8" by (simp add: site_inet_def)
  ultimately show ?thesis
    using mode_file_round_trip [OF wf ok, of "\<lambda>_. Some (mode_file site_config (tl site_rules))" "''modes.conf''" exact_fpu
        "\<lambda>s. (NaN, False, [])"] by fastforce
qed

end
