(* ===== verification/CommandLine.thy ===== *)
theory CommandLine
  imports Cli "HOL-Library.Multiset"
begin

section \<open>Configurations as command lines (config.c)\<close>

text \<open>
  What \<open>parse_arguments\<close> is the inverse of: a configuration is a collection of settings, each of which has its words on
  the command line. Applying the settings is what the parser does with the words, in any order.
\<close>

datatype setting =
    SetConfig string
  | SetPid string
  | SetLog string
  | SetUser string
  | SetInterface string
  | SetForeground
  | SetNoDaemonize
  | SetDebug nat
  | SetTimeout nat
  | SetQuit
  | SetIpv4
  | SetIpv6
  | SetBroadcast
  | SetBroadcastAddr string

fun words :: "setting \<Rightarrow> string list" where
  "words (SetConfig f) = [''--config='' @ f]"
| "words (SetPid f) = [''--pid='' @ f]"
| "words (SetLog f) = [''--log='' @ f]"
| "words (SetUser u) = [''-u'', u]"
| "words (SetInterface i) = [''--interface='' @ i]"
| "words SetForeground = [''-f'']"
| "words SetNoDaemonize = [''-n'']"
| "words (SetDebug n) = [''-D'', decimal n]"
| "words (SetTimeout n) = [''-t'', decimal n]"
| "words SetQuit = [''-q'']"
| "words SetIpv4 = [''-4'']"
| "words SetIpv6 = [''-6'']"
| "words SetBroadcast = [''-b'']"
| "words (SetBroadcastAddr a) = [''-B='' @ a]"

fun apply_setting :: "setting \<Rightarrow> CliConfig \<Rightarrow> CliConfig" where
  "apply_setting (SetConfig f) c = c\<lparr>config_file := Some f\<rparr>"
| "apply_setting (SetPid f) c = c\<lparr>pid_file := Some f\<rparr>"
| "apply_setting (SetLog f) c = c\<lparr>log_file := Some f\<rparr>"
| "apply_setting (SetUser u) c = c\<lparr>run_user := UserName u\<rparr>"
| "apply_setting (SetInterface i) c = c\<lparr>iface := Some i\<rparr>"
| "apply_setting SetForeground c = c\<lparr>foreground := 1\<rparr>"
| "apply_setting SetNoDaemonize c = c\<lparr>no_daemonize := 1\<rparr>"
| "apply_setting (SetDebug n) c = c\<lparr>debug_level := int n\<rparr>"
| "apply_setting (SetTimeout n) c = c\<lparr>timeout_sec := int n\<rparr>"
| "apply_setting SetQuit c = c\<lparr>quit_after_sync := 1\<rparr>"
| "apply_setting SetIpv4 c = c\<lparr>family_preference := 1\<rparr>"
| "apply_setting SetIpv6 c = c\<lparr>family_preference := 2\<rparr>"
| "apply_setting SetBroadcast c = c\<lparr>broadcast_mode := 1\<rparr>"
| "apply_setting (SetBroadcastAddr a) c = c\<lparr>broadcast_addr := Some a\<rparr>"

fun admissible :: "setting \<Rightarrow> bool" where
  "admissible (SetUser u) \<longleftrightarrow> u = [] \<or> hd u \<noteq> CHR ''-''"
| "admissible (SetDebug n) \<longleftrightarrow> n \<le> 3"
| "admissible (SetTimeout n) \<longleftrightarrow> 1 \<le> n \<and> n \<le> 86400"
| "admissible (SetBroadcastAddr a) \<longleftrightarrow> length a \<le> 15"
| "admissible _ \<longleftrightarrow> True"

lemma parse_decimal:
  assumes "lo \<le> int n" "int n \<le> hi" "hi < 2 ^ 62"
  shows "parse_positive_int (Some (decimal n)) lo hi = Some (int n)"
proof -
  note d = decimal_digits [of n]
  have ne: "decimal n \<noteq> []" "[] \<noteq> decimal n" using d by auto
  have "digits_val (decimal n) < 2 ^ 63" using assms d by simp
  then have "strtoll (decimal n) = (int n, False, [])" using strtoll_digits [of "decimal n"] d by simp
  then show "parse_positive_int (Some (decimal n)) lo hi = Some (int n)"
    using assms ne by (simp add: parse_positive_int_def)
qed

lemma opt_value_decimal: "opt_value (decimal n # rest) = Some (decimal n, rest)"
proof -
  have "is_digit (hd (decimal n))" using decimal_digits [of n] by simp
  then have "hd (decimal n) \<noteq> CHR ''-''" by (auto simp: is_digit_def)
  then show ?thesis by (simp add: opt_value_def)
qed

text \<open>The words of a setting set it, unless the other address family has been asked for.\<close>

lemmas arg_defs = parse_arg_def starts_def strn_eq_def

lemma words_parsed:
  assumes "admissible s" "s = SetIpv4 \<Longrightarrow> family_preference c \<noteq> 2" "s = SetIpv6 \<Longrightarrow> family_preference c \<noteq> 1"
  shows "parse_args (words s @ rest) c = parse_args rest (apply_setting s c)"
proof (cases s)
  case (SetUser u)
  then have "opt_value (u # rest) = Some (u, rest)" using assms(1) by (simp add: opt_value_def)
  then show ?thesis by (simp add: SetUser arg_defs string_opt_def)
next
  case (SetDebug n)
  then show ?thesis using assms(1) by (simp add: arg_defs int_opt_def opt_value_decimal parse_decimal)
next
  case (SetTimeout n)
  then show ?thesis using assms(1) by (simp add: arg_defs int_opt_def opt_value_decimal parse_decimal)
qed (use assms in \<open>simp_all add: arg_defs\<close>)

lemma settings_parsed:
  assumes "\<forall>s\<in>set ss. admissible s" "SetIpv4 \<in> set ss \<Longrightarrow> SetIpv6 \<notin> set ss \<and> family_preference c \<noteq> 2"
    "SetIpv6 \<in> set ss \<Longrightarrow> family_preference c \<noteq> 1"
  shows "parse_args (concat (map words ss)) c = (0, fold apply_setting ss c)"
  using assms
proof (induction ss arbitrary: c)
  case (Cons s ss)
  have "family_preference (apply_setting s c) =
      (if s = SetIpv4 then 1 else if s = SetIpv6 then 2 else family_preference c)"
    by (cases s) simp_all
  then have "parse_args (concat (map words ss)) (apply_setting s c) = (0, fold apply_setting ss (apply_setting s c))"
    using Cons.prems by (intro Cons.IH) auto
  then show ?case using Cons.prems words_parsed [of s c "concat (map words ss)"] by auto
qed simp

subsection \<open>The order of the settings\<close>

fun kind :: "setting \<Rightarrow> nat" where
  "kind (SetConfig _) = 0" | "kind (SetPid _) = 1" | "kind (SetLog _) = 2" | "kind (SetUser _) = 3"
| "kind (SetInterface _) = 4" | "kind SetForeground = 5" | "kind SetNoDaemonize = 6" | "kind (SetDebug _) = 7"
| "kind (SetTimeout _) = 8" | "kind SetQuit = 9" | "kind SetIpv4 = 10" | "kind SetIpv6 = 10"
| "kind SetBroadcast = 11" | "kind (SetBroadcastAddr _) = 12"

lemma settings_commute:
  "kind s \<noteq> kind t \<Longrightarrow> apply_setting s \<circ> apply_setting t = apply_setting t \<circ> apply_setting s"
  by (cases s; cases t) (simp_all add: fun_eq_iff)

lemma settings_any_order:
  assumes "mset ss = mset ts" "\<forall>s\<in>set ts. \<forall>t\<in>set ts. s = t \<or> kind s \<noteq> kind t"
  shows "fold apply_setting ss = fold apply_setting ts"
proof (rule fold_multiset_equiv [OF _ assms(1)])
  fix s t assume "s \<in> set ss" "t \<in> set ss"
  then have "s = t \<or> kind s \<noteq> kind t" using assms by (metis set_mset_mset)
  then show "apply_setting s \<circ> apply_setting t = apply_setting t \<circ> apply_setting s"
    using settings_commute by auto
qed

subsection \<open>The settings of a configuration\<close>

text \<open>What can be said on a command line: the broadcast interval only comes from the configuration file.\<close>

definition expressible :: "CliConfig \<Rightarrow> bool" where
  "expressible c \<longleftrightarrow> cli_wf c \<and> config_file c \<noteq> None \<and> pid_file c \<noteq> None \<and> run_user c \<noteq> PastEnd \<and>
     (\<forall>u. run_user c = UserName u \<longrightarrow> u = [] \<or> hd u \<noteq> CHR ''-'') \<and>
     {foreground c, no_daemonize c, quit_after_sync c, broadcast_mode c} \<subseteq> {0, 1} \<and> broadcast_interval c = 64"

definition settings_of :: "CliConfig \<Rightarrow> setting list" where
  "settings_of c =
     [SetConfig (the (config_file c)), SetPid (the (pid_file c)), SetDebug (nat (debug_level c)),
      SetTimeout (nat (timeout_sec c))] @
     (case log_file c of None \<Rightarrow> [] | Some f \<Rightarrow> [SetLog f]) @
     (case run_user c of UserName u \<Rightarrow> [SetUser u] | _ \<Rightarrow> []) @
     (case iface c of None \<Rightarrow> [] | Some i \<Rightarrow> [SetInterface i]) @
     (if foreground c = 0 then [] else [SetForeground]) @
     (if no_daemonize c = 0 then [] else [SetNoDaemonize]) @
     (if quit_after_sync c = 0 then [] else [SetQuit]) @
     (if family_preference c = 1 then [SetIpv4] else if family_preference c = 2 then [SetIpv6] else []) @
     (if broadcast_mode c = 0 then [] else [SetBroadcast]) @
     (case broadcast_addr c of None \<Rightarrow> [] | Some a \<Rightarrow> [SetBroadcastAddr a])"

fun said :: "CliConfig \<Rightarrow> setting \<Rightarrow> bool" where
  "said c (SetConfig f) \<longleftrightarrow> f = the (config_file c)" | "said c (SetPid f) \<longleftrightarrow> f = the (pid_file c)"
| "said c (SetLog f) \<longleftrightarrow> log_file c = Some f" | "said c (SetUser u) \<longleftrightarrow> run_user c = UserName u"
| "said c (SetInterface i) \<longleftrightarrow> iface c = Some i" | "said c SetForeground \<longleftrightarrow> foreground c \<noteq> 0"
| "said c SetNoDaemonize \<longleftrightarrow> no_daemonize c \<noteq> 0" | "said c (SetDebug n) \<longleftrightarrow> n = nat (debug_level c)"
| "said c (SetTimeout n) \<longleftrightarrow> n = nat (timeout_sec c)" | "said c SetQuit \<longleftrightarrow> quit_after_sync c \<noteq> 0"
| "said c SetIpv4 \<longleftrightarrow> family_preference c = 1" | "said c SetIpv6 \<longleftrightarrow> family_preference c = 2"
| "said c SetBroadcast \<longleftrightarrow> broadcast_mode c \<noteq> 0" | "said c (SetBroadcastAddr a) \<longleftrightarrow> broadcast_addr c = Some a"

lemma in_parts:
  "x \<in> set (case p of None \<Rightarrow> [] | Some f \<Rightarrow> [g f]) \<longleftrightarrow> (\<exists>f. p = Some f \<and> x = g f)"
  "x \<in> set (case r of UserName u \<Rightarrow> [h u] | _ \<Rightarrow> []) \<longleftrightarrow> (\<exists>u. r = UserName u \<and> x = h u)"
  "x \<in> set (if b then [] else [y]) \<longleftrightarrow> \<not> b \<and> x = y"
  "x \<in> set (if b then [y] else if b' then [z] else []) \<longleftrightarrow> b \<and> x = y \<or> \<not> b \<and> b' \<and> x = z"
  by (auto split: option.split user_name.split)

lemma in_settings_of: "s \<in> set (settings_of c) \<longleftrightarrow> said c s"
  unfolding settings_of_def set_append Un_iff in_parts by (cases s) auto

lemma folded_parts:
  "fold apply_setting (case p of None \<Rightarrow> [] | Some f \<Rightarrow> [SetLog f]) d = d\<lparr>log_file := (case p of None \<Rightarrow> log_file d | Some f \<Rightarrow> Some f)\<rparr>"
  "fold apply_setting (case r of UserName u \<Rightarrow> [SetUser u] | _ \<Rightarrow> []) d =
     d\<lparr>run_user := (case r of UserName u \<Rightarrow> UserName u | _ \<Rightarrow> run_user d)\<rparr>"
  "fold apply_setting (case p of None \<Rightarrow> [] | Some f \<Rightarrow> [SetInterface f]) d = d\<lparr>iface := (case p of None \<Rightarrow> iface d | Some f \<Rightarrow> Some f)\<rparr>"
  "fold apply_setting (if b then [] else [SetForeground]) d = d\<lparr>foreground := (if b then foreground d else 1)\<rparr>"
  "fold apply_setting (if b then [] else [SetNoDaemonize]) d = d\<lparr>no_daemonize := (if b then no_daemonize d else 1)\<rparr>"
  "fold apply_setting (if b then [] else [SetQuit]) d = d\<lparr>quit_after_sync := (if b then quit_after_sync d else 1)\<rparr>"
  "fold apply_setting (if b then [SetIpv4] else if b' then [SetIpv6] else []) d =
     d\<lparr>family_preference := (if b then 1 else if b' then 2 else family_preference d)\<rparr>"
  "fold apply_setting (if b then [] else [SetBroadcast]) d = d\<lparr>broadcast_mode := (if b then broadcast_mode d else 1)\<rparr>"
  "fold apply_setting (case p of None \<Rightarrow> [] | Some f \<Rightarrow> [SetBroadcastAddr f]) d =
     d\<lparr>broadcast_addr := (case p of None \<Rightarrow> broadcast_addr d | Some f \<Rightarrow> Some f)\<rparr>"
  by (cases d; simp split: option.split user_name.split)+

lemma settings_of_facts:
  assumes "expressible c"
  shows "\<forall>s\<in>set (settings_of c). admissible s" "\<forall>s\<in>set (settings_of c). \<forall>t\<in>set (settings_of c). s = t \<or> kind s \<noteq> kind t"
    "SetIpv4 \<in> set (settings_of c) \<Longrightarrow> SetIpv6 \<notin> set (settings_of c)"
    "fold apply_setting (settings_of c) default_cli = c"
proof -
  have "admissible s" if "said c s" for s
    using assms that by (cases s) (auto simp: expressible_def cli_wf_def)
  then show "\<forall>s\<in>set (settings_of c). admissible s" by (simp add: in_settings_of)
  have "s = t \<or> kind s \<noteq> kind t" if "said c s" "said c t" for s t
    using that by (cases s; cases t) simp_all
  then show "\<forall>s\<in>set (settings_of c). \<forall>t\<in>set (settings_of c). s = t \<or> kind s \<noteq> kind t" by (simp add: in_settings_of)
  show "SetIpv4 \<in> set (settings_of c) \<Longrightarrow> SetIpv6 \<notin> set (settings_of c)" by (simp add: in_settings_of)
  have v: "foreground c = 0 \<or> foreground c = 1" "no_daemonize c = 0 \<or> no_daemonize c = 1" "quit_after_sync c = 0 \<or> quit_after_sync c = 1"
    "broadcast_mode c = 0 \<or> broadcast_mode c = 1" "family_preference c = 0 \<or> family_preference c = 1 \<or> family_preference c = 2"
    "0 \<le> debug_level c" "1 \<le> timeout_sec c" "broadcast_interval c = 64"
    "\<exists>f. config_file c = Some f" "\<exists>f. pid_file c = Some f" "run_user c \<noteq> PastEnd"
    using assms by (auto simp: expressible_def cli_wf_def)
  show "fold apply_setting (settings_of c) default_cli = c"
    unfolding settings_of_def fold_append comp_apply folded_parts
    by (rule CliConfig.equality) (use v in \<open>auto simp: default_cli_def split: option.split user_name.split\<close>)
qed

text \<open>
  C37: every configuration that can be said on a command line is what the parser makes of its words, in
  whatever order the settings are given.
\<close>

theorem command_line_round_trip:
  assumes "expressible c" "mset ss = mset (settings_of c)"
  shows "parse_arguments (prog # concat (map words ss)) default_cli = (0, c)"
proof -
  note f = settings_of_facts [OF assms(1)]
  have s: "set ss = set (settings_of c)" using assms(2) by (metis set_mset_mset)
  have "parse_args (concat (map words ss)) default_cli = (0, fold apply_setting ss default_cli)"
    by (rule settings_parsed) (use f(1,3) in \<open>auto simp: s default_cli_def\<close>)
  then show ?thesis
    using settings_any_order [OF assms(2) f(2)] f(4) by (simp add: parse_arguments_def)
qed

lemma command_line_round_trip_witness:
  "parse_arguments [''dntpd'', ''-u'', ''ntp'', ''-t'', decimal 60, ''-6'', ''-D'', decimal 0,
     ''--pid=/var/run/dntpd.pid'', ''--config=ntp.conf''] default_cli =
   (0, default_cli\<lparr>config_file := Some ''ntp.conf'', run_user := UserName ''ntp'', timeout_sec := 60,
     family_preference := 2\<rparr>)"
  using command_line_round_trip [of "default_cli\<lparr>config_file := Some ''ntp.conf'', run_user := UserName ''ntp'',
      timeout_sec := 60, family_preference := 2\<rparr>"
      "[SetUser ''ntp'', SetTimeout 60, SetIpv6, SetDebug 0, SetPid ''/var/run/dntpd.pid'', SetConfig ''ntp.conf'']"
      "''dntpd''"]
  by (simp add: expressible_def settings_of_def cli_wf_def default_cli_def)

end
