(* ===== verification/Serving.thy ===== *)
theory Serving
  imports Server Runs
begin

section \<open>Requests over time\<close>

text \<open>
  \<open>handle_client_request\<close> (src/socket.c) starts one
  \<open>handle_peer_request_thread\<close> per request; here they are handled one after another, each
  with its own clock readings and network. The rate limit table of src/mode_handler.c is shown
  to implement an unbounded map from addresses to the time of the last answer while at most
  1024 addresses are served, and to forget when there are more.
\<close>

subsection \<open>What the request handler does to the tables\<close>

record arrival =
  ar_env :: net_env
  ar_now :: int
  ar_clk :: "timespec option"
  ar_t2 :: "timespec option"
  ar_t3 :: "timespec option"
  ar_pkt0 :: NtpPacket
  ar_req :: PeerRequestData

definition serve :: "fpu \<Rightarrow> arrival \<Rightarrow> daemon \<Rightarrow> (req_out \<times> daemon) run" where
  "serve F a d = handle_peer_request_thread F (ar_env a) (ar_now a) (ar_clk a) (ar_t2 a) (ar_t3 a)
     (ar_pkt0 a) (ar_req a) d"

definition ar_addr :: "arrival \<Rightarrow> u32" where
  "ar_addr a = ne_inet_addr (ar_env a) (rq_ip (ar_req a))"

definition got_reply :: "req_out \<Rightarrow> bool" where
  "got_reply out \<longleftrightarrow> out_reply out \<noteq> None"

definition mode_after :: "net_env \<Rightarrow> int \<Rightarrow> string \<Rightarrow> req_out \<Rightarrow> mode_state \<Rightarrow> mode_state" where
  "mode_after E now ip out s =
     (if got_reply out then rate_limit_update (ne_inet_addr E) now (Some ip) s else s)"

text \<open>
  \<open>records E now ip s m\<close>: when \<open>m\<close> returns, the tables are those of \<open>s\<close>, updated for the
  client if it has got a reply. The rules follow the code.
\<close>

definition records :: "net_env \<Rightarrow> int \<Rightarrow> string \<Rightarrow> mode_state \<Rightarrow> (req_out \<times> daemon) run \<Rightarrow> bool" where
  "records E now ip s m \<longleftrightarrow> (\<forall>out d'. m = Inr (out, d') \<longrightarrow> g_mode d' = mode_after E now ip out s)"

lemma records_ends:
  "g_mode d = s \<Longrightarrow> records E now ip s (refused d)"
  "g_mode d = s \<Longrightarrow> records E now ip s (leaked d)"
  by (auto simp: records_def refused_def leaked_def mode_after_def got_reply_def)

lemma records_if: "records E now ip s a \<Longrightarrow> records E now ip s b \<Longrightarrow> records E now ip s (if c then a else b)"
  by simp

lemma records_bind:
  "(\<And>x d'. m = Inr (x, d') \<Longrightarrow> records E now ip s (k (x, d'))) \<Longrightarrow> records E now ip s (bindR m k)"
  by (fastforce simp: records_def bindR_eq_Inr_iff)

text \<open>The checks and the reads of the mode handler change nothing.\<close>

lemma default_reads:
  "mode_get_default_stratum b x s = Inr (r, s') \<Longrightarrow> s' = s"
  "mode_get_default_ref_id b y s = Inr (r', s') \<Longrightarrow> s' = s"
  "mode_get_default_li b x s = Inr (r, s') \<Longrightarrow> s' = s"
  by (auto simp: mode_get_default_stratum_def mode_get_default_ref_id_def mode_get_default_li_def
      dest: mode_section_reads)

lemma checks_keep:
  "on_mode (mode_get_default_stratum b x) d = Inr (r, d') \<Longrightarrow> d' = d"
  "on_mode (mode_get_default_ref_id b y) d = Inr (r', d') \<Longrightarrow> d' = d"
  "on_mode (mode_get_default_li b x) d = Inr (r, d') \<Longrightarrow> d' = d"
  "on_mode (acl_check_client i c m) d = Inr (n, d') \<Longrightarrow> d' = d"
  "on_mode (rate_limit_check i now c) d = Inr (n, d') \<Longrightarrow> d' = d"
  "on_mode (validate_packet_mode F m p q) d = Inr (n, d') \<Longrightarrow> d' = d"
  "on_mode (validate_packet_authentication buf sz) d = Inr (n, d') \<Longrightarrow> d' = d"
  by (erule on_mode_pure [THEN conjunct1],
      erule default_reads acl_check_pure rate_check_pure ratio_check_pure auth_check_pure)+

lemma build_response_mode:
  assumes "build_response m pkt t2 t3 d = Inr (r, d')"
  shows "g_mode d' = g_mode d"
proof -
  obtain v where "read_system_variables d = Inr (v, d')"
    using assms by (auto simp: build_response_def bindR_eq_Inr_iff)
  then show ?thesis
    by (auto simp: read_system_variables_def with_g_mutex_def with_mutex_def bindR_eq_Inr_iff
        dest!: checks_keep split: if_splits)
qed

lemma broadcast_mode_frame: "send_broadcast_response E now r d = (x, bc, d') \<Longrightarrow> g_mode d' = g_mode d"
  by (auto simp: send_broadcast_response_def Let_def split: if_splits)

lemma leap_indicator_mode: "handle_leap_indicator clk now li d = Inr (r, d') \<Longrightarrow> g_mode d' = g_mode d"
  by (auto simp: handle_leap_indicator_def leap_second_schedule_event_def with_g_leap_mutex_def
      with_mutex_def bindR_eq_Inr_iff Let_def split: if_splits)

lemma send_reply_records: "records E now ip (g_mode d) (send_reply E now t2 t3 m pkt ip port d)"
proof -
  have "g_mode d' = mode_after E now ip out (g_mode d)"
    if h: "send_reply E now t2 t3 m pkt ip port d = Inr (out, d')" for out d'
  proof -
    obtain r d1 where b: "build_response m pkt t2 t3 d = Inr (r, d1)"
      using h by (auto simp: send_reply_def bindR_eq_Inr_iff)
    obtain p e rest where s: "strtoul port = (p, e, rest)" by (metis surj_pair)
    obtain ret a where n: "network4_parse_address (ne_inet_pton E) (Some ip) (word_of_int p) = (ret, a)"
      by (metis surj_pair)
    obtain x bc d2 where c: "(if m = NTP_MODE_BROADCAST then send_broadcast_response E now r d1
        else (0, None, d1)) = (x, bc, d2)" by (metis surj_pair)
    have "g_mode d2 = g_mode d1" using c broadcast_mode_frame by (auto split: if_splits)
    then show ?thesis
      using h b s n c build_response_mode [OF b]
      by (auto simp: send_reply_def leaked_def Let_def mode_after_def got_reply_def split: if_splits)
  qed
  then show ?thesis by (simp add: records_def)
qed

lemma send_reply_records':
  "g_mode d = s \<Longrightarrow> records E now ip s (send_reply E now t2 t3 m pkt ip port d)"
  using send_reply_records by blast

lemma answer_request_records:
  "g_mode d = s \<Longrightarrow> records E now (rq_ip rq) s (answer_request F E now clk t2 t3 pkt rq d)"
  unfolding answer_request_def Let_def
  by (auto simp: split_def intro!: records_if records_ends send_reply_records' records_bind
      dest!: checks_keep leap_indicator_mode)

lemma request_records:
  "records E now (rq_ip rq) (g_mode d) (handle_peer_request_thread F E now clk t2 t3 pkt0 rq d)"
  unfolding handle_peer_request_thread_def Let_def
  by (auto simp: split_def intro!: records_if records_ends answer_request_records records_bind
      dest!: checks_keep config_read_pure)

lemma serve_mode:
  "serve F a d = Inr (out, d') \<Longrightarrow>
     g_mode d' = mode_after (ar_env a) (ar_now a) (rq_ip (ar_req a)) out (g_mode d)"
  using request_records by (auto simp: serve_def records_def)

subsection \<open>The handler as a rate limiter\<close>

lemma dom_last_request: "dom (\<lambda>k. last_request k s) = rl_ip ` set (g_rate_limit_entries s)"
  by (auto simp: last_request_def rl.lookup_None_iff dom_def)

lemma card_last_request:
  "mode_wf s \<Longrightarrow> card (dom (\<lambda>k. last_request k s)) = length (g_rate_limit_entries s)"
  unfolding dom_last_request by (metis distinct_card length_map list.set_map mode_wf_def)

lemma checked_late:
  assumes "rate_limit_check i now (Some c) s = Inr (0, s)" "mode_wf s" "i c \<noteq> 0"
    "last_request (i c) s = Some t"
  shows "uint (rate_limit_interval (g_mode_config s)) \<le> now - t"
  using assms
  by (auto simp: rate_limit_check_def with_g_mode_mutex_free mode_wf_def rate_limit_find_def parse_ip_def
      last_request_find bindR_eq_Inr_iff i64_def split: option.splits if_splits)

lemma update_keeps_config: "g_mode_config (rate_limit_update i now c s) = g_mode_config s"
  by (simp add: rate_limit_update_def rate_limit_insert_def Let_def split: option.split)

lemma answered_client:
  assumes "serve F a d = Inr (out, d')" "got_reply out"
  shows "ar_addr a \<noteq> 0"
    "rate_limit_check (ne_inet_addr (ar_env a)) (ar_now a) (Some (rq_ip (ar_req a))) (g_mode d) = Inr (0, g_mode d)"
proof -
  obtain addr resp where o: "out_reply out = Some (addr, resp)"
    using assms(2) by (auto simp: got_reply_def)
  obtain buf where "rq_buffer (ar_req a) = Some buf"
    using gateD(1) [OF assms(1) [unfolded serve_def handle_peer_request_thread_def] o] by auto
  note x = answered_conditions [OF assms(1) [unfolded serve_def] o this]
  then show "rate_limit_check (ne_inet_addr (ar_env a)) (ar_now a) (Some (rq_ip (ar_req a))) (g_mode d)
      = Inr (0, g_mode d)" by blast
  from x obtain r where r: "r \<noteq> 0" "acl_check_client (ne_inet_addr (ar_env a)) (Some (rq_ip (ar_req a)))
      (mode_of (buf ! 0)) (g_mode d) = Inr (r, g_mode d)" by blast
  then show "ar_addr a \<noteq> 0" by (auto simp: acl_check_client_def parse_ip_def ar_addr_def)
qed

interpretation sv: rate_limited "serve F" got_reply ar_addr ar_now "\<lambda>d k. last_request k (g_mode d)"
  "\<lambda>d. uint (rate_limit_interval (g_mode_config (g_mode d)))" "\<lambda>d. mode_wf (g_mode d)" 1024
  for F
proof (unfold_locales, goal_cases)
  case (2 a d out d')
  have "mode_wf (rate_limit_update (ne_inet_addr (ar_env a)) (ar_now a) (Some (rq_ip (ar_req a))) (g_mode d))"
    if "got_reply out"
    using rate_limit_update_laws [OF 2(2) refl _ refl] answered_client(1) [OF 2(1) that]
    by (simp add: ar_addr_def)
  then show ?case using 2(2) by (simp add: serve_mode [OF 2(1)] mode_after_def update_keeps_config)
next
  case (3 a d out d' t)
  then show ?case
    using checked_late [OF answered_client(2) [OF 3(1,3)] 3(2)] answered_client(1) [OF 3(1,3)]
    by (simp add: ar_addr_def)
next
  case (4 a d out d')
  let ?s = "g_mode d"
  have room: "length (g_rate_limit_entries ?s) \<noteq> 1024" if "last_request (ar_addr a) ?s = None"
    using 4(4,5) that card_last_request [OF 4(2)] by (simp add: domIff)
  show ?case
    using room rate_limit_update_laws [OF 4(2), of "ne_inet_addr (ar_env a)" "rq_ip (ar_req a)" "ar_addr a"]
      answered_client(1) [OF 4(1,3)] 4(3)
    by (auto simp: serve_mode [OF 4(1)] mode_after_def ar_addr_def fun_eq_iff)
next
  case (5 a d out d')
  then show ?case by (simp add: serve_mode [OF 5(1)] mode_after_def)
qed simp_all

text \<open>
  C7: the rate limit over time. However the requests of at most 1024 addresses come, from a
  state with an empty table, and whatever the clock says at each, two answers to one address
  are at least the configured interval apart.
\<close>

theorem answers_to_one_address_are_spaced:
  assumes "run_all (serve F) as d = Inr (outs, e)" "mode_wf (g_mode d)" "g_rate_limit_entries (g_mode d) = []"
    and "card (ar_addr ` set as) \<le> 1024"
    and "i < j" "j < length as" "out_reply (outs ! i) \<noteq> None" "out_reply (outs ! j) \<noteq> None"
      "ar_addr (as ! i) = ar_addr (as ! j)"
  shows "uint (rate_limit_interval (g_mode_config (g_mode d))) \<le> ar_now (as ! j) - ar_now (as ! i)"
proof -
  have "dom (\<lambda>k. last_request k (g_mode d)) = {}" using assms(3) by (simp add: dom_last_request)
  then show ?thesis
    using sv.answers_are_spaced [OF assms(1,2) _ _ assms(5,6) _ _ assms(9)] assms(4,7,8)
    by (simp add: got_reply_def)
qed

text \<open>
  C39: the table of the rate limit refines a map without a bound. While at most 1024 addresses ask, what the
  table knows of any address after a run is what a map knows that is updated by every answer, in order.
\<close>

theorem rate_limit_table_refines_map:
  assumes "run_all (serve F) as d = Inr (outs, e)" "mode_wf (g_mode d)" "g_rate_limit_entries (g_mode d) = []"
    and "card (ar_addr ` set as) \<le> 1024"
  shows "(\<lambda>k. last_request k (g_mode e)) =
    fold (\<lambda>(a, out) m. if out_reply out \<noteq> None then m(ar_addr a \<mapsto> ar_now a) else m) (zip as outs) Map.empty"
proof -
  have none: "last_request k (g_mode d) = None" for k using assms(3) by (simp add: last_request_find)
  then have "dom (\<lambda>k. last_request k (g_mode d)) = {}" by simp
  then show ?thesis
    using sv.run_records [OF assms(1,2)] assms(4) none by (simp add: got_reply_def)
qed

text \<open>One client of the example network asks twice, two seconds apart.\<close>

definition lan_arrival :: "int \<Rightarrow> arrival" where
  "lan_arrival now = \<lparr>ar_env = lan_env, ar_now = now, ar_clk = None, ar_t2 = None, ar_t3 = None,
     ar_pkt0 = zero_packet, ar_req = lan_request\<rparr>"

abbreviation lan_update :: "int \<Rightarrow> daemon \<Rightarrow> daemon" where
  "lan_update now d \<equiv> d\<lparr>g_mode := rate_limit_update toy_inet now (Some ''192.168.1.23'') (g_mode d)\<rparr>"

lemma lan_answer:
  assumes "unlocked d" "g_mode_config (g_mode d) = default_mode_config"
    "served lan_env now ''192.168.1.23'' NTP_MODE_CLIENT (g_mode d)"
  shows "\<exists>out. serve exact_fpu (lan_arrival now) d = Inr (out, lan_update now d) \<and> out_reply out \<noteq> None"
proof -
  have req: "create_ntp_request (Some (replicate 48 0)) 6 0xEC None
      = Inr (Some (the (rq_buffer lan_request)), Some (ntp_timestamp_now None))"
    by (subst create_ntp_request_eq) (simp_all add: lan_request_def ntp_timestamp_now_def zero_ts_def)
  have e: "ne_inet_pton lan_env ''192.168.1.23'' = Some (toy_inet ''192.168.1.23'')"
    "0 \<le> ne_sock lan_env AF_INET" "ne_send_ok lan_env" and i: "ne_inet_addr lan_env = toy_inet"
    by (simp_all only: lan_env_def net_env.simps)
  have l: "''192.168.1.23'' \<noteq> []" "''5000'' \<noteq> []" "(5000 :: int) \<le> 65535"
    "length (replicate 48 0 :: u8 list) = 48" "lan_request = \<lparr>rq_buffer = Some (the (rq_buffer lan_request)),
       rq_size = 48, rq_ip = ''192.168.1.23'', rq_port = ''5000''\<rparr>"
    by (simp_all add: lan_request_def)
  note exchange_ok [OF assms(1) exact_fpu_ok assms(2) l(4) req
      l(5) l(1,2) port_5000 l(3) e assms(3) zero_packet_not_kod zero_packet_not_kod,
      of None None None ido_zero, unfolded i]
  then obtain resp where
    "handle_peer_request_thread exact_fpu lan_env now None None None zero_packet lan_request d =
      Inr (\<lparr>out_reply = Some (\<lparr>sin_port = htons (word_of_int 5000), sin_addr = toy_inet ''192.168.1.23''\<rparr>, resp),
             out_broadcast = None, out_freed = True\<rparr>, lan_update now d)"
    by (elim exE conjE)
  then have "serve exact_fpu (lan_arrival now) d =
      Inr (\<lparr>out_reply = Some (\<lparr>sin_port = htons (word_of_int 5000), sin_addr = toy_inet ''192.168.1.23''\<rparr>, resp),
             out_broadcast = None, out_freed = True\<rparr>, lan_update now d)"
    by (simp only: serve_def lan_arrival_def arrival.simps)
  then show ?thesis by (intro exI conjI) (assumption, simp only: req_out.simps, simp)
qed

lemma lan_update_facts:
  assumes "unlocked d" "mode_wf (g_mode d)"
  shows "unlocked (lan_update now d)" "mode_wf (g_mode (lan_update now d))"
    "g_mode_config (g_mode (lan_update now d)) = g_mode_config (g_mode d)"
    "g_acl_entries (g_mode (lan_update now d)) = g_acl_entries (g_mode d)"
    "last_request (toy_inet ''192.168.1.23'') (g_mode (lan_update now d)) = Some now"
proof -
  have "toy_inet ''192.168.1.23'' \<noteq> 0" by (simp add: toy_inet_def htonl_def u32_of_bytes_def)
  note rate_limit_update_laws [of "g_mode d" toy_inet "''192.168.1.23''" "toy_inet ''192.168.1.23''" _ now
      "toy_inet ''192.168.1.23''", OF assms(2) refl this refl]
  then   show m: "mode_wf (g_mode (lan_update now d))"
    and "last_request (toy_inet ''192.168.1.23'') (g_mode (lan_update now d)) = Some now" by simp_all
  from m show "unlocked (lan_update now d)" using assms(1) by (simp add: unlocked_def mode_wf_def)
  show "g_mode_config (g_mode (lan_update now d)) = g_mode_config (g_mode d)"
    by (simp add: update_keeps_config)
  show "g_acl_entries (g_mode (lan_update now d)) = g_acl_entries (g_mode d)"
    by (simp add: rate_limit_update_def rate_limit_insert_def Let_def split: option.split)
qed

lemma served_daemon_tables: "mode_wf (g_mode served_daemon)" "g_rate_limit_entries (g_mode served_daemon) = []"
  by (simp_all add: served_daemon_def initial_mode_state_def initial_daemon_def mode_wf_def)

lemma lan_addr: "ar_addr (lan_arrival t) = toy_inet ''192.168.1.23''"
  by (simp only: ar_addr_def lan_arrival_def arrival.simps lan_env_def net_env.simps lan_request_def
      PeerRequestData.simps)

lemma two_answers:
  obtains out1 out2 e where
    "run_all (serve exact_fpu) [lan_arrival 1000, lan_arrival 1002] served_daemon = Inr ([out1, out2], e)"
    "out_reply out1 \<noteq> None" "out_reply out2 \<noteq> None"
proof -
  note wf = served_daemon_tables
  note f = lan_update_facts [OF served_daemon_props(1) wf(1), of 1000]
  obtain out1 where a1: "serve exact_fpu (lan_arrival 1000) served_daemon = Inr (out1, lan_update 1000 served_daemon)"
      "out_reply out1 \<noteq> None"
    using lan_answer [OF served_daemon_props(1,2) lan_client_served] by blast
  have i: "ne_inet_addr lan_env = toy_inet" by (simp add: lan_env_def)
  have "served lan_env 1002 ''192.168.1.23'' NTP_MODE_CLIENT (g_mode (lan_update 1000 served_daemon))"
    using lan_client_served f(5)
    unfolding served_def i f(3,4) served_daemon_props(2)
    by (simp add: default_mode_config_def in_i64_def)
  then obtain out2 where a2: "serve exact_fpu (lan_arrival 1002) (lan_update 1000 served_daemon)
      = Inr (out2, lan_update 1002 (lan_update 1000 served_daemon))" "out_reply out2 \<noteq> None"
    using lan_answer [OF f(1)] f(3) served_daemon_props(2) by metis
  have run: "run_all (serve exact_fpu) [lan_arrival 1000, lan_arrival 1002] served_daemon
      = Inr ([out1, out2], lan_update 1002 (lan_update 1000 served_daemon))"
    by (simp only: run_all.simps a1(1) a2(1) bindR_simps split_conv)
  then show thesis using that a1(2) a2(2) by blast
qed

lemma answers_to_one_address_are_spaced_witness:
  "\<exists>outs e. run_all (serve exact_fpu) [lan_arrival 1000, lan_arrival 1002] served_daemon = Inr (outs, e) \<and>
     uint (rate_limit_interval (g_mode_config (g_mode served_daemon))) \<le> 1002 - 1000"
proof -
  obtain out1 out2 e where run: "run_all (serve exact_fpu) [lan_arrival 1000, lan_arrival 1002] served_daemon
      = Inr ([out1, out2], e)" "out_reply out1 \<noteq> None" "out_reply out2 \<noteq> None" using two_answers .
  have "uint (rate_limit_interval (g_mode_config (g_mode served_daemon)))
      \<le> ar_now ([lan_arrival 1000, lan_arrival 1002] ! 1) - ar_now ([lan_arrival 1000, lan_arrival 1002] ! 0)"
    by (rule answers_to_one_address_are_spaced [OF run(1) served_daemon_tables])
      (simp_all add: run(2,3) lan_addr)
  then show ?thesis using run(1) by (simp add: lan_arrival_def)
qed

lemma rate_limit_table_refines_map_witness:
  "\<exists>outs e. run_all (serve exact_fpu) [lan_arrival 1000, lan_arrival 1002] served_daemon = Inr (outs, e) \<and>
     (\<lambda>k. last_request k (g_mode e)) = [toy_inet ''192.168.1.23'' \<mapsto> 1002]"
proof -
  obtain out1 out2 e where run: "run_all (serve exact_fpu) [lan_arrival 1000, lan_arrival 1002] served_daemon
      = Inr ([out1, out2], e)" "out_reply out1 \<noteq> None" "out_reply out2 \<noteq> None" using two_answers .
  have now: "ar_now (lan_arrival t) = t" for t by (simp add: lan_arrival_def)
  have "card (ar_addr ` set [lan_arrival 1000, lan_arrival 1002]) \<le> 1024" by (simp add: lan_addr)
  from rate_limit_table_refines_map [OF run(1) served_daemon_tables this] show ?thesis
    using run by (auto simp: lan_addr now)
qed

subsection \<open>More than 1024 clients\<close>

abbreviation known :: "mode_state \<Rightarrow> u32 list" where
  "known s \<equiv> map rl_ip (g_rate_limit_entries s)"

lemma known_new:
  assumes "i c \<noteq> 0" "i c \<notin> set (known s)"
  shows "known (rate_limit_update i t (Some c) s) =
    (if 1024 \<le> length (known s) then tl (known s) else known s) @ [i c]"
proof -
  have "find_ip (i c) (g_rate_limit_entries s) = None" using assms(2) by (simp add: find_ip_None_iff)
  then show ?thesis
    unfolding rate_limit_update_eq [of i c, OF refl assms(1)] by (simp add: Let_def map_tl)
qed

lemma known_fold:
  assumes "length (known s) \<le> 1024" "distinct (known s @ map i cs)" "\<forall>c\<in>set cs. i c \<noteq> 0"
  shows "known (fold (\<lambda>c. rate_limit_update i t (Some c)) cs s) =
    drop (length (known s) + length cs - 1024) (known s @ map i cs)"
  using assms
proof (induction cs arbitrary: s)
  case (Cons c cs)
  let ?s = "rate_limit_update i t (Some c) s"
  have k: "known ?s = (if 1024 \<le> length (known s) then tl (known s) else known s) @ [i c]"
    using Cons.prems by (intro known_new) auto
  have "length (known ?s) \<le> 1024" using Cons.prems(1) by (auto simp: k)
  moreover have "distinct (known ?s @ map i cs)"
    using Cons.prems(2) by (cases "known s") (auto simp: k)
  ultimately have IH: "known (fold (\<lambda>c. rate_limit_update i t (Some c)) cs ?s) =
      drop (length (known ?s) + length cs - 1024) (known ?s @ map i cs)"
    using Cons.IH Cons.prems(3) by simp
  show ?case
  proof (cases "1024 \<le> length (known s)")
    case True
    with Cons.prems(1) obtain x xs where "known s = x # xs" "length xs = 1023"
      by (cases "known s") auto
    then show ?thesis using IH k True by simp
  next
    case False
    then show ?thesis using IH k by simp
  qed
qed simp

lemma update_keeps_mutex:
  "g_mode_mutex (fold (\<lambda>c. rate_limit_update i t (Some c)) cs s) = g_mode_mutex s"
  by (induction cs arbitrary: s)
    (simp_all add: rate_limit_update_def rate_limit_insert_def Let_def split: option.split)

text \<open>
  The bound of 1024 addresses is sharp. After answers to 1024 addresses that were not in the
  table, within one second if need be, the table has forgotten everybody else: a client whose last
  answer was a moment ago is let in again.
\<close>

theorem rate_limit_forgets:
  assumes "mode_wf s" "length cs = 1024" "distinct (map i cs)" "\<forall>c\<in>set cs. i c \<noteq> 0"
    "\<forall>c\<in>set cs. last_request (i c) s = None" "i v \<notin> i ` set cs"
    "s' = fold (\<lambda>c. rate_limit_update i t (Some c)) cs s"
  shows "last_request (i v) s' = None \<and> rate_limit_check i now (Some v) s' = Inr (0, s')"
proof -
  have "set (known s) \<inter> i ` set cs = {}"
    using assms(5) by (auto simp: last_request_def rl.lookup_None_iff)
  then have "known s' = drop (length (known s)) (known s @ map i cs)"
    using known_fold [of s i cs t] assms by (simp add: mode_wf_def)
  then have k: "known s' = map i cs" by simp
  have n: "last_request (i v) s' = None"
    using assms(6) k unfolding last_request_def
    by (metis (no_types, lifting) image_set list.set_map option.map_disc_iff rl.lookup_None_iff imageI)
  have "\<not> g_mode_mutex s'"
    using assms(1) update_keeps_mutex [of i t cs s] by (simp add: assms(7) mode_wf_def)
  with n show ?thesis
    by (auto simp: rate_limit_check_def with_g_mode_mutex_free rate_limit_find_def parse_ip_def
        last_request_find Let_def split: option.splits)
qed

text \<open>With addresses by the length of the name: 1024 names longer than the one of the client.\<close>

definition by_length :: "string \<Rightarrow> u32" where
  "by_length c = of_nat (length c)"

definition crowd :: "string list" where
  "crowd = map (\<lambda>n. replicate (n + 2) (CHR ''a'')) [0..<1024]"

lemma by_length_eq: "length c < 2000 \<Longrightarrow> unat (by_length c) = length c"
  by (simp add: by_length_def unsigned_of_nat take_bit_nat_eq_self)

lemma crowd_lengths: "c \<in> set crowd \<Longrightarrow> 2 \<le> length c \<and> length c < 2000"
  by (auto simp: crowd_def simp del: upt_rec_numeral)

lemma rate_limit_forgets_witness:
  "\<exists>s s'. rate_limit_check by_length 100 (Some ''a'') s = Inr (1, s) \<and>
     rate_limit_check by_length 100 (Some ''a'') s' = Inr (0, s') \<and>
     s' = fold (\<lambda>c. rate_limit_update by_length 100 (Some c)) crowd s"
proof -
  define s where "s = rate_limit_update by_length 100 (Some ''a'') initial_mode_state"
  have one: "by_length ''a'' = 1" by (simp add: by_length_def)
  have s: "s = initial_mode_state\<lparr>g_rate_limit_entries := [\<lparr>rl_ip = 1, rl_last_request = 100, rl_count = 1\<rparr>]\<rparr>"
    unfolding s_def by (subst rate_limit_update_eq [of _ _ 1]) (simp_all add: one initial_mode_state_def Let_def)
  have wf: "mode_wf s" by (simp add: s mode_wf_def initial_mode_state_def)
  have c: "by_length c \<noteq> 0" "by_length c \<noteq> 1" if "c \<in> set crowd" for c
    using by_length_eq [of c] crowd_lengths [OF that] by auto
  have "inj_on by_length (set crowd)"
  proof (rule inj_onI)
    fix a b assume ab: "a \<in> set crowd" "b \<in> set crowd" "by_length a = by_length b"
    then have "length a = length b" using by_length_eq crowd_lengths by metis
    then show "a = b" using ab(1,2) by (auto simp: crowd_def simp del: upt_rec_numeral)
  qed
  moreover have "distinct crowd"
    by (auto simp: crowd_def distinct_map inj_on_def simp del: upt_rec_numeral)
  ultimately have d: "distinct (map by_length crowd)" by (simp add: distinct_map)
  have "rate_limit_check by_length 100 (Some ''a'')
      (fold (\<lambda>c. rate_limit_update by_length 100 (Some c)) crowd s) =
      Inr (0, fold (\<lambda>c. rate_limit_update by_length 100 (Some c)) crowd s)"
    by (rule rate_limit_forgets [of s crowd by_length "''a''" _ 100 100, THEN conjunct2])
      (use wf d c in \<open>auto simp: one s last_request_find initial_mode_state_def crowd_def
        simp del: upt_rec_numeral\<close>)
  moreover have "rate_limit_check by_length 100 (Some ''a'') s = Inr (1, s)"
    by (simp add: rate_limit_check_def s with_g_mode_mutex_free initial_mode_state_def rate_limit_find_def
        parse_ip_def one default_mode_config_def i64_def in_i64_def)
  ultimately show ?thesis by blast
qed

end
