(* ===== verification/RateRace.thy ===== *)
theory RateRace
  imports ModeHandler
begin

section \<open>Requests at the same time\<close>

text \<open>
  \<open>handle_client_request\<close> (src/socket.c) gives every request a thread of its own, and each
  thread runs \<open>rate_limit_check\<close> before it answers and \<open>rate_limit_update\<close> after
  (src/mode_handler.c). Only the interval is read under \<open>g_mode_mutex\<close>; the table and its
  count are read and written without it. Here several requests run at the same time, one
  statement of one thread after the other in any order, with one interval for all of them: \<open>pc\<close>
  is the statement that a thread runs next, \<open>thread_step\<close> runs it, and \<open>race_run\<close> runs a schedule,
  the list of the threads that take the next statement, with what \<open>time(NULL)\<close> returns then. In ModeHandler the table
  is the array up to its count; here it is the whole array and the count, because a thread can
  take a slot that it has not filled yet.

  A thread that runs alone does what ModeHandler's functions do. Together they do more: any number
  of requests of one client pass the limit at once and each takes a slot of its own, and the
  table overflows exactly when the requests outnumber its free slots. The order in which the
  memory of the processor shows writes to the other threads is not modelled: C leaves
  accesses that race undefined, and every statement of the list is one step here.
\<close>

subsection \<open>The table and the threads\<close>

record rate_table =
  rt_entries :: "RateLimitEntry list"
  rt_count :: int

datatype pc =
    Check
  | CheckFind nat
  | CheckTime nat
  | Limited
  | Answer
  | UpdateFind nat
  | Room
  | Shift
  | Shrink
  | Take
  | SetIp nat
  | SetTime nat
  | SetCount nat
  | Stamp nat
  | Bump nat
  | Updated

text \<open>One round of the loop of \<open>rate_limit_find\<close>, called from the check or from the insertion.\<close>

definition find_step ::
    "u32 \<Rightarrow> (nat \<Rightarrow> pc) \<Rightarrow> (nat \<Rightarrow> pc) \<Rightarrow> pc \<Rightarrow> nat \<Rightarrow> rate_table \<Rightarrow> (pc \<times> rate_table) run" where
  "find_step ip loop hit miss i T =
     (if \<not> int i < rt_count T then Inr (miss, T)
      else if \<not> i < MAX_RATE_LIMIT_ENTRIES then Inl Undefined
      else Inr (if rl_ip (rt_entries T ! i) = ip then hit i else loop (Suc i), T))"

text \<open>An assignment to a field of the entry that \<open>entry\<close> points to.\<close>

definition entry_set ::
    "(RateLimitEntry \<Rightarrow> RateLimitEntry) \<Rightarrow> nat \<Rightarrow> pc \<Rightarrow> rate_table \<Rightarrow> (pc \<times> rate_table) run" where
  "entry_set f k next_pc T =
     (if k < MAX_RATE_LIMIT_ENTRIES
      then Inr (next_pc, T\<lparr>rt_entries := (rt_entries T)[k := f (rt_entries T ! k)]\<rparr>)
      else Inl Undefined)"

fun thread_step :: "u8 \<Rightarrow> int \<Rightarrow> u32 \<Rightarrow> pc \<Rightarrow> rate_table \<Rightarrow> (pc \<times> rate_table) run" where
  "thread_step interval now ip Check T = Inr (if ip = 0 then Answer else CheckFind 0, T)"
| "thread_step interval now ip (CheckFind i) T = find_step ip CheckFind CheckTime Answer i T"
| "thread_step interval now ip (CheckTime i) T =
     (if i < MAX_RATE_LIMIT_ENTRIES
      then bindR (i64 (now - rl_last_request (rt_entries T ! i))) (\<lambda>d.
             Inr (if d < uint interval then Limited else Answer, T))
      else Inl Undefined)"
| "thread_step interval now ip Limited T = Inr (Limited, T)"
| "thread_step interval now ip Answer T = Inr (if ip = 0 then Updated else UpdateFind 0, T)"
| "thread_step interval now ip (UpdateFind i) T = find_step ip UpdateFind Stamp Room i T"
| "thread_step interval now ip Room T =
     Inr (if int MAX_RATE_LIMIT_ENTRIES \<le> rt_count T then Shift else Take, T)"
| "thread_step interval now ip Shift T =
     Inr (Shrink, T\<lparr>rt_entries := tl (rt_entries T) @ [last (rt_entries T)]\<rparr>)"
| "thread_step interval now ip Shrink T = Inr (Take, T\<lparr>rt_count := rt_count T - 1\<rparr>)"
| "thread_step interval now ip Take T =
     (if 0 \<le> rt_count T \<and> rt_count T \<le> int MAX_RATE_LIMIT_ENTRIES
      then Inr (SetIp (nat (rt_count T)), T\<lparr>rt_count := rt_count T + 1\<rparr>)
      else Inl Undefined)"
| "thread_step interval now ip (SetIp k) T = entry_set (\<lambda>e. e\<lparr>rl_ip := ip\<rparr>) k (SetTime k) T"
| "thread_step interval now ip (SetTime k) T =
     entry_set (\<lambda>e. e\<lparr>rl_last_request := 0\<rparr>) k (SetCount k) T"
| "thread_step interval now ip (SetCount k) T =
     entry_set (\<lambda>e. e\<lparr>rl_count := 0\<rparr>) k (Stamp k) T"
| "thread_step interval now ip (Stamp k) T =
     entry_set (\<lambda>e. e\<lparr>rl_last_request := now\<rparr>) k (Bump k) T"
| "thread_step interval now ip (Bump k) T =
     entry_set (\<lambda>e. e\<lparr>rl_count := rl_count e + 1\<rparr>) k Updated T"
| "thread_step interval now ip Updated T = Inr (Updated, T)"

type_synonym threads = "(u32 \<times> pc) list"
type_synonym schedule = "(nat \<times> int) list"

fun race_run :: "u8 \<Rightarrow> schedule \<Rightarrow> threads \<Rightarrow> rate_table \<Rightarrow> (threads \<times> rate_table) run" where
  "race_run interval [] ps T = Inr (ps, T)"
| "race_run interval ((k, now) # ss) ps T =
     (if k < length ps
      then bindR (thread_step interval now (fst (ps ! k)) (snd (ps ! k)) T) (\<lambda>(p, T').
             race_run interval ss (ps[k := (fst (ps ! k), p)]) T')
      else race_run interval ss ps T)"

definition arriving :: "u32 list \<Rightarrow> threads" where
  "arriving ips = map (\<lambda>ip. (ip, Check)) ips"

text \<open>The table as ModeHandler has it.\<close>

definition used :: "rate_table \<Rightarrow> RateLimitEntry list" where
  "used T = take (nat (rt_count T)) (rt_entries T)"

definition table_ok :: "rate_table \<Rightarrow> bool" where
  "table_ok T \<longleftrightarrow> length (rt_entries T) = MAX_RATE_LIMIT_ENTRIES \<and>
     0 \<le> rt_count T \<and> rt_count T \<le> int MAX_RATE_LIMIT_ENTRIES"

lemma used_length: "table_ok T \<Longrightarrow> length (used T) = nat (rt_count T)"
  by (auto simp: table_ok_def used_def min_def nat_le_iff)

lemma used_nth: "table_ok T \<Longrightarrow> int i < rt_count T \<Longrightarrow> used T ! i = rt_entries T ! i"
  by (simp add: table_ok_def used_def)

subsection \<open>One thread for a while\<close>

fun solo :: "u8 \<Rightarrow> int \<Rightarrow> u32 \<Rightarrow> nat \<Rightarrow> pc \<Rightarrow> rate_table \<Rightarrow> (pc \<times> rate_table) run" where
  "solo interval now ip 0 p T = Inr (p, T)"
| "solo interval now ip (Suc n) p T =
     bindR (thread_step interval now ip p T) (\<lambda>(p', T'). solo interval now ip n p' T')"

lemma solo_numeral [simp]:
  "solo I t ip (numeral m) p T =
     bindR (thread_step I t ip p T) (\<lambda>(p', T'). solo I t ip (pred_numeral m) p' T')"
  by (simp only: numeral_eq_Suc solo.simps)

lemma solo_Suc_0 [simp]: "solo I t ip (Suc 0) p T = thread_step I t ip p T"
  by (auto simp: bindR_def split: sum.split)

lemma solo_add:
  "solo I t ip (m + n) p T = bindR (solo I t ip m p T) (\<lambda>(p', T'). solo I t ip n p' T')"
  by (induction m arbitrary: p T) (auto simp: bindR_def split: sum.split)

lemma solo_trans:
  "solo I t ip m p T = Inr (p', T') \<Longrightarrow> solo I t ip n p' T' = r \<Longrightarrow> solo I t ip (m + n) p T = r"
  by (simp add: solo_add)

declare solo.simps(2) [simp del]

lemma race_run_append:
  "race_run I (ss @ ss') ps T = bindR (race_run I ss ps T) (\<lambda>(ps', T'). race_run I ss' ps' T')"
  by (induction I ss ps T rule: race_run.induct) (auto simp: bindR_def split: sum.split)

lemma race_run_block:
  "k < length ps \<Longrightarrow> race_run I (replicate n (k, t)) ps T =
     bindR (solo I t (fst (ps ! k)) n (snd (ps ! k)) T) (\<lambda>(p, T').
       Inr (ps[k := (fst (ps ! k), p)], T'))"
  by (induction n arbitrary: ps T) (auto simp: solo.simps(2) bindR_def split: sum.split)

text \<open>The loop of \<open>rate_limit_find\<close> from the entry \<open>i\<close> on.\<close>

lemma solo_find:
  assumes loop: "\<And>i T. thread_step I t ip (loop i) T = find_step ip loop hit miss i T"
    and ok: "table_ok T"
  shows "int i \<le> rt_count T \<Longrightarrow>
    \<exists>n. solo I t ip n (loop i) T =
      Inr (case find_ip ip (drop i (used T)) of Some j \<Rightarrow> hit (i + j) | None \<Rightarrow> miss, T)"
proof (induction "nat (rt_count T) - i" arbitrary: i)
  case 0
  then have "solo I t ip 1 (loop i) T = Inr (miss, T)" "drop i (used T) = []"
    by (auto simp: loop find_step_def used_length [OF ok])
  then show ?case by (metis find_ip.simps(1) option.case(1))
next
  case (Suc x)
  then have i: "int i < rt_count T" "i < MAX_RATE_LIMIT_ENTRIES" "i < length (used T)"
    using ok by (auto simp: table_ok_def used_length [OF ok])
  have d: "drop i (used T) = (rt_entries T ! i) # drop (Suc i) (used T)"
    using i by (metis Cons_nth_drop_Suc used_nth [OF ok])
  show ?case
  proof (cases "rl_ip (rt_entries T ! i) = ip")
    case True
    then have "solo I t ip 1 (loop i) T = Inr (hit i, T)" using i by (simp add: loop find_step_def)
    then show ?thesis unfolding d using True by (intro exI [of _ 1]) simp
  next
    case False
    then have one: "solo I t ip 1 (loop i) T = Inr (loop (Suc i), T)"
      using i by (simp add: loop find_step_def)
    have "x = nat (rt_count T) - Suc i" "int (Suc i) \<le> rt_count T" using Suc.hyps(2) i(1) by auto
    from Suc.hyps(1) [OF this] obtain n where n: "solo I t ip n (loop (Suc i)) T =
        Inr (case find_ip ip (drop (Suc i) (used T)) of Some j \<Rightarrow> hit (Suc i + j) | None \<Rightarrow> miss, T)"
      by blast
    show ?thesis unfolding d using False solo_trans [OF one n]
      by (intro exI [of _ "1 + n"]) (simp split: option.split)
  qed
qed

lemma solo_find_check:
  assumes "table_ok T"
  shows "\<exists>n. solo I t ip n (CheckFind 0) T =
    Inr (case find_ip ip (used T) of Some j \<Rightarrow> CheckTime j | None \<Rightarrow> Answer, T)"
  using solo_find [of I t ip CheckFind CheckTime Answer T 0, OF thread_step.simps(2) assms,
      unfolded add_0 drop_0] assms
  by (simp add: table_ok_def)

lemma solo_find_update:
  assumes "table_ok T"
  shows "\<exists>n. solo I t ip n (UpdateFind 0) T =
    Inr (case find_ip ip (used T) of Some j \<Rightarrow> Stamp j | None \<Rightarrow> Room, T)"
  using solo_find [of I t ip UpdateFind Stamp Room T 0, OF thread_step.simps(6) assms,
      unfolded add_0 drop_0] assms
  by (simp add: table_ok_def)

text \<open>Filling a slot, and stamping an entry that is there.\<close>

lemma new_entry:
  "e\<lparr>rl_ip := a, rl_last_request := b, rl_count := c\<rparr> =
   \<lparr>rl_ip = a, rl_last_request = b, rl_count = c\<rparr>"
  by (cases e) simp

lemma solo_fill:
  assumes "table_ok T" "rt_count T < 1024" "k = nat (rt_count T)"
  shows "solo I t ip 6 Take T = Inr (Updated,
    T\<lparr>rt_count := rt_count T + 1,
      rt_entries := (rt_entries T)[k := \<lparr>rl_ip = ip, rl_last_request = t, rl_count = 1\<rparr>]\<rparr>)"
  using assms by (simp add: table_ok_def entry_set_def nat_less_iff new_entry)

lemma solo_stamp:
  assumes "k < 1024" "length (rt_entries T) = 1024"
  shows "solo I t ip 2 (Stamp k) T = Inr (Updated, T\<lparr>rt_entries := (rt_entries T)[k :=
    (rt_entries T ! k)\<lparr>rl_last_request := t, rl_count := rl_count (rt_entries T ! k) + 1\<rparr>]\<rparr>)"
  using assms by (simp add: entry_set_def)

lemma used_fill:
  fixes e :: RateLimitEntry
  assumes "table_ok T" "rt_count T < 1024"
  defines "T' \<equiv> T\<lparr>rt_count := rt_count T + 1, rt_entries := (rt_entries T)[nat (rt_count T) := e]\<rparr>"
  shows "used T' = used T @ [e]" "table_ok T'"
proof -
  have n: "nat (rt_count T) < length (rt_entries T)" "nat (rt_count T + 1) = Suc (nat (rt_count T))"
    using assms by (auto simp: table_ok_def)
  show "used T' = used T @ [e]"
    using n unfolding T'_def used_def by (simp add: take_Suc_conv_app_nth)
  show "table_ok T'" using assms(1,2) by (simp add: T'_def table_ok_def)
qed

lemma used_shift:
  assumes "table_ok T" "1024 \<le> rt_count T"
  defines "T' \<equiv> T\<lparr>rt_entries := tl (rt_entries T) @ [last (rt_entries T)], rt_count := rt_count T - 1\<rparr>"
  shows "used T' = tl (used T)" "table_ok T'" "rt_count T' < 1024"
  using assms(1,2) by (auto simp: T'_def table_ok_def used_def)

lemma used_stamp:
  "table_ok T \<Longrightarrow> int k < rt_count T \<Longrightarrow>
   used (T\<lparr>rt_entries := (rt_entries T)[k := e]\<rparr>) = (used T)[k := e]"
  "table_ok T \<Longrightarrow> table_ok (T\<lparr>rt_entries := (rt_entries T)[k := e]\<rparr>)"
  by (auto simp: used_def table_ok_def take_update_swap)

text \<open>The update and the check of one request.\<close>

lemma solo_update:
  assumes ok: "table_ok T" and ip: "ip \<noteq> 0"
  shows "\<exists>n T'. solo I t ip n Answer T = Inr (Updated, T') \<and> table_ok T' \<and> used T' =
    (case find_ip ip (used T) of
       Some i \<Rightarrow> (used T)[i := (used T ! i)\<lparr>rl_last_request := t, rl_count := rl_count (used T ! i) + 1\<rparr>]
     | None \<Rightarrow> (if MAX_RATE_LIMIT_ENTRIES \<le> length (used T) then tl (used T) else used T) @
         [\<lparr>rl_ip = ip, rl_last_request = t, rl_count = 1\<rparr>])"
proof -
  have enter: "solo I t ip 1 Answer T = Inr (UpdateFind 0, T)" using ip by simp
  obtain n where find: "solo I t ip n (UpdateFind 0) T =
      Inr (case find_ip ip (used T) of Some j \<Rightarrow> Stamp j | None \<Rightarrow> Room, T)"
    using solo_find_update [OF ok] by blast
  note found = solo_trans [OF enter find]
  show ?thesis
  proof (cases "find_ip ip (used T)")
    case (Some i)
    then have i: "int i < rt_count T" "i < 1024" "used T ! i = rt_entries T ! i"
      using find_ip_SomeD [OF Some] used_length [OF ok] used_nth [OF ok] ok
      by (auto simp: table_ok_def)
    have len: "length (rt_entries T) = 1024" using ok by (simp add: table_ok_def)
    have "solo I t ip (1 + n + 2) Answer T = Inr (Updated, T\<lparr>rt_entries := (rt_entries T)[i :=
        (rt_entries T ! i)\<lparr>rl_last_request := t, rl_count := rl_count (rt_entries T ! i) + 1\<rparr>]\<rparr>)"
      by (rule solo_trans [OF found]) (unfold Some option.case, rule solo_stamp [OF i(2) len])
    then show ?thesis
      unfolding Some option.case i(3)
      using used_stamp(1) [OF ok i(1)] used_stamp(2) [OF ok] by blast
  next
    case None
    note room = found [unfolded None option.case]
    show ?thesis
    proof (cases "1024 \<le> rt_count T")
      case False
      then have take1: "solo I t ip 1 Room T = Inr (Take, T)" by simp
      show ?thesis
        using solo_trans [OF room solo_trans [OF take1 solo_fill [OF ok _ refl]]] False
          used_fill [OF ok] None used_length [OF ok] by auto
    next
      case True
      let ?T = "T\<lparr>rt_entries := tl (rt_entries T) @ [last (rt_entries T)], rt_count := rt_count T - 1\<rparr>"
      have take3: "solo I t ip 3 Room T = Inr (Take, ?T)" using True by simp
      note sh = used_shift [OF ok True]
      show ?thesis
        using solo_trans [OF room solo_trans [OF take3 solo_fill [OF sh(2,3) refl]]]
          used_fill [OF sh(2,3)] None used_length [OF ok] True unfolding sh(1) by auto
    qed
  qed
qed

lemma solo_check:
  assumes ok: "table_ok T" and ip: "ip \<noteq> 0"
  shows "\<exists>n. solo I t ip n Check T =
    (case find_ip ip (used T) of
       None \<Rightarrow> Inr (Answer, T)
     | Some i \<Rightarrow> bindR (i64 (t - rl_last_request (used T ! i))) (\<lambda>d.
         Inr (if d < uint I then Limited else Answer, T)))"
proof -
  have enter: "solo I t ip 1 Check T = Inr (CheckFind 0, T)" using ip by simp
  obtain n where find: "solo I t ip n (CheckFind 0) T =
      Inr (case find_ip ip (used T) of Some j \<Rightarrow> CheckTime j | None \<Rightarrow> Answer, T)"
    using solo_find_check [OF ok] by blast
  note found = solo_trans [OF enter find]
  show ?thesis
  proof (cases "find_ip ip (used T)")
    case (Some i)
    then have i: "i < 1024" "used T ! i = rt_entries T ! i"
      using find_ip_SomeD [OF Some] used_length [OF ok] used_nth [OF ok] ok
      by (auto simp: table_ok_def)
    have "solo I t ip (1 + n + 1) Check T =
        bindR (i64 (t - rl_last_request (used T ! i))) (\<lambda>d.
          Inr (if d < uint I then Limited else Answer, T))"
      by (rule solo_trans [OF found]) (use i Some in \<open>simp add: i64_def\<close>)
    with Some show ?thesis by auto
  next
    case None
    with found show ?thesis by (intro exI [of _ "1 + n"]) (simp only: option.case)
  qed
qed

subsection \<open>One request at a time\<close>

lemma lone_check:
  assumes "table_ok T" "\<not> g_mode_mutex s" "g_rate_limit_entries s = used T"
    "interval = rate_limit_interval (g_mode_config s)"
  shows "\<exists>n. race_run interval (replicate n (0, t)) (arriving [inet_addr c]) T =
    bindR (rate_limit_check inet_addr t (Some c) s) (\<lambda>(r, _).
      Inr ([(inet_addr c, if r = 1 then Limited else Answer)], T))"
proof (cases "inet_addr c = 0")
  case True
  then have "race_run interval (replicate 1 (0, t)) (arriving [inet_addr c]) T =
      bindR (rate_limit_check inet_addr t (Some c) s) (\<lambda>(r, _).
        Inr ([(inet_addr c, if r = 1 then Limited else Answer)], T))"
    using assms(2)
    by (simp add: arriving_def rate_limit_check_def rate_limit_find_def parse_ip_def Let_def
        with_g_mode_mutex_free)
  then show ?thesis by blast
next
  case False
  obtain n where n: "solo interval t (inet_addr c) n Check T =
      (case find_ip (inet_addr c) (used T) of
         None \<Rightarrow> Inr (Answer, T)
       | Some i \<Rightarrow> bindR (i64 (t - rl_last_request (used T ! i))) (\<lambda>d.
           Inr (if d < uint interval then Limited else Answer, T)))"
    using solo_check [OF assms(1) False] by blast
  show ?thesis
    using False assms(2-4)
    by (intro exI [of _ n]) (simp add: race_run_block n [unfolded assms(4)] arriving_def rate_limit_check_def
        rate_limit_find_def parse_ip_def Let_def with_g_mode_mutex_free i64_def split: option.split)
qed

lemma lone_update:
  assumes "table_ok T" "g_rate_limit_entries s = used T"
  shows "\<exists>n T'. race_run interval (replicate n (0, t)) [(inet_addr c, Answer)] T =
      Inr ([(inet_addr c, Updated)], T') \<and> table_ok T' \<and>
    rate_limit_update inet_addr t (Some c) s = s\<lparr>g_rate_limit_entries := used T'\<rparr>"
proof (cases "inet_addr c = 0")
  case True
  then have "race_run interval (replicate 1 (0, t)) [(inet_addr c, Answer)] T = Inr ([(inet_addr c, Updated)], T)"
    "rate_limit_update inet_addr t (Some c) s = s\<lparr>g_rate_limit_entries := used T\<rparr>"
    using assms(2) by (simp_all add: rate_limit_update_def rate_limit_insert_def parse_ip_def)
  then show ?thesis using assms(1) by blast
next
  case False
  obtain m T' where m: "solo interval t (inet_addr c) m Answer T = Inr (Updated, T')"
    "table_ok T'" and T': "used T' = (case find_ip (inet_addr c) (used T) of
       Some i \<Rightarrow> (used T)[i := (used T ! i)\<lparr>rl_last_request := t, rl_count := rl_count (used T ! i) + 1\<rparr>]
     | None \<Rightarrow> (if MAX_RATE_LIMIT_ENTRIES \<le> length (used T) then tl (used T) else used T) @
         [\<lparr>rl_ip = inet_addr c, rl_last_request = t, rl_count = 1\<rparr>])"
    using solo_update [OF assms(1) False] by blast
  have "race_run interval (replicate m (0, t)) [(inet_addr c, Answer)] T =
      Inr ([(inet_addr c, Updated)], T')"
    by (simp add: race_run_block m(1))
  moreover have "rate_limit_update inet_addr t (Some c) s = s\<lparr>g_rate_limit_entries := used T'\<rparr>"
    using False unfolding T' by (simp add: rate_limit_update_eq assms(2) Let_def split: option.split)
  ultimately show ?thesis using m(2) by blast
qed

text \<open>
  A request whose thread runs without another in between does what
  \<open>rate_limit_check\<close> and \<open>rate_limit_update\<close> of ModeHandler do.
\<close>

theorem lone_request_runs_the_functions:
  assumes "table_ok T" "\<not> g_mode_mutex s" "g_rate_limit_entries s = used T"
    "interval = rate_limit_interval (g_mode_config s)"
  shows "(\<exists>n. race_run interval (replicate n (0, t)) (arriving [inet_addr c]) T =
            bindR (rate_limit_check inet_addr t (Some c) s) (\<lambda>(r, _).
              Inr ([(inet_addr c, if r = 1 then Limited else Answer)], T))) \<and>
         (\<exists>n T'. race_run interval (replicate n (0, t)) [(inet_addr c, Answer)] T =
            Inr ([(inet_addr c, Updated)], T') \<and> table_ok T' \<and>
          rate_limit_update inet_addr t (Some c) s = s\<lparr>g_rate_limit_entries := used T'\<rparr>)"
  using lone_check [OF assms] lone_update [OF assms(1,3)] by blast

lemma lone_request_runs_the_functions_witness:
  "\<exists>T n. race_run 2 (replicate n (0, 100)) (arriving [5]) T = Inr ([(5, Answer)], T) \<and>
     (\<exists>n T'. race_run 2 (replicate n (0, 100)) [(5, Answer)] T = Inr ([(5, Updated)], T') \<and>
       used T' = [\<lparr>rl_ip = 5, rl_last_request = 100, rl_count = 1\<rparr>])"
proof -
  let ?T = "\<lparr>rt_entries = replicate 1024 \<lparr>rl_ip = 0, rl_last_request = 0, rl_count = 0\<rparr>, rt_count = 0\<rparr>"
  have ok: "table_ok ?T" and u: "used ?T = []" by (simp_all add: table_ok_def used_def)
  have s: "\<not> g_mode_mutex initial_mode_state" "g_rate_limit_entries initial_mode_state = used ?T"
    "2 = rate_limit_interval (g_mode_config initial_mode_state)"
    unfolding u by (simp_all add: initial_mode_state_def default_mode_config_def)
  have c: "rate_limit_check (\<lambda>_. 5) 100 (Some ''c'') initial_mode_state = Inr (0, initial_mode_state)"
    using s(1) by (simp add: rate_limit_check_def with_g_mode_mutex_free rate_limit_find_def parse_ip_def Let_def)
      (simp add: initial_mode_state_def)
  have e: "rate_limit_update (\<lambda>_. 5) 100 (Some ''c'') initial_mode_state = initial_mode_state\<lparr>g_rate_limit_entries :=
      [\<lparr>rl_ip = 5, rl_last_request = 100, rl_count = 1\<rparr>]\<rparr>"
    by (simp add: rate_limit_update_eq initial_mode_state_def)
  have entries: "initial_mode_state\<lparr>g_rate_limit_entries := xs\<rparr> = initial_mode_state\<lparr>g_rate_limit_entries := ys\<rparr> \<longleftrightarrow>
      xs = ys" for xs ys by (simp add: initial_mode_state_def)
  obtain n m T' where "race_run 2 (replicate n (0, 100)) (arriving [5]) ?T = Inr ([(5, Answer)], ?T)"
    "race_run 2 (replicate m (0, 100)) [(5, Answer)] ?T = Inr ([(5, Updated)], T')"
    "[\<lparr>rl_ip = 5, rl_last_request = 100, rl_count = 1\<rparr>] = used T'"
    using lone_request_runs_the_functions [OF ok s, of 100 "\<lambda>_. 5" "''c''"] unfolding c e entries by auto
  then show ?thesis by (intro exI [of _ ?T] exI [of _ n] conjI exI [of _ m] exI [of _ T']) simp_all
qed

subsection \<open>No overflow while there is room\<close>

text \<open>
  \<open>taking p\<close>: the thread may yet take a slot. \<open>slot_below c p\<close>: a slot that the thread has is
  below the count, and it does not evict.
\<close>

fun taking :: "pc \<Rightarrow> nat" where
  "taking Limited = 0"
| "taking (SetIp k) = 0"
| "taking (SetTime k) = 0"
| "taking (SetCount k) = 0"
| "taking (Stamp k) = 0"
| "taking (Bump k) = 0"
| "taking Updated = 0"
| "taking p = 1"

fun slot_below :: "int \<Rightarrow> pc \<Rightarrow> bool" where
  "slot_below c (CheckTime k) \<longleftrightarrow> int k < c"
| "slot_below c (SetIp k) \<longleftrightarrow> int k < c"
| "slot_below c (SetTime k) \<longleftrightarrow> int k < c"
| "slot_below c (SetCount k) \<longleftrightarrow> int k < c"
| "slot_below c (Stamp k) \<longleftrightarrow> int k < c"
| "slot_below c (Bump k) \<longleftrightarrow> int k < c"
| "slot_below c Shift \<longleftrightarrow> False"
| "slot_below c Shrink \<longleftrightarrow> False"
| "slot_below c p \<longleftrightarrow> True"

definition time_ok :: "int \<Rightarrow> bool" where
  "time_ok t \<longleftrightarrow> 0 \<le> t \<and> t < 2 ^ 63"

definition times_ok :: "rate_table \<Rightarrow> bool" where
  "times_ok T \<longleftrightarrow> (\<forall>e\<in>set (rt_entries T). time_ok (rl_last_request e))"

definition clock_ok :: "schedule \<Rightarrow> bool" where
  "clock_ok ss \<longleftrightarrow> (\<forall>(k, t)\<in>set ss. time_ok t)"

definition fits :: "threads \<Rightarrow> rate_table \<Rightarrow> bool" where
  "fits ps T \<longleftrightarrow> table_ok T \<and> times_ok T \<and>
     rt_count T + int (sum_list (map (taking \<circ> snd) ps)) \<le> int MAX_RATE_LIMIT_ENTRIES \<and>
     (\<forall>p\<in>set ps. slot_below (rt_count T) (snd p))"

lemma slot_below_mono: "slot_below c p \<Longrightarrow> c \<le> c' \<Longrightarrow> slot_below c' p"
  by (cases p) auto

lemma times_ok_update:
  "times_ok T \<Longrightarrow> time_ok (rl_last_request e) \<Longrightarrow> times_ok (T\<lparr>rt_entries := (rt_entries T)[k := e]\<rparr>)"
  unfolding times_ok_def using set_update_subset_insert by fastforce

lemma times_ok_nth: "times_ok T \<Longrightarrow> k < length (rt_entries T) \<Longrightarrow> time_ok (rl_last_request (rt_entries T ! k))"
  by (simp add: times_ok_def)

lemma time_ok_0 [simp]: "time_ok 0"
  by (simp add: time_ok_def)

lemma times_ok_count [simp]: "times_ok (T\<lparr>rt_count := c\<rparr>) \<longleftrightarrow> times_ok T"
  by (simp add: times_ok_def)

lemma thread_step_fits:
  assumes "table_ok T" "times_ok T" "rt_count T + int (taking p) \<le> 1024" "slot_below (rt_count T) p"
    "time_ok t"
  shows "\<exists>p' T'. thread_step interval t ip p T = Inr (p', T') \<and> table_ok T' \<and> times_ok T' \<and>
    rt_count T \<le> rt_count T' \<and> rt_count T' + int (taking p') \<le> rt_count T + int (taking p) \<and>
    slot_below (rt_count T') p'"
proof (cases p)
  case (CheckTime k)
  then have "time_ok (rl_last_request (rt_entries T ! k))" "k < 1024"
    using assms by (auto simp: table_ok_def intro!: times_ok_nth)
  then show ?thesis using assms CheckTime by (auto simp: time_ok_def in_i64_def)
qed (use assms in \<open>auto simp: find_step_def entry_set_def table_ok_def
    intro!: times_ok_update times_ok_nth\<close>)

lemma race_run_fits:
  "fits ps T \<Longrightarrow> clock_ok ss \<Longrightarrow> returns (race_run interval ss ps T)"
proof (induction ss arbitrary: ps T)
  case (Cons x ss)
  obtain k t where x: "x = (k, t)" by (cases x)
  have clock: "time_ok t" "clock_ok ss" using Cons.prems(2) by (auto simp: clock_ok_def x)
  show ?case
  proof (cases "k < length ps")
    case True
    let ?m = "map (taking \<circ> snd) ps"
    have f: "table_ok T" "times_ok T" "rt_count T + int (sum_list ?m) \<le> 1024"
      "\<forall>p\<in>set ps. slot_below (rt_count T) (snd p)"
      using Cons.prems(1) by (auto simp: fits_def)
    have le: "taking (snd (ps ! k)) \<le> sum_list ?m"
      using elem_le_sum_list [of k ?m] True by simp
    obtain p' T' where st: "thread_step interval t (fst (ps ! k)) (snd (ps ! k)) T = Inr (p', T')"
      "table_ok T'" "times_ok T'" "rt_count T \<le> rt_count T'"
      "rt_count T' + int (taking p') \<le> rt_count T + int (taking (snd (ps ! k)))"
      "slot_below (rt_count T') p'"
      using thread_step_fits [OF f(1,2) _ _ clock(1), of "snd (ps ! k)" interval "fst (ps ! k)"] f(3,4) le True
      by (auto dest: nth_mem)
    let ?ps = "ps[k := (fst (ps ! k), p')]"
    have "sum_list (map (taking \<circ> snd) ?ps) = sum_list ?m + taking p' - taking (snd (ps ! k))"
      using sum_list_update [of k ?m "taking p'"] True by (simp add: map_update)
    then have "rt_count T' + int (sum_list (map (taking \<circ> snd) ?ps)) \<le> 1024"
      using f(3) st(5) le by linarith
    moreover have "\<forall>p\<in>set ?ps. slot_below (rt_count T') (snd p)"
      using f(4) st(4,6) slot_below_mono set_update_subset_insert [of ps k "(fst (ps ! k), p')"]
      by fastforce
    ultimately have "fits ?ps T'" using st(2,3) by (simp add: fits_def)
    from Cons.IH [OF this clock(2)] True st(1) show ?thesis by (simp add: x)
  qed (use Cons.IH [OF Cons.prems(1) clock(2)] x in simp)
qed simp

lemma arriving_fits:
  "table_ok T \<Longrightarrow> times_ok T \<Longrightarrow> rt_count T + int (length ips) \<le> 1024 \<Longrightarrow> fits (arriving ips) T"
  by (auto simp: fits_def arriving_def o_def sum_list_triv)

subsection \<open>Schedules\<close>

text \<open>
  A schedule in which the clock stands at \<open>t\<close> brings every arriving thread to \<open>p\<close>, one after the
  other, when each gets there alone without a change of the table.
\<close>

definition all_at :: "int \<Rightarrow> schedule \<Rightarrow> bool" where
  "all_at t ss \<longleftrightarrow> snd ` set ss \<subseteq> {t}"

lemma all_at_simps [simp]:
  "all_at t []" "all_at t (ss @ ss') \<longleftrightarrow> all_at t ss \<and> all_at t ss'" "all_at t (replicate n (k, t))"
  by (auto simp: all_at_def)

lemma all_at_clock_ok: "all_at t ss \<Longrightarrow> time_ok t \<Longrightarrow> clock_ok ss"
  by (auto simp: all_at_def clock_ok_def)

lemma race_run_one:
  assumes "solo I t ip n p T = r"
  shows "race_run I (replicate n (length xs, t)) (xs @ (ip, p) # ys) T =
    bindR r (\<lambda>(p', T'). Inr (xs @ (ip, p') # ys, T'))"
  using race_run_block [of "length xs" "xs @ (ip, p) # ys" I n t T] assms by simp

lemma race_run_then:
  "race_run I ss ps T = Inr (ps', T') \<Longrightarrow> race_run I ss' ps' T' = r \<Longrightarrow> race_run I (ss @ ss') ps T = r"
  by (simp add: race_run_append)

lemma race_run_each:
  assumes "\<forall>ip\<in>set ips. \<exists>n. solo I t ip n Check T = Inr (p, T)"
  shows "\<exists>ss. all_at t ss \<and> race_run I ss (xs @ arriving ips) T = Inr (xs @ map (\<lambda>ip. (ip, p)) ips, T)"
  using assms
proof (induction ips arbitrary: xs)
  case (Cons ip ips)
  obtain n where n: "solo I t ip n Check T = Inr (p, T)" using Cons.prems by auto
  obtain ss where ss: "all_at t ss"
    "race_run I ss ((xs @ [(ip, p)]) @ arriving ips) T = Inr ((xs @ [(ip, p)]) @ map (\<lambda>ip. (ip, p)) ips, T)"
    using Cons.IH [of "xs @ [(ip, p)]"] Cons.prems by auto
  have "race_run I (replicate n (length xs, t) @ ss) (xs @ (ip, Check) # arriving ips) T =
      Inr (xs @ (ip, p) # map (\<lambda>ip. (ip, p)) ips, T)"
    by (rule race_run_then [OF _ ss(2), unfolded append_assoc append.simps])
      (simp add: race_run_one [OF n])
  then show ?case using ss(1)
    by (intro exI [of _ "replicate n (length xs, t) @ ss"]) (simp add: arriving_def)
qed (auto simp: arriving_def intro: exI [of _ "[]"])

text \<open>Threads that have all found room fill their slots one after the other.\<close>

definition stamped :: "int \<Rightarrow> u32 \<Rightarrow> RateLimitEntry" where
  "stamped t ip = \<lparr>rl_ip = ip, rl_last_request = t, rl_count = 1\<rparr>"

lemma race_run_fill:
  assumes "table_ok T" "rt_count T + int (length ips) \<le> 1024"
  shows "\<exists>ss T'. all_at t ss \<and> table_ok T' \<and> used T' = used T @ map (stamped t) ips \<and>
    race_run I ss (xs @ map (\<lambda>ip. (ip, Take)) ips @ ys) T = Inr (xs @ map (\<lambda>ip. (ip, Updated)) ips @ ys, T')"
  using assms
proof (induction ips arbitrary: xs T)
  case (Cons ip ips)
  let ?T = "T\<lparr>rt_count := rt_count T + 1, rt_entries := (rt_entries T)[nat (rt_count T) := stamped t ip]\<rparr>"
  have room: "rt_count T < 1024" using Cons.prems(2) by simp
  note fill = solo_fill [OF Cons.prems(1) room refl, of I t ip, folded stamped_def]
  note used = used_fill [OF Cons.prems(1) room, of "stamped t ip"]
  have "rt_count ?T + int (length ips) \<le> 1024" using Cons.prems(2) by simp
  from Cons.IH [OF used(2) this, of "xs @ [(ip, Updated)]"]
  obtain ss T' where ss: "all_at t ss" "table_ok T'" "used T' = used ?T @ map (stamped t) ips"
    "race_run I ss ((xs @ [(ip, Updated)]) @ map (\<lambda>ip. (ip, Take)) ips @ ys) ?T =
       Inr ((xs @ [(ip, Updated)]) @ map (\<lambda>ip. (ip, Updated)) ips @ ys, T')"
    by blast
  have "race_run I (replicate 6 (length xs, t) @ ss) (xs @ (ip, Take) # map (\<lambda>ip. (ip, Take)) ips @ ys) T =
      Inr (xs @ (ip, Updated) # map (\<lambda>ip. (ip, Updated)) ips @ ys, T')"
    by (rule race_run_then [OF _ ss(4), unfolded append_assoc append.simps])
      (simp add: race_run_one [OF fill])
  moreover have "used T' = used T @ map (stamped t) (ip # ips)" unfolding ss(3) used(1) by simp
  ultimately show ?case using ss(1,2)
    by (intro exI [of _ "replicate 6 (length xs, t) @ ss"] exI [of _ T']) (simp)
qed (auto intro!: exI [of _ "[]"])

lemma solo_to_room:
  assumes "table_ok T" "ip \<noteq> 0" "find_ip ip (used T) = None"
  shows "\<exists>n. solo I t ip n Check T = Inr (Room, T)"
proof -
  obtain m where m: "solo I t ip m Check T = Inr (Answer, T)"
    using solo_check [OF assms(1,2), of I t] assms(3) by auto
  have enter: "solo I t ip 1 Answer T = Inr (UpdateFind 0, T)" using assms(2) by simp
  obtain n where n: "solo I t ip n (UpdateFind 0) T = Inr (Room, T)"
    using solo_find_update [OF assms(1), of I t ip] assms(3) by auto
  show ?thesis using solo_trans [OF m solo_trans [OF enter n]] by blast
qed

lemma solo_to_take:
  assumes "table_ok T" "ip \<noteq> 0" "find_ip ip (used T) = None" "rt_count T < 1024"
  shows "\<exists>n. solo I t ip n Check T = Inr (Take, T)"
proof -
  have "solo I t ip 1 Room T = Inr (Take, T)" using assms(4) by simp
  with solo_to_room [OF assms(1-3), of I t] solo_trans show ?thesis by blast
qed

subsection \<open>What requests at the same time do\<close>

text \<open>
  C9: however long the interval is, any number of requests of one client that is not in the
  table pass the limit in the same second, when they run at the same time and there is room; each
  leaves an entry of its own for the address.
\<close>

theorem burst_passes_rate_limit:
  assumes "table_ok T" "ip \<noteq> 0" "find_ip ip (used T) = None"
    "rt_count T < 1024" "rt_count T + int n \<le> 1024"
  shows "\<exists>ss T'. all_at t ss \<and>
    race_run interval ss (arriving (replicate n ip)) T = Inr (replicate n (ip, Updated), T') \<and>
    used T' = used T @ replicate n (stamped t ip)"
proof -
  have "\<forall>i\<in>set (replicate n ip). \<exists>m. solo interval t i m Check T = Inr (Take, T)"
    using solo_to_take [OF assms(1-4)] by simp
  from race_run_each [OF this, of "[]"] obtain ss where ss: "all_at t ss"
    "race_run interval ss (arriving (replicate n ip)) T = Inr (replicate n (ip, Take), T)"
    by auto
  obtain ss' T' where ss': "all_at t ss'" "used T' = used T @ replicate n (stamped t ip)"
    "race_run interval ss' (replicate n (ip, Take)) T = Inr (replicate n (ip, Updated), T')"
    using race_run_fill [OF assms(1), of "replicate n ip" t interval "[]" "[]"] assms(5) by auto
  show ?thesis using race_run_then [OF ss(2) ss'(3)] ss(1) ss'(1,2) all_at_simps(2) by blast
qed

definition idle_table :: "nat \<Rightarrow> rate_table" where
  "idle_table n = \<lparr>rt_entries = replicate 1024 \<lparr>rl_ip = 0, rl_last_request = 0, rl_count = 0\<rparr>,
     rt_count = int n\<rparr>"

lemma idle_table_facts:
  assumes "n \<le> 1024"
  shows "table_ok (idle_table n)" "times_ok (idle_table n)" "rt_count (idle_table n) = int n"
    "ip \<noteq> 0 \<Longrightarrow> find_ip ip (used (idle_table n)) = None"
  using assms
  by (auto simp: idle_table_def table_ok_def times_ok_def used_def find_ip_None_iff dest: in_set_takeD)

lemma burst_passes_rate_limit_witness:
  "\<exists>ss T'. all_at 100 ss \<and>
    race_run 60 ss (arriving (replicate 3 5)) (idle_table 0) = Inr (replicate 3 (5, Updated), T') \<and>
    used T' = used (idle_table 0) @ replicate 3 (stamped 100 5)"
  by (rule burst_passes_rate_limit) (simp_all add: idle_table_facts)

text \<open>When the last slot has been given away, the next thread that has found room writes past the table.\<close>

lemma race_run_overflow:
  assumes "table_ok T" "rt_count T + int (length xs) = 1024"
  shows "\<exists>ss. all_at t ss \<and>
    race_run I ss (map (\<lambda>ip. (ip, Take)) xs @ (y, Take) # ys) T = Inl Undefined"
proof -
  obtain ss T' where ss: "all_at t ss" "table_ok T'" "used T' = used T @ map (stamped t) xs"
    "race_run I ss (map (\<lambda>ip. (ip, Take)) xs @ (y, Take) # ys) T =
       Inr (map (\<lambda>ip. (ip, Updated)) xs @ (y, Take) # ys, T')"
    using race_run_fill [OF assms(1), of xs t I "[]" "(y, Take) # ys"] assms(2) by auto
  have "length (used T') = 1024"
    using assms used_length [OF assms(1)] unfolding ss(3) by (simp add: table_ok_def, linarith)
  then have "rt_count T' = 1024" using used_length [OF ss(2)] by simp
  then have "solo I t y 2 Take T' = Inl Undefined" by (simp add: entry_set_def)
  note past = race_run_one [OF this, of "map (\<lambda>ip. (ip, Updated)) xs" ys]
  show ?thesis using race_run_then [OF ss(4) past] ss(1) all_at_simps by (metis bindR_simps(1))
qed

text \<open>With some free slots, one thread more than slots; with a full table, two, of which one evicts.\<close>

lemma overflow_with_room:
  assumes ok: "table_ok T" and room: "rt_count T < 1024"
    and new: "\<forall>ip\<in>set ips. ip \<noteq> 0 \<and> find_ip ip (used T) = None"
    and over: "1024 < rt_count T + int (length ips)"
  shows "\<exists>ss. all_at t ss \<and> race_run I ss (arriving ips) T = Inl Undefined"
proof -
  define m where "m = nat (1024 - rt_count T)"
  have m: "m < length ips" "rt_count T + int m = 1024"
    using over room by (auto simp: m_def)
  have ips: "ips = take m ips @ ips ! m # drop (Suc m) ips" using id_take_nth_drop [OF m(1)] .
  have "\<forall>ip\<in>set ips. \<exists>n. solo I t ip n Check T = Inr (Take, T)"
    using solo_to_take [OF ok _ _ room] new by blast
  from race_run_each [OF this, of "[]"] obtain ss where ss: "all_at t ss"
    "race_run I ss (arriving ips) T = Inr (map (\<lambda>ip. (ip, Take)) ips, T)" by auto
  obtain ss' where ss': "all_at t ss'" "race_run I ss' (map (\<lambda>ip. (ip, Take)) (take m ips) @
      (ips ! m, Take) # map (\<lambda>ip. (ip, Take)) (drop (Suc m) ips)) T = Inl Undefined"
    using race_run_overflow [OF ok, of "take m ips"] m by fastforce
  have "map (\<lambda>ip. (ip, Take)) (take m ips) @
      (ips ! m, Take) # map (\<lambda>ip. (ip, Take)) (drop (Suc m) ips) = map (\<lambda>ip. (ip, Take)) ips"
    by (subst (4) ips) simp
  note ss'(2) [unfolded this]
  from race_run_then [OF ss(2) this] show ?thesis using ss(1) ss'(1) all_at_simps(2) by blast
qed

lemma overflow_when_full:
  assumes ok: "table_ok T" and full: "rt_count T = 1024" and ips: "ips = a # b # zs"
    and new: "\<forall>ip\<in>set ips. ip \<noteq> 0 \<and> find_ip ip (used T) = None"
  shows "\<exists>ss. all_at t ss \<and> race_run I ss (arriving ips) T = Inl Undefined"
proof -
  let ?T = "T\<lparr>rt_entries := tl (rt_entries T) @ [last (rt_entries T)], rt_count := rt_count T - 1\<rparr>"
  let ?rest = "map (\<lambda>ip. (ip, Room)) zs"
  have "\<forall>ip\<in>set ips. \<exists>n. solo I t ip n Check T = Inr (Room, T)"
    using solo_to_room [OF ok] new by blast
  from race_run_each [OF this, of "[]"] obtain ss where ss: "all_at t ss"
    "race_run I ss (arriving ips) T = Inr ((a, Room) # (b, Room) # ?rest, T)" by (auto simp: ips)
  have "solo I t a 3 Room T = Inr (Take, ?T)" "solo I t b 1 Room ?T = Inr (Take, ?T)"
    using full by simp_all
  from race_run_one [OF this(1), of "[]"] race_run_one [OF this(2), of "[(a, Take)]" ?rest]
  have go: "race_run I (replicate 3 (0, t)) ((a, Room) # (b, Room) # ?rest) T =
      Inr ((a, Take) # (b, Room) # ?rest, ?T)"
    "race_run I (replicate 1 (1, t)) ((a, Take) # (b, Room) # ?rest) ?T =
      Inr ((a, Take) # (b, Take) # ?rest, ?T)" by simp_all
  have full': "1024 \<le> rt_count T" using full by simp
  obtain ss' where ss': "all_at t ss'" "race_run I ss' ((a, Take) # (b, Take) # ?rest) ?T = Inl Undefined"
    using race_run_overflow [OF used_shift(2) [OF ok full'], of "[a]" t I b ?rest] full by auto
  have "all_at t (ss @ replicate 3 (0, t) @ replicate 1 (1, t) @ ss')"
    using ss(1) ss'(1) by (simp only: all_at_simps simp_thms)
  with race_run_then [OF ss(2) race_run_then [OF go(1) race_run_then [OF go(2) ss'(2)]]]
  show ?thesis by blast
qed

lemma requests_can_overflow:
  assumes ok: "table_ok T" and two: "2 \<le> length ips"
    and new: "\<forall>ip\<in>set ips. ip \<noteq> 0 \<and> find_ip ip (used T) = None"
    and over: "1024 < rt_count T + int (length ips)"
  shows "\<exists>ss. all_at t ss \<and> race_run I ss (arriving ips) T = Inl Undefined"
proof (cases "rt_count T < 1024")
  case False
  then have "rt_count T = 1024" using ok by (simp add: table_ok_def)
  moreover obtain a b zs where "ips = a # b # zs"
    using two by (metis Suc_le_length_iff numeral_2_eq_2)
  ultimately show ?thesis using overflow_when_full [OF ok _ _ new] by blast
qed (use overflow_with_room [OF ok _ new over] in blast)

text \<open>
  C8: two or more requests of clients that are not in the table, at the same time: every schedule
  stays within the table exactly when there is a free slot for each. A full table, from which
  \<open>rate_limit_insert\<close> evicts the oldest entry, is not enough.
\<close>

theorem table_overflows_iff:
  assumes "table_ok T" "times_ok T" "2 \<le> length ips"
    "\<forall>ip\<in>set ips. ip \<noteq> 0 \<and> find_ip ip (used T) = None"
  shows "(\<forall>ss. clock_ok ss \<longrightarrow> returns (race_run interval ss (arriving ips) T)) \<longleftrightarrow>
    rt_count T + int (length ips) \<le> 1024"
proof (rule iffI)
  assume safe: "\<forall>ss. clock_ok ss \<longrightarrow> returns (race_run interval ss (arriving ips) T)"
  show "rt_count T + int (length ips) \<le> 1024"
  proof (rule ccontr)
    assume "\<not> rt_count T + int (length ips) \<le> 1024"
    then have "1024 < rt_count T + int (length ips)" by simp
    from requests_can_overflow [OF assms(1,3,4) this, of 0 interval]
    obtain ss where "all_at 0 ss" "race_run interval ss (arriving ips) T = Inl Undefined" by blast
    with safe all_at_clock_ok show False by fastforce
  qed
qed (use arriving_fits [OF assms(1,2)] race_run_fits in blast)

lemma table_overflows_iff_witness:
  "(\<exists>ss. clock_ok ss \<and> \<not> returns (race_run 2 ss (arriving [5, 7]) (idle_table 1023))) \<and>
   (\<exists>ss. clock_ok ss \<and> \<not> returns (race_run 2 ss (arriving [5, 7]) (idle_table 1024))) \<and>
   \<not> (\<exists>ss. clock_ok ss \<and> \<not> returns (race_run 2 ss (arriving [5, 7]) (idle_table 1022)))"
  using table_overflows_iff [of "idle_table 1023" "[5, 7]" 2]
    table_overflows_iff [of "idle_table 1024" "[5, 7]" 2]
    table_overflows_iff [of "idle_table 1022" "[5, 7]" 2]
  by (simp add: idle_table_facts)
end
