(* ===== verification/Polling.thy ===== *)
theory Polling
  imports DaemonMain Runs
begin

section \<open>How often a server is asked (main.c)\<close>

text \<open>
  The main loop as a run of turns, one server after the other and one round after the other. Each
  turn is \<open>sync_server\<close>, with the report whether it called \<open>sync_ntp_time\<close>. The turns are a
  rate limited handler in the sense of Runs: its table is the \<open>next_allowed_sync\<close> field of the
  servers, its gap the retry interval.
\<close>

text \<open>The guard before \<open>sync_ntp_time\<close> in the loop.\<close>

definition may_ask :: "sync_round_env \<Rightarrow> nat \<Rightarrow> daemon \<Rightarrow> bool" where
  "may_ask R i d =
     (let now = (if rd_now R i < 0 then 0 else rd_now R i); t = srv_next_allowed_sync (g_servers d ! i)
      in \<not> (t \<noteq> 0 \<and> now < t))"

lemma asks_iff: "asks R i d \<longleftrightarrow> may_ask R i d"
  by (simp add: asks_def sync_server_with_def may_ask_def Let_def)

definition server_turn :: "fpu \<Rightarrow> sync_round_env \<times> nat \<Rightarrow> daemon \<Rightarrow> (bool \<times> daemon) run" where
  "server_turn F = (\<lambda>(R, i) d.
     if i < length (g_servers d) then bindR (sync_server F R i d) (\<lambda>(_, e). Inr (asks R i d, e))
     else Inr (False, d))"

definition turn_time :: "sync_round_env \<times> nat \<Rightarrow> int" where
  "turn_time = (\<lambda>(R, i). if rd_now R i < 0 then 0 else rd_now R i)"

text \<open>When a server was last asked, read off the time from which it may be asked again.\<close>

definition last_asked :: "daemon \<Rightarrow> nat \<Rightarrow> int option" where
  "last_asked d i =
     (if i < length (g_servers d) \<and> srv_next_allowed_sync (g_servers d ! i) \<noteq> 0
      then Some (srv_next_allowed_sync (g_servers d ! i) - SYNC_RETRY_INTERVAL_SEC) else None)"

lemma dom_last_asked: "dom (last_asked d) \<subseteq> {..<length (g_servers d)}"
  by (auto simp: last_asked_def split: if_splits)

lemma server_turn_cases:
  assumes "\<not> g_mutex d" "server_turn F ev d = Inr (asked, e)"
  shows "\<not> g_mutex e \<and> g_cli e = g_cli d \<and> length (g_servers e) = length (g_servers d) \<and>
    (if asked then may_ask (fst ev) (snd ev) d \<and> snd ev < length (g_servers d) \<and>
       last_asked e = (last_asked d)(snd ev \<mapsto> turn_time ev) else e = d)"
proof (cases "snd ev < length (g_servers d)")
  case True
  obtain R i where ev: "ev = (R, i)" by (cases ev)
  from assms(2) True obtain ok where s: "sync_server F R i d = Inr (ok, e)" and a: "asked = may_ask R i d"
    by (auto simp: server_turn_def asks_iff ev bindR_eq_Inr_iff)
  have now: "max 0 (rd_now R i) = turn_time ev" by (simp add: turn_time_def ev)
  show ?thesis
  proof (cases asked)
    case True
    then obtain e' where e': "quiet d e'" "e = set_next_allowed i (turn_time ev + 15) e'"
      using sync_server_eq(2) [OF assms(1) s] a now by (auto simp: may_ask_def split: if_splits)
    have "last_asked e = (last_asked d)(i \<mapsto> turn_time ev)"
    proof
      fix j show "last_asked e j = ((last_asked d)(i \<mapsto> turn_time ev)) j"
        using e' \<open>snd ev < length (g_servers d)\<close>
        by (cases "j = i") (auto simp: last_asked_def set_next_allowed_def quiet_def ev turn_time_def)
    qed
    then show ?thesis using e' \<open>snd ev < length (g_servers d)\<close> True a
      by (simp add: set_next_allowed_def quiet_def ev)
  next
    case False
    then have "e = d" using sync_server_eq(2) [OF assms(1) s] a now by (auto simp: may_ask_def split: if_splits)
    then show ?thesis using False assms(1) by simp
  qed
next
  case False
  then show ?thesis using assms by (auto simp: server_turn_def split: prod.splits)
qed

text \<open>The main loop's turns keep the contract, for any number of servers.\<close>

interpretation poll: rate_limited "server_turn F" "\<lambda>asked. asked" snd turn_time last_asked
  "\<lambda>_. SYNC_RETRY_INTERVAL_SEC" "\<lambda>d. \<not> g_mutex d" cap for F cap
proof (unfold_locales, goal_cases)
  case (3 ev d asked e t)
  then show ?case using server_turn_cases [OF 3(2,1)]
    by (auto simp: last_asked_def may_ask_def turn_time_def split_def Let_def split: if_splits)
qed (use server_turn_cases in \<open>force+\<close>)

subsection \<open>The main loop as a run of turns\<close>

definition turns :: "nat \<Rightarrow> sync_round_env list \<Rightarrow> (sync_round_env \<times> nat) list" where
  "turns n Rs = concat (map (\<lambda>R. map (Pair R) [0..<n]) Rs)"

text \<open>The rounds up to a shutdown, or one if the daemon is to quit after it.\<close>

definition rounds_done :: "CliConfig \<Rightarrow> sync_round_env list \<Rightarrow> sync_round_env list" where
  "rounds_done c Rs =
     (if quit_after_sync c \<noteq> 0 then take 1 (takeWhile (\<lambda>R. \<not> rd_shutdown R) Rs)
      else takeWhile (\<lambda>R. \<not> rd_shutdown R) Rs)"

lemma run_all_append:
  "run_all h (xs @ ys) s =
     bindR (run_all h xs s) (\<lambda>(rs, s). bindR (run_all h ys s) (\<lambda>(rs', s). Inr (rs @ rs', s)))"
  by (induction xs arbitrary: s) (auto simp: bindR_def split: sum.splits)

text \<open>Where a run of the loop ends, or how it gets stuck.\<close>

abbreviation end_of :: "('a \<times> daemon) run \<Rightarrow> daemon run" where
  "end_of m \<equiv> bindR m (\<lambda>(_, e). Inr e)"

lemma sync_servers_run:
  assumes "\<not> g_mutex d" "\<forall>i\<in>set is. i < length (g_servers d)"
  shows "end_of (sync_servers F R is d) = end_of (run_all (server_turn F) (map (Pair R) is) d)"
  using assms
proof (induction "is" arbitrary: d)
  case (Cons i "is")
  have i: "i < length (g_servers d)" using Cons.prems(2) by simp
  show ?case
  proof (cases "sync_server F R i d")
    case (Inr x)
    obtain ok e where x: "x = (ok, e)" by (cases x)
    have t: "server_turn F (R, i) d = Inr (asks R i d, e)" using Inr x i by (simp add: server_turn_def)
    then have "\<not> g_mutex e" "length (g_servers e) = length (g_servers d)"
      using server_turn_cases [OF Cons.prems(1)] by blast+
    then have "end_of (sync_servers F R is e) = end_of (run_all (server_turn F) (map (Pair R) is) e)"
      using Cons.IH [of e] Cons.prems(2) by simp
    then show ?thesis by (auto simp: Inr x t bindR_def split: sum.splits prod.splits)
  qed (use i in \<open>simp add: server_turn_def\<close>)
qed simp

lemma run_all_keeps:
  assumes "run_all (server_turn F) evs d = Inr (outs, e)" "\<not> g_mutex d"
  shows "\<not> g_mutex e \<and> g_cli e = g_cli d \<and> length (g_servers e) = length (g_servers d) \<and>
    length outs = length evs"
  using assms
proof (induction evs arbitrary: d outs)
  case (Cons ev evs)
  obtain asked d1 outs' where h: "server_turn F ev d = Inr (asked, d1)"
      "run_all (server_turn F) evs d1 = Inr (outs', e)" "outs = asked # outs'"
    using run_all_ConsD [OF Cons.prems(1)] .
  then show ?case using server_turn_cases [OF Cons.prems(2) h(1)] Cons.IH [OF h(2)] by simp
qed simp

lemma turns_Cons: "turns n (R # Rs) = map (Pair R) [0..<n] @ turns n Rs"
  by (simp add: turns_def)

lemma turns_Nil [simp]: "turns n [] = []"
  by (simp add: turns_def)

lemma turns_0 [simp]: "turns 0 Rs = []"
  by (simp add: turns_def)

lemma end_of_append:
  "end_of (run_all h (xs @ ys) s) = bindR (end_of (run_all h xs s)) (\<lambda>e. end_of (run_all h ys e))"
  by (simp add: run_all_append) (auto simp: bindR_def split: sum.splits)

lemma main_loop_run:
  assumes "\<not> g_mutex d" "g_servers d \<noteq> []"
  shows "bindR (main_loop F Rs d) (\<lambda>(_, _, e). Inr e) =
    end_of (run_all (server_turn F) (turns (length (g_servers d)) (rounds_done (g_cli d) Rs)) d)"
  using assms
proof (induction Rs arbitrary: d)
  case (Cons R Rs)
  let ?n = "length (g_servers d)" and ?c = "g_cli d"
  let ?rest = "if quit_after_sync ?c \<noteq> 0 then [] else rounds_done ?c Rs"
  show ?case
  proof (cases "rd_shutdown R")
    case False
    have rounds: "rounds_done ?c (R # Rs) = R # ?rest" using False by (simp add: rounds_done_def)
    have round: "end_of (sync_servers F R [0..<?n] d) = end_of (run_all (server_turn F) (map (Pair R) [0..<?n]) d)"
      using Cons.prems by (intro sync_servers_run) simp_all
    have loop: "bindR (main_loop F (R # Rs) d) (\<lambda>(_, _, e). Inr e) =
        bindR (sync_servers F R [0..<?n] d) (\<lambda>(ok, e). if quit_after_sync (g_cli e) \<noteq> 0 then Inr e
          else bindR (main_loop F Rs e) (\<lambda>(_, _, e). Inr e))"
      using False Cons.prems(2) by (auto simp: bindR_assoc bindR_def split: sum.split prod.split)
    show ?thesis
    proof (cases "sync_servers F R [0..<?n] d")
      case (Inl e)
      then have "end_of (run_all (server_turn F) (map (Pair R) [0..<?n]) d) = Inl e" using round by simp
      then show ?thesis unfolding loop rounds turns_Cons end_of_append Inl by simp
    next
      case (Inr x)
      obtain ok e where x: "x = (ok, e)" by (cases x)
      then have end_round: "end_of (run_all (server_turn F) (map (Pair R) [0..<?n]) d) = Inr e" using round Inr by simp
      then obtain outs where o: "run_all (server_turn F) (map (Pair R) [0..<?n]) d = Inr (outs, e)"
        by (auto simp: bindR_eq_Inr_iff)
      note k = run_all_keeps [OF o Cons.prems(1)]
      then have "g_servers e \<noteq> []" using Cons.prems(2) by force
      then have "bindR (main_loop F Rs e) (\<lambda>(_, _, e). Inr e) =
          end_of (run_all (server_turn F) (turns ?n (rounds_done ?c Rs)) e)"
        using Cons.IH [of e] k by simp
      then show ?thesis using k unfolding loop rounds turns_Cons end_of_append Inr x end_round by simp
    qed
  qed (simp add: rounds_done_def)
qed (simp add: rounds_done_def)

subsection \<open>The turns that ask, up to one that does not come back\<close>

text \<open>The turn asks its server.\<close>

definition asking :: "sync_round_env \<times> nat \<Rightarrow> daemon \<Rightarrow> bool" where
  "asking = (\<lambda>(R, i) d. i < length (g_servers d) \<and> asks R i d)"

text \<open>Of every turn that is begun, whether it asks its server; a turn that does not come back is the last one.\<close>

fun asked_run :: "fpu \<Rightarrow> (sync_round_env \<times> nat) list \<Rightarrow> daemon \<Rightarrow> bool list" where
  "asked_run F [] d = []"
| "asked_run F (ev # evs) d =
     asking ev d # (case server_turn F ev d of Inl _ \<Rightarrow> [] | Inr (_, e) \<Rightarrow> asked_run F evs e)"

lemma server_turn_asking: "server_turn F ev d = Inr (asked, e) \<Longrightarrow> asked = asking ev d"
  by (auto simp: server_turn_def asking_def split_def bindR_eq_Inr_iff split: if_splits)

lemma asked_run_all:
  "run_all (server_turn F) evs d = Inr (asked, e) \<Longrightarrow> asked_run F evs d = asked"
  by (induction evs arbitrary: d asked)
    (auto simp: bindR_eq_Inr_iff dest: server_turn_asking)

text \<open>To look at the last turn as well: the handler that notes its time, as a turn that comes back does.\<close>

definition noted_turn :: "fpu \<Rightarrow> sync_round_env \<times> nat \<Rightarrow> daemon \<Rightarrow> (bool \<times> daemon) run" where
  "noted_turn F ev d =
     (case server_turn F ev d of
        Inr x \<Rightarrow> Inr x
      | Inl _ \<Rightarrow> Inr (True, set_next_allowed (snd ev) (turn_time ev + SYNC_RETRY_INTERVAL_SEC) d))"

lemma stuck_turn_asks:
  assumes "server_turn F ev d = Inl x" "\<not> g_mutex d"
  shows "snd ev < length (g_servers d)" "asking ev d" "may_ask (fst ev) (snd ev) d"
proof -
  obtain R i where ev: "ev = (R, i)" by (cases ev)
  show "snd ev < length (g_servers d)" using assms(1) by (auto simp: server_turn_def ev split: if_splits)
  show a: "asking ev d"
    using assms(1) by (auto simp: server_turn_def ev asking_def asks_iff may_ask_def sync_server_code Let_def split: if_splits)
  then show "may_ask (fst ev) (snd ev) d" by (simp add: asking_def asks_iff ev)
qed

lemma noted_turn_cases:
  assumes "\<not> g_mutex d" "noted_turn F ev d = Inr (asked, e)"
  shows "\<not> g_mutex e \<and> asked = asking ev d \<and>
    (if asked then may_ask (fst ev) (snd ev) d \<and> snd ev < length (g_servers d) \<and>
       last_asked e = (last_asked d)(snd ev \<mapsto> turn_time ev) else e = d)"
proof (cases "server_turn F ev d")
  case (Inl x)
  then have e: "asked" "e = set_next_allowed (snd ev) (turn_time ev + 15) d" using assms(2) by (simp_all add: noted_turn_def)
  have "0 \<le> turn_time ev" by (simp add: turn_time_def split_def)
  then have "last_asked e = (last_asked d)(snd ev \<mapsto> turn_time ev)"
    using stuck_turn_asks(1) [OF Inl assms(1)] by (auto simp: e(2) last_asked_def set_next_allowed_def fun_eq_iff nth_list_update)
  then show ?thesis using stuck_turn_asks [OF Inl assms(1)] assms(1) e by (simp add: set_next_allowed_def)
next
  case (Inr x)
  then have x: "server_turn F ev d = Inr (asked, e)" using assms(2) by (simp add: noted_turn_def)
  show ?thesis using server_turn_cases [OF assms(1) x] server_turn_asking [OF x] by (auto split: if_splits)
qed

interpretation noted: rate_limited "noted_turn F" "\<lambda>asked. asked" snd turn_time last_asked
  "\<lambda>_. SYNC_RETRY_INTERVAL_SEC" "\<lambda>d. \<not> g_mutex d" cap for F cap
proof (unfold_locales, goal_cases)
  case (3 ev d asked e t)
  then show ?case using noted_turn_cases [OF 3(2,1)]
    by (auto simp: last_asked_def may_ask_def turn_time_def split_def Let_def split: if_splits)
qed (use noted_turn_cases in \<open>force+\<close>)

lemma asked_run_noted:
  assumes "\<not> g_mutex d"
  shows "\<exists>outs e. run_all (noted_turn F) evs d = Inr (outs, e) \<and> length (asked_run F evs d) \<le> length evs \<and>
    asked_run F evs d = take (length (asked_run F evs d)) outs"
  using assms
proof (induction evs arbitrary: d)
  case (Cons ev evs)
  obtain a e where n: "noted_turn F ev d = Inr (a, e)"
    by (cases "server_turn F ev d") (auto simp: noted_turn_def)
  note c = noted_turn_cases [OF Cons.prems n]
  obtain outs e' where r: "run_all (noted_turn F) evs e = Inr (outs, e')" "length (asked_run F evs e) \<le> length evs"
    "asked_run F evs e = take (length (asked_run F evs e)) outs" using Cons.IH [of e] c by blast
  show ?case
  proof (cases "server_turn F ev d")
    case (Inl x)
    then show ?thesis using n r(1) c by simp
  next
    case (Inr x)
    then have "x = (a, e)" using n by (simp add: noted_turn_def)
    then show ?thesis using Inr n r c by simp
  qed
qed simp

text \<open>
  C22: no server is asked twice within 15 seconds. The main loop, started with servers that may all be
  asked, is a run over its servers, once per round: it ends where this run ends, or gets stuck as it does. Of
  all turns that are begun, the one that does not come back included, those that call
  \<open>sync_ntp_time\<close> for the same server have at least the retry interval between them, whatever the servers
  answer and however the clock moves; and if all turns come back, each server notes the time of its last one.
\<close>

theorem servers_are_asked_apart:
  assumes "\<not> g_mutex d" "g_servers d \<noteq> []" "\<forall>s\<in>set (g_servers d). srv_next_allowed_sync s = 0"
    and "evs = turns (length (g_servers d)) (rounds_done (g_cli d) Rs)"
  shows "bindR (main_loop F Rs d) (\<lambda>(_, _, e). Inr e) = bindR (run_all (server_turn F) evs d) (\<lambda>(_, e). Inr e) \<and>
    (\<forall>j<length (asked_run F evs d). \<forall>i<j. asked_run F evs d ! i \<and> asked_run F evs d ! j \<and> snd (evs ! i) = snd (evs ! j) \<longrightarrow>
       15 \<le> turn_time (evs ! j) - turn_time (evs ! i)) \<and>
    (\<forall>asked e. run_all (server_turn F) evs d = Inr (asked, e) \<longrightarrow> asked_run F evs d = asked \<and>
       last_asked e = fold (\<lambda>(ev, a) m. if a then m(snd ev \<mapsto> turn_time ev) else m) (zip evs asked) Map.empty)"
proof -
  have none: "last_asked d = Map.empty" using assms(3) by (auto simp: last_asked_def)
  then have f: "finite (dom (last_asked d))" by simp
  obtain outs e where o: "run_all (noted_turn F) evs d = Inr (outs, e)" "length (asked_run F evs d) \<le> length evs"
    "asked_run F evs d = take (length (asked_run F evs d)) outs" using asked_run_noted [OF assms(1)] by blast
  have apart: "15 \<le> turn_time (evs ! j) - turn_time (evs ! i)"
    if "j < length (asked_run F evs d)" "i < j" "asked_run F evs d ! i" "asked_run F evs d ! j"
      "snd (evs ! i) = snd (evs ! j)" for i j
    using noted.answers_are_spaced [OF o(1) assms(1) f le_refl that(2)] that o(2,3)
    by (metis (no_types, lifting) nth_take order.strict_trans order_less_le_trans)
  show ?thesis
    using main_loop_run [OF assms(1,2), of F Rs] assms(4) apart asked_run_all
      poll.run_records [OF _ assms(1) f le_refl] by (auto simp: none)
qed

text \<open>A silent server, asked at one second and again 20 seconds later, with a round in between.\<close>

definition round_at :: "int \<Rightarrow> sync_round_env" where
  "round_at t = silent_round\<lparr>rd_now := \<lambda>_. t\<rparr>"

definition asked_at :: "int \<Rightarrow> daemon" where
  "asked_at t = set_next_allowed 0 (t + 15) (one_server\<lparr>g_sync_sock := 5\<rparr>)"

lemma asked_at_simps:
  "g_servers (asked_at t) = [\<lparr>srv_ip = ''192.0.2.1'', srv_port = ''123'', srv_next_allowed_sync = t + 15\<rparr>]"
  "g_sync_sock (asked_at t) = 5" "family_preference (g_cli (asked_at t)) = 0" "quit_after_sync (g_cli (asked_at t)) = 0"
  "set_next_allowed 0 (u + 15) (asked_at t) = asked_at u"
  by (simp_all add: asked_at_def set_next_allowed_def one_server_simps)

lemma silent_again:
  assumes "g_sync_sock d = 5" "family_preference (g_cli d) = 0"
  shows "sync_ntp_time F (good_env None) (Some ip) (Some ''123'') d = Inr (- 1, d)"
proof -
  have p: "strtoll ''123'' = (123, False, [])"
    by (simp add: strtoll_def scan_number_def skip_space_def is_space_def is_digit_def
      digits_val_def digit_val_def)
  show ?thesis
    by (simp add: sync_ntp_time_code get_sync_socket_def network4_create_socket_def p assms good_env_def
        create_ntp_request_eq fail_sync_def)
qed

lemma sync_turns:
  assumes "0 \<le> t" "t < 2000000000"
  shows "sync_server F (round_at t) 0 one_server = Inr (False, asked_at t)"
    "sync_server F (round_at t) 0 (asked_at s) = Inr (False, if t < s + 15 \<and> s + 15 \<noteq> 0 then asked_at s else asked_at t)"
proof -
  have r: "rd_now (round_at t) i = t" "rd_sync (round_at t) i = good_env None" for i
    by (simp_all add: round_at_def silent_round_def)
  have t: "\<not> t < 0" "i64 (t + 15) = Inr (t + 15)" using assms by (simp_all add: i64_def in_i64_def)
  have n: "set_next_allowed 0 (t + 15) (one_server\<lparr>g_sync_sock := 5\<rparr>) = asked_at t" by (simp add: asked_at_def)
  show "sync_server F (round_at t) 0 one_server = Inr (False, asked_at t)"
    by (simp add: sync_server_code r t one_server_simps silent_server n)
  show "sync_server F (round_at t) 0 (asked_at s) = Inr (False, if t < s + 15 \<and> s + 15 \<noteq> 0 then asked_at s else asked_at t)"
    by (cases "t < s + 15 \<and> s + 15 \<noteq> 0") (auto simp: sync_server_code r t asked_at_simps silent_again Let_def)
qed

lemma server_turns:
  "server_turn F (round_at 1000, 0) one_server = Inr (True, asked_at 1000)"
  "server_turn F (round_at 1010, 0) (asked_at 1000) = Inr (False, asked_at 1000)"
  "server_turn F (round_at 1020, 0) (asked_at 1000) = Inr (True, asked_at 1020)"
proof -
  have r: "rd_now (round_at t) 0 = t" for t by (simp add: round_at_def silent_round_def)
  show "server_turn F (round_at 1000, 0) one_server = Inr (True, asked_at 1000)"
    "server_turn F (round_at 1010, 0) (asked_at 1000) = Inr (False, asked_at 1000)"
    "server_turn F (round_at 1020, 0) (asked_at 1000) = Inr (True, asked_at 1020)"
    by (simp_all add: server_turn_def sync_turns asks_iff may_ask_def r asked_at_simps one_server_simps)
qed

lemma three_rounds:
  "main_loop F [round_at 1000, round_at 1010, round_at 1020] one_server = Inr (False, [False, False, False], asked_at 1020)"
proof -
  have r: "\<not> rd_shutdown (round_at t)" for t by (simp add: round_at_def silent_round_def)
  have c: "sync_servers F R [0] d = bindR (sync_server F R 0 d) (\<lambda>(ok, d). Inr (ok, d))" for R d
    by (simp add: split_def)
  have l: "length (g_servers one_server) = 1" "length (g_servers (asked_at t)) = 1"
    "g_servers one_server \<noteq> []" "g_servers (asked_at t) \<noteq> []" for t
    by (simp_all add: one_server_simps asked_at_simps)
  show ?thesis
    by (simp add: r c l sync_turns asked_at_simps(2-4) one_server_simps(7) del: sync_servers.simps)
qed

lemma servers_are_asked_apart_witness:
  "\<exists>e. bindR (main_loop exact_fpu [round_at 1000, round_at 1010, round_at 1020] one_server) (\<lambda>(_, _, e). Inr e) = Inr e \<and>
     asked_run exact_fpu [(round_at 1000, 0), (round_at 1010, 0), (round_at 1020, 0)] one_server = [True, False, True] \<and>
     last_asked e = [0 \<mapsto> 1020]"
proof -
  let ?evs = "[(round_at 1000, 0), (round_at 1010, 0), (round_at 1020, 0)]"
  have run: "run_all (server_turn exact_fpu) ?evs one_server = Inr ([True, False, True], asked_at 1020)"
    by (simp add: server_turns)
  have evs: "?evs = turns (length (g_servers one_server))
      (rounds_done (g_cli one_server) [round_at 1000, round_at 1010, round_at 1020])"
    by (simp add: turns_def rounds_done_def one_server_simps round_at_def silent_round_def)
  have fresh: "\<forall>s\<in>set (g_servers one_server). srv_next_allowed_sync s = 0" "g_servers one_server \<noteq> []"
    by (simp_all add: one_server_simps)
  have t: "turn_time (round_at t, 0) = t" if "0 \<le> t" for t
    using that by (simp add: turn_time_def round_at_def silent_round_def)
  note apart = servers_are_asked_apart [OF one_server_simps(2) fresh(2,1) evs, of exact_fpu]
  have "bindR (main_loop exact_fpu [round_at 1000, round_at 1010, round_at 1020] one_server) (\<lambda>(_, _, e). Inr e) =
      Inr (asked_at 1020)"
    using apart run by (simp del: main_loop.simps run_all.simps asked_run.simps)
  moreover have "asked_run exact_fpu ?evs one_server = [True, False, True] \<and> last_asked (asked_at 1020) =
      fold (\<lambda>(ev, a) m. if a then m(snd ev \<mapsto> turn_time ev) else m) (zip ?evs [True, False, True]) Map.empty"
    using apart run by blast
  ultimately show ?thesis using t by (intro exI [of _ "asked_at 1020"]) (simp del: main_loop.simps asked_run.simps)
qed

end
