(* ===== verification/Startup.thy ===== *)
theory Startup
  imports DaemonMain
begin

section \<open>The process that main sets up (main.c)\<close>

text \<open>
  What \<open>main\<close> does to its process around the start of the modules: the system log's facility, the log
  file and the standard error stream, signal handlers, session, file mask and process id file. The
  files are a map from names to contents. What the system answers is in \<open>os_env\<close>; \<open>setsid\<close> fails in a
  process that leads its group, as every process does that a shell has started.
\<close>

datatype facility = LOG_USER | LOG_DAEMON

record process =
  pr_facility :: "facility option"
  pr_stderr :: "string option"
  pr_printed :: string
  pr_files :: "string \<Rightarrow> string option"
  pr_handled :: "nat \<Rightarrow> bool"
  pr_session_leader :: bool
  pr_umask :: nat

record os_env =
  os_append_ok :: "string \<Rightarrow> bool"
  os_write_ok :: "string \<Rightarrow> bool"
  os_group_leader :: bool
  os_pid :: nat

abbreviation SIGHUP :: nat where "SIGHUP \<equiv> 1"
abbreviation SIGINT :: nat where "SIGINT \<equiv> 2"
abbreviation SIGALRM :: nat where "SIGALRM \<equiv> 14"
abbreviation SIGTERM :: nat where "SIGTERM \<equiv> 15"

text \<open>Standard error is what the process inherited, or a file.\<close>

definition print_err :: "string \<Rightarrow> process \<Rightarrow> process" where
  "print_err t p =
     (case pr_stderr p of
        None \<Rightarrow> p\<lparr>pr_printed := pr_printed p @ t\<rparr>
      | Some f \<Rightarrow> p\<lparr>pr_files := (pr_files p)(f \<mapsto> (case pr_files p f of None \<Rightarrow> [] | Some old \<Rightarrow> old) @ t)\<rparr>)"

definition open_syslog :: "CliConfig \<Rightarrow> process \<Rightarrow> process" where
  "open_syslog c p =
     p\<lparr>pr_facility := Some (if foreground c \<noteq> 0 \<or> 0 < debug_level c then LOG_USER else LOG_DAEMON)\<rparr>"

definition open_log_file :: "os_env \<Rightarrow> CliConfig \<Rightarrow> process \<Rightarrow> process" where
  "open_log_file E c p =
     (case log_file c of
        None \<Rightarrow> p
      | Some f \<Rightarrow>
          if os_append_ok E f then
            (let p = p\<lparr>pr_files := (pr_files p)(f \<mapsto> (case pr_files p f of None \<Rightarrow> [] | Some old \<Rightarrow> old))\<rparr>;
                 p = (if daemonizes c then p\<lparr>pr_stderr := Some f\<rparr> else p)
             in print_err (''Log file opened: '' @ f @ newline) p)
          else p)"

text \<open>The process up to the reading of the server list.\<close>

definition begin_process :: "os_env \<Rightarrow> CliConfig \<Rightarrow> process \<Rightarrow> process" where
  "begin_process E c p =
     (let p = (if 0 < debug_level c
               then print_err (''Debug mode enabled (level '' @ signed_decimal (debug_level c) @ '')'' @ newline) p
               else p)
      in open_log_file E c (open_syslog c p))"

definition install_handlers :: "process \<Rightarrow> process" where
  "install_handlers p = p\<lparr>pr_handled := (pr_handled p)(SIGINT := True, SIGTERM := True, SIGALRM := True)\<rparr>"

definition write_pid_file :: "os_env \<Rightarrow> CliConfig \<Rightarrow> process \<Rightarrow> process" where
  "write_pid_file E c p =
     (case pid_file c of
        None \<Rightarrow> p
      | Some f \<Rightarrow> if os_write_ok E f then p\<lparr>pr_files := (pr_files p)(f \<mapsto> decimal (os_pid E) @ newline)\<rparr> else p)"

text \<open>And from there to the start of the modules, where the user may change as well (\<open>drop_privileges\<close>).\<close>

definition detach_process :: "os_env \<Rightarrow> CliConfig \<Rightarrow> process \<Rightarrow> process" where
  "detach_process E c p =
     (let p = install_handlers p
      in if daemonizes c then
           (let p = (if os_group_leader E then p else p\<lparr>pr_session_leader := True\<rparr>);
                p = p\<lparr>pr_umask := 0\<rparr>
            in write_pid_file E c p)
         else p)"

text \<open>
  A signal in the running daemon: \<open>signal_handler\<close> asks for the shutdown; without a handler each of the four
  signals here ends the process.
\<close>

datatype signal_effect = Shutdown_requested | Process_ends

definition signal_handler :: signal_effect where
  "signal_handler = Shutdown_requested"

definition deliver :: "nat \<Rightarrow> process \<Rightarrow> signal_effect" where
  "deliver s p = (if pr_handled p s then signal_handler else Process_ends)"

definition old_text :: "process \<Rightarrow> string \<Rightarrow> string" where
  "old_text p f = (case pr_files p f of None \<Rightarrow> [] | Some t \<Rightarrow> t)"

lemma begin_process_frame:
  "pr_handled (begin_process E c p) = pr_handled p" "pr_session_leader (begin_process E c p) = pr_session_leader p"
  by (simp_all add: begin_process_def open_log_file_def open_syslog_def print_err_def Let_def split: option.split)

lemma open_syslog_frame:
  "pr_files (open_syslog c p) = pr_files p" "pr_stderr (open_syslog c p) = pr_stderr p"
  by (simp_all add: open_syslog_def)

lemma print_err_frame:
  assumes "pr_stderr p = None"
  shows "pr_files (print_err t p) = pr_files p" "pr_stderr (print_err t p) = None"
  using assms by (simp_all add: print_err_def)

lemma open_log_file_log:
  assumes "log_file c = Some f" "os_append_ok E f" "pr_stderr p = None"
  shows "pr_files (open_log_file E c p) f =
    Some (old_text p f @ (if daemonizes c then ''Log file opened: '' @ f @ newline else []))"
  using assms by (simp add: open_log_file_def print_err_def old_text_def Let_def del: append.simps)

lemma open_log_file_other:
  assumes "log_file c \<noteq> Some f" "pr_stderr p = None"
  shows "pr_files (open_log_file E c p) f = pr_files p f"
  using assms by (simp add: open_log_file_def print_err_def Let_def del: append.simps split: option.split)

lemma begin_process_files:
  assumes "pr_stderr p = None"
  shows "\<exists>p'. begin_process E c p = open_log_file E c p' \<and> pr_stderr p' = None \<and> pr_files p' = pr_files p"
proof -
  define q where "q = (if 0 < debug_level c
    then print_err (''Debug mode enabled (level '' @ signed_decimal (debug_level c) @ '')'' @ newline) p else p)"
  have "pr_stderr q = None" "pr_files q = pr_files p" using assms by (simp_all add: q_def print_err_frame)
  moreover have "begin_process E c p = open_log_file E c (open_syslog c q)"
    unfolding begin_process_def q_def Let_def ..
  ultimately show ?thesis using open_syslog_frame [of c q] by metis
qed

lemma begin_process_log:
  assumes "log_file c = Some f" "os_append_ok E f" "pr_stderr p = None"
  shows "pr_files (begin_process E c p) f =
    Some (old_text p f @ (if daemonizes c then ''Log file opened: '' @ f @ newline else []))"
  using begin_process_files [OF assms(3), of E c] open_log_file_log [OF assms(1,2)] by (auto simp: old_text_def)

lemma detach_frame:
  "pr_handled (detach_process E c p) s \<longleftrightarrow> s = SIGINT \<or> s = SIGTERM \<or> s = SIGALRM \<or> pr_handled p s"
  "pr_session_leader (detach_process E c p) \<longleftrightarrow> pr_session_leader p \<or> (daemonizes c \<and> \<not> os_group_leader E)"
  "pid_file c \<noteq> Some f \<Longrightarrow> pr_files (detach_process E c p) f = pr_files p f"
  by (auto simp: detach_process_def install_handlers_def write_pid_file_def Let_def split: option.split)

text \<open>
  The process that \<open>main\<close> sets up, whatever the options. Interrupt, termination and alarm ask for the shutdown,
  but a hangup, which the service file sends to reload, still ends the daemon; started from a shell it stays in the
  shell's session; and the log file gets one line and nothing more, or none at all in the foreground.
\<close>

theorem process_set_up:
  assumes "q = detach_process E c (begin_process E c p)" "pr_stderr p = None"
    and "\<not> pr_handled p SIGHUP" "\<not> pr_session_leader p" "os_group_leader E"
    and "log_file c = Some f" "os_append_ok E f" "pid_file c \<noteq> Some f"
  shows "deliver SIGHUP q = Process_ends \<and> (\<forall>s\<in>{SIGINT, SIGTERM, SIGALRM}. deliver s q = Shutdown_requested) \<and>
    \<not> pr_session_leader q \<and>
    pr_files q f = Some (old_text p f @ (if daemonizes c then ''Log file opened: '' @ f @ newline else []))"
  using assms begin_process_log [OF assms(6,7,2)] by (auto simp: detach_frame begin_process_frame deliver_def signal_handler_def)

text \<open>The process id file of a daemon names it, and only a daemon has one.\<close>

lemma pid_file_written:
  assumes "q = detach_process E c (begin_process E c p)" "pid_file c = Some f" "os_write_ok E f" "log_file c \<noteq> Some f"
    "pr_stderr p = None"
  shows "pr_files q f = (if daemonizes c then Some (decimal (os_pid E) @ newline) else pr_files p f)"
proof -
  obtain p' where "begin_process E c p = open_log_file E c p'" "pr_stderr p' = None" "pr_files p' = pr_files p"
    using begin_process_files [OF assms(5)] by blast
  then have "pr_files (begin_process E c p) f = pr_files p f" using open_log_file_other [OF assms(4)] by simp
  then show ?thesis using assms(1-3)
    by (simp add: detach_process_def install_handlers_def write_pid_file_def Let_def)
qed

definition shell_child :: process where
  "shell_child = \<lparr>pr_facility = None, pr_stderr = None, pr_printed = [], pr_files = (\<lambda>_. None), pr_handled = (\<lambda>_. False),
     pr_session_leader = False, pr_umask = 18\<rparr>"

definition shell_env :: os_env where
  "shell_env = \<lparr>os_append_ok = (\<lambda>_. True), os_write_ok = (\<lambda>_. True), os_group_leader = True, os_pid = 4711\<rparr>"

lemma process_set_up_witness:
  "\<exists>q. q = detach_process shell_env (default_cli\<lparr>log_file := Some ''log''\<rparr>)
             (begin_process shell_env (default_cli\<lparr>log_file := Some ''log''\<rparr>) shell_child) \<and>
     deliver SIGHUP q = Process_ends \<and> pr_files q ''log'' = Some (''Log file opened: log'' @ newline)"
  using process_set_up [OF refl, of shell_child shell_env "default_cli\<lparr>log_file := Some ''log''\<rparr>" "''log''"]
  by (simp add: shell_child_def shell_env_def default_cli_def old_text_def daemonizes_def)

end
