(* ===== verification/FrequencyFile.thy ===== *)
theory FrequencyFile
  imports Frequency LeapSecond
begin

section \<open>The frequency file (time_sync.c)\<close>

text \<open>
  \<open>freq_file_write\<close> and \<open>freq_file_read\<close> on the text of the file, around the load and save
  functions of Frequency: the number is written with \<open>%.9f\<close>, rounded to nine decimals, ties to
  even, and read with \<open>%lf\<close>. A text that is a plain decimal number is read here; what \<open>fscanf\<close> makes of any
  other text (exponents, infinities, nonsense) is the parameter \<open>other\<close>.
\<close>

definition nearest :: "rat \<Rightarrow> int" where
  "nearest x =
     (let n = \<lfloor>x\<rfloor>; r = x - of_int n in if r < 1 / 2 \<or> (r = 1 / 2 \<and> even n) then n else n + 1)"

definition format_f9 :: "rat \<Rightarrow> string" where
  "format_f9 x =
     (let n = nat (nearest (\<bar>x\<bar> * 10 ^ 9))
      in (if x < 0 then ''-'' else []) @ decimal (n div 10 ^ 9) @ ''.'' @ padded 9 (n mod 10 ^ 9))"

definition plain_number :: "string \<Rightarrow> rat option" where
  "plain_number s =
     (let t = skip_space s; neg = (t \<noteq> [] \<and> hd t = CHR ''-'');
          u = (if t \<noteq> [] \<and> (hd t = CHR ''-'' \<or> hd t = CHR ''+'') then tl t else t);
          whole = takeWhile is_digit u; v = dropWhile is_digit u; point = (v \<noteq> [] \<and> hd v = CHR ''.'');
          part = (if point then takeWhile is_digit (tl v) else []);
          rest = (if point then dropWhile is_digit (tl v) else v);
          q = of_nat (digits_val (whole @ part)) / 10 ^ length part
      in if whole @ part \<noteq> [] \<and> (rest = [] \<or> is_space (hd rest)) then Some (if neg then - q else q) else None)"

definition fscanf_lf :: "fpu \<Rightarrow> (string \<Rightarrow> fval option) \<Rightarrow> string \<Rightarrow> fval option" where
  "fscanf_lf F other s = (case plain_number s of Some q \<Rightarrow> Some (Finite (rnd F q)) | None \<Rightarrow> other s)"

text \<open>The new contents, \<open>None\<close> when the file cannot be opened.\<close>

definition freq_file_write :: "bool \<Rightarrow> rat \<Rightarrow> int \<times> string option" where
  "freq_file_write open_ok ppm = (if open_ok then (0, Some (format_f9 ppm @ [CHR 0x0A])) else (- 1, None))"

definition freq_file_read :: "fpu \<Rightarrow> (string \<Rightarrow> fval option) \<Rightarrow> string option \<Rightarrow> int \<times> fval option" where
  "freq_file_read F other file =
     (case file of
        None \<Rightarrow> (- 1, None)
      | Some contents \<Rightarrow>
          (case fscanf_lf F other contents of None \<Rightarrow> (- 1, None) | Some ppm \<Rightarrow> (0, Some ppm)))"

text \<open>
  Saving and loading with the file. An infinity or NaN passes neither comparison with the limits, so it is
  as good as no number.
\<close>

definition save_frequency_file :: "bool \<Rightarrow> daemon \<Rightarrow> string option \<Rightarrow> string option" where
  "save_frequency_file open_ok d file =
     (case snd (save_frequency_persistent d) of
        None \<Rightarrow> file
      | Some ppm \<Rightarrow> (case snd (freq_file_write open_ok ppm) of None \<Rightarrow> file | Some contents \<Rightarrow> Some contents))"

definition load_frequency_file ::
    "fpu \<Rightarrow> (string \<Rightarrow> fval option) \<Rightarrow> string option \<Rightarrow> daemon \<Rightarrow> int \<times> daemon" where
  "load_frequency_file F other file d =
     load_frequency_persistent
       (case freq_file_read F other file of (_, Some (Finite ppm)) \<Rightarrow> Some ppm | _ \<Rightarrow> None) d"

subsection \<open>Decimal numerals\<close>

lemma zeros_val: "digits_val (replicate k (CHR ''0'')) = 0"
proof -
  have "fold (\<lambda>c v. 10 * v + digit_val c) (replicate k (CHR ''0'')) 0 = 0"
    by (induction k) (simp_all add: digit_val_def)
  then show ?thesis by (simp add: digits_val_def)
qed

lemma padded_digits:
  assumes "n < 10 ^ Suc k"
  shows "length (padded (Suc k) n) = Suc k" "\<forall>c\<in>set (padded (Suc k) n). is_digit c"
    "digits_val (padded (Suc k) n) = n"
  using decimal_digits [of n] decimal_length [OF assms]
  by (auto simp: padded_def digits_val_append zeros_val is_digit_def)

lemma plain_number_text:
  assumes "W \<noteq> []" "\<forall>c\<in>set W. is_digit c" "\<forall>c\<in>set P. is_digit c"
  shows "plain_number ((if neg then ''-'' else []) @ W @ ''.'' @ P @ [CHR 0x0A]) =
    Some (let q = of_nat (digits_val (W @ P)) / 10 ^ length P in if neg then - q else q)"
proof -
  obtain c cs where W: "W = c # cs" using assms(1) by (cases W) auto
  have c: "\<not> is_space c" "c \<noteq> CHR ''-''" "c \<noteq> CHR ''+''" "is_digit c"
    using assms(2) by (auto simp: W is_digit_def is_space_def)
  have nd: "\<not> is_digit (CHR ''.'')" "\<not> is_digit (CHR 0x0A)" "is_space (CHR 0x0A)" "\<not> is_space (CHR ''-'')"
    by (simp_all add: is_digit_def is_space_def)
  have d: "takeWhile is_digit (W @ CHR ''.'' # r) = W" "dropWhile is_digit (W @ CHR ''.'' # r) = CHR ''.'' # r"
    "takeWhile is_digit (P @ [CHR 0x0A]) = P" "dropWhile is_digit (P @ [CHR 0x0A]) = [CHR 0x0A]" for r
    using assms(2,3) nd by (simp_all add: takeWhile_append dropWhile_append)
  show ?thesis
    using d c nd by (cases neg) (simp_all add: plain_number_def skip_space_def W Let_def)
qed

subsection \<open>Rounding\<close>

lemma nearest_bounds:
  "\<bar>of_int (nearest x) - x\<bar> \<le> 1 / 2" "of_int k \<le> x \<Longrightarrow> k \<le> nearest x" "x \<le> of_int k \<Longrightarrow> nearest x \<le> k"
proof -
  have f: "of_int \<lfloor>x\<rfloor> \<le> x" "x < of_int \<lfloor>x\<rfloor> + 1" by linarith+
  show "\<bar>of_int (nearest x) - x\<bar> \<le> 1 / 2" using f by (auto simp: nearest_def Let_def abs_le_iff)
  show "k \<le> nearest x" if "of_int k \<le> x" 
  proof -
    have "k \<le> \<lfloor>x\<rfloor>" using that by (simp add: le_floor_iff)
    then show ?thesis by (simp add: nearest_def Let_def)
  qed
  show "nearest x \<le> k" if "x \<le> of_int k"
  proof (cases "\<lfloor>x\<rfloor> = k")
    case True
    then have "x = of_int k" using f that by simp
    then show ?thesis by (simp add: nearest_def)
  next
    case False
    then have "\<lfloor>x\<rfloor> < k" using that by (simp add: order.strict_iff_order floor_le_iff)
    then show ?thesis by (auto simp: nearest_def Let_def)
  qed
qed

lemma double_near:
  assumes "fpu_ok F" "\<bar>q\<bar> \<le> 128"
  shows "\<bar>rnd F q - q\<bar> \<le> 1 / 2 ^ 45"
proof -
  define D i where "D = (2 :: rat) ^ 45" and "i = \<lfloor>q * D\<rfloor>"
  have D: "0 < D" "of_int (128 * 2 ^ 45) = 128 * D" "of_int (- (128 * 2 ^ 45)) = - 128 * D" by (simp_all add: D_def)
  have "q * D \<le> 128 * D" "- 128 * D \<le> q * D"
    using mult_right_mono [of q 128 D] mult_right_mono [of "- 128" q D] assms(2) D(1) by (simp_all add: abs_le_iff)
  then have "q * D \<le> of_int (128 * 2 ^ 45)" "of_int (- (128 * 2 ^ 45)) \<le> q * D" by (simp_all only: D)
  then have "i \<le> 128 * 2 ^ 45" "- (128 * 2 ^ 45) \<le> i"
    unfolding i_def using floor_mono [of "q * D" "of_int (128 * 2 ^ 45)"] by (simp_all only: floor_of_int le_floor_iff)
  then have "\<bar>i\<bar> \<le> 2 ^ 53" "\<bar>i + 1\<bar> \<le> 2 ^ 53" by auto
  moreover have "rnd F (of_int j / D) = of_int j / D" if "\<bar>j\<bar> \<le> 2 ^ 53" for j
    unfolding D_def by (rule assms(1) [unfolded fpu_ok_def, THEN conjunct2, rule_format, OF that]) simp
  ultimately have e: "rnd F (of_int i / D) = of_int i / D" "rnd F (of_int (i + 1) / D) = of_int (i + 1) / D"
    by blast+
  have s: "of_int (i + 1) / D = of_int i / D + 1 / D" by (simp add: add_divide_distrib)
  have "of_int i \<le> q * D" "q * D \<le> of_int (i + 1)" unfolding i_def by linarith+
  then have q: "of_int i / D \<le> q" "q \<le> of_int (i + 1) / D"
    using D(1) by (simp_all only: pos_divide_le_eq pos_le_divide_eq)
  have "of_int i / D \<le> rnd F q" "rnd F q \<le> of_int (i + 1) / D"
    using fpu_ok_mono [OF assms(1) q(1)] fpu_ok_mono [OF assms(1) q(2)] by (simp_all only: e)
  then have "\<bar>rnd F q - q\<bar> \<le> 1 / D" using q unfolding s by linarith
  then show ?thesis by (simp only: D_def)
qed

subsection \<open>Round trip\<close>

lemma written_number:
  fixes x :: rat
  defines "n \<equiv> nat (nearest (\<bar>x\<bar> * 10 ^ 9))"
  shows "plain_number (format_f9 x @ [CHR 0x0A]) =
    Some (let q = of_nat n / 10 ^ 9 in if x < 0 then - q else q)"
proof -
  have "n mod 10 ^ 9 < 10 ^ Suc 8" by simp
  note p = padded_digits [OF this]
  note w = decimal_digits [of "n div 10 ^ 9"]
  have s: "Suc 8 = 9" by simp
  have v: "digits_val (decimal (n div 10 ^ 9) @ padded 9 (n mod 10 ^ 9)) = n"
    using p w unfolding digits_val_append s by simp
  have "format_f9 x @ [CHR 0x0A] = (if x < 0 then ''-'' else []) @ decimal (n div 10 ^ 9) @ ''.'' @
      padded 9 (n mod 10 ^ 9) @ [CHR 0x0A]"
    unfolding format_f9_def n_def Let_def by (simp only: append_assoc)
  then show ?thesis
    using plain_number_text [of "decimal (n div 10 ^ 9)" "padded 9 (n mod 10 ^ 9)" "x < 0"] p w
    unfolding s by (simp only: v) simp
qed

text \<open>What is read back, to the tenth decimal.\<close>

lemma read_back:
  fixes x :: rat
  obtains q where "plain_number (format_f9 x @ [CHR 0x0A]) = Some q" "\<bar>q - x\<bar> \<le> 1 / (2 * 10 ^ 9)"
    "\<forall>k. \<bar>x\<bar> * 10 ^ 9 \<le> of_nat k \<longrightarrow> \<bar>q\<bar> \<le> of_nat k / 10 ^ 9"
    "\<forall>k. of_nat k \<le> \<bar>x\<bar> * 10 ^ 9 \<longrightarrow> of_nat k / 10 ^ 9 \<le> \<bar>q\<bar>"
    "x < 0 \<Longrightarrow> q \<le> 0" "0 \<le> x \<Longrightarrow> 0 \<le> q"
proof -
  let ?y = "\<bar>x\<bar> * 10 ^ 9"
  define n where "n = nat (nearest ?y)"
  have pos: "0 \<le> nearest ?y" using nearest_bounds(2) [of 0 ?y] by simp
  then have n: "of_nat n = (of_int (nearest ?y) :: rat)" by (simp add: n_def)
  define q where "q = (if x < 0 then - (of_nat n / 10 ^ 9) else of_nat n / (10 ^ 9 :: rat))"
  have a: "\<bar>of_nat n - ?y\<bar> \<le> 1 / 2" using nearest_bounds(1) [of ?y] by (simp only: n)
  show thesis
  proof
    show "plain_number (format_f9 x @ [CHR 0x0A]) = Some q"
      using written_number [of x] by (simp only: q_def n_def Let_def)
    have "\<bar>of_nat n / 10 ^ 9 - \<bar>x\<bar>\<bar> \<le> 1 / (2 * 10 ^ 9)"
      using a by (simp add: abs_le_iff field_simps)
    then show "\<bar>q - x\<bar> \<le> 1 / (2 * 10 ^ 9)" by (auto simp: q_def abs_if split: if_splits)
    have q: "\<bar>q\<bar> = of_nat n / 10 ^ 9" by (simp add: q_def)
    have "\<bar>q\<bar> \<le> of_nat k / 10 ^ 9" if "?y \<le> of_nat k" for k
      using nearest_bounds(3) [of ?y "int k"] that unfolding q n_def by (simp add: divide_right_mono)
    then show "\<forall>k. ?y \<le> of_nat k \<longrightarrow> \<bar>q\<bar> \<le> of_nat k / 10 ^ 9" by blast
    have "of_nat k / 10 ^ 9 \<le> \<bar>q\<bar>" if "of_nat k \<le> ?y" for k
      using nearest_bounds(2) [of "int k" ?y] that unfolding q n_def by (simp add: divide_right_mono)
    then show "\<forall>k. of_nat k \<le> ?y \<longrightarrow> of_nat k / 10 ^ 9 \<le> \<bar>q\<bar>" by blast
  qed (simp_all add: q_def)
qed

text \<open>
  C26: the frequency survives a restart, to a billionth of a part per million, unless it is within that of the limit;
  a frequency at the limit, which is what the clamping leaves of any larger one, is written but
  refused when it is read, so the daemon starts as if it had never been disciplined.
\<close>

theorem frequency_survives_restart:
  assumes "fpu_ok F" "fr_state (g_freq_state d) = FREQ_STATE_SYNC" "ppm = fr_ppm (g_freq_state d)"
    and "load_frequency_file F other (save_frequency_file True d old) e = (rc, e')"
  shows "(\<bar>ppm\<bar> \<le> 128 - 1 / 10 ^ 9 \<longrightarrow>
      rc = 0 \<and> fr_state (g_freq_state e') = FREQ_STATE_FSET \<and> \<bar>fr_ppm (g_freq_state e') - ppm\<bar> \<le> 1 / 10 ^ 9) \<and>
    (128 \<le> \<bar>ppm\<bar> \<longrightarrow> rc = - 1 \<and> fr_state (g_freq_state e') = FREQ_STATE_NSET)"
proof -
  obtain q where q: "plain_number (format_f9 ppm @ [CHR 0x0A]) = Some q" "\<bar>q - ppm\<bar> \<le> 1 / (2 * 10 ^ 9)"
    "\<forall>k. \<bar>ppm\<bar> * 10 ^ 9 \<le> of_nat k \<longrightarrow> \<bar>q\<bar> \<le> of_nat k / 10 ^ 9"
    "\<forall>k. of_nat k \<le> \<bar>ppm\<bar> * 10 ^ 9 \<longrightarrow> of_nat k / 10 ^ 9 \<le> \<bar>q\<bar>"
    "ppm < 0 \<Longrightarrow> q \<le> 0" "0 \<le> ppm \<Longrightarrow> 0 \<le> q" using read_back [of ppm] by blast
  have l: "load_frequency_persistent (Some (rnd F q)) e = (rc, e')"
    using assms(2,4) q(1) by (simp add: save_frequency_file_def save_frequency_persistent_def freq_file_write_def
        load_frequency_file_def freq_file_read_def fscanf_lf_def flip: assms(3))
  have mono: "x \<le> y \<Longrightarrow> rnd F x \<le> rnd F y" for x y using fpu_ok_mono [OF assms(1)] .
  show ?thesis
  proof (rule conjI; rule impI)
    assume "\<bar>ppm\<bar> \<le> 128 - 1 / 10 ^ 9"
    then have "\<bar>ppm\<bar> * 10 ^ 9 \<le> of_nat (128 * 10 ^ 9 - 1)" by simp
    then have b: "\<bar>q\<bar> \<le> 128 - 1 / 10 ^ 9" using q(3) [rule_format, of "128 * 10 ^ 9 - 1"] by simp
    then have "\<bar>q\<bar> \<le> 128" by simp
    then have n: "\<bar>rnd F q - q\<bar> \<le> 1 / 2 ^ 45" by (rule double_near [OF assms(1)])
    have s: "(1 :: rat) / 2 ^ 45 < 1 / (2 * 10 ^ 9)" by simp
    have t: "(1 :: rat) / (2 * 10 ^ 9) + 1 / (2 * 10 ^ 9) = 1 / 10 ^ 9" "(0 :: rat) < 1 / (2 * 10 ^ 9)" by simp_all
    have "\<bar>rnd F q\<bar> < 128" "\<bar>rnd F q - ppm\<bar> \<le> 1 / 10 ^ 9" using s t b n q(2) by linarith+
    moreover from this(1) have "- 128 < rnd F q" "rnd F q < 128" by linarith+
    ultimately show "rc = 0 \<and> fr_state (g_freq_state e') = FREQ_STATE_FSET \<and> \<bar>fr_ppm (g_freq_state e') - ppm\<bar> \<le> 1 / 10 ^ 9"
      using l by (auto simp: load_frequency_persistent_def)
  next
    assume "128 \<le> \<bar>ppm\<bar>"
    then have b: "128 \<le> \<bar>q\<bar>" using q(4) [rule_format, of "128 * 10 ^ 9"] by simp
    have "128 \<le> \<bar>rnd F q\<bar>"
    proof (cases "ppm < 0")
      case True
      then have "q \<le> of_int (- 128)" using q(5) b by simp
      then show ?thesis using mono [of q "of_int (- 128)"] fpu_ok_int [OF assms(1), of "- 128"] by simp
    next
      case False
      then have "of_int 128 \<le> q" using q(6) b by simp
      then show ?thesis using mono [of "of_int 128" q] fpu_ok_int [OF assms(1), of 128] by simp
    qed
    then show "rc = - 1 \<and> fr_state (g_freq_state e') = FREQ_STATE_NSET"
      using l by (auto simp: load_frequency_persistent_def split: if_splits)
  qed
qed

definition disciplined :: "rat \<Rightarrow> daemon" where
  "disciplined ppm = initial_daemon\<lparr>g_freq_state := zero_freq\<lparr>fr_state := FREQ_STATE_SYNC, fr_ppm := ppm\<rparr>\<rparr>"

lemma frequency_survives_restart_witness:
  "\<exists>rc e'. load_frequency_file exact_fpu (\<lambda>_. None) (save_frequency_file True (disciplined (1 / 3)) None) initial_daemon
      = (rc, e') \<and> rc = 0 \<and> \<bar>fr_ppm (g_freq_state e') - 1 / 3\<bar> \<le> 1 / 10 ^ 9"
proof -
  obtain rc e' where e: "load_frequency_file exact_fpu (\<lambda>_. None) (save_frequency_file True (disciplined (1 / 3)) None)
      initial_daemon = (rc, e')" by (metis surj_pair)
  have s: "fr_state (g_freq_state (disciplined (1 / 3))) = FREQ_STATE_SYNC"
    "fr_ppm (g_freq_state (disciplined (1 / 3))) = 1 / 3" by (simp_all add: disciplined_def)
  show ?thesis
    using frequency_survives_restart [OF exact_fpu_ok s(1) s(2) [symmetric] e] e by (intro exI [of _ rc] exI [of _ e']) simp
qed

end
