(* ===== verification/Discipline.thy ===== *)
theory Discipline
  imports Frequency
begin

section \<open>Runs of the frequency discipline (time_sync.c)\<close>

text \<open>
  \<open>update_frequency_discipline_internal\<close> again and again, with any offsets, times, jitter and
  kernel. The frequency stays within 128 ppm without being clamped, because each update moves it towards
  a clamped estimate; the state moves along NSET, FSET, SYNC and never back. But the loop filter of SYNC has a
  memory of its own that nothing sets to the frequency found before, so the
  first update in SYNC throws that frequency away.
\<close>

subsection \<open>Rounding\<close>

text \<open>
  Beyond \<open>fpu_ok\<close>: a rounded value is at most twice the exact one. Rounding to the nearest has a
  relative error of at most \<open>2^-53\<close>, and below the smallest normal number it goes to a
  neighbour on a grid that contains 0, which at most doubles it.
\<close>

definition rounding_ok :: "fpu \<Rightarrow> bool" where
  "rounding_ok F \<longleftrightarrow> fpu_ok F \<and> (\<forall>x. \<bar>rnd F x\<bar> \<le> 2 * \<bar>x\<bar>)"

lemma exact_rounding_ok: "rounding_ok exact_fpu"
  by (simp add: rounding_ok_def exact_fpu_ok) (simp add: exact_fpu_def)

lemma rnd_0: "rounding_ok F \<Longrightarrow> rnd F 0 = 0"
  unfolding rounding_ok_def by (metis abs_0 abs_le_zero_iff mult_zero_right)

lemma rnd_nonneg:
  assumes "rounding_ok F" "0 \<le> x"
  shows "0 \<le> rnd F x" "rnd F x \<le> 2 * x"
proof -
  show "0 \<le> rnd F x" using fpu_ok_mono [of F 0 x] assms rnd_0 [OF assms(1)] by (simp add: rounding_ok_def)
  show "rnd F x \<le> 2 * x" using assms unfolding rounding_ok_def by (metis abs_le_D1 abs_of_nonneg)
qed

lemma rnd_nonpos:
  assumes "rounding_ok F" "x \<le> 0"
  shows "rnd F x \<le> 0" "2 * x \<le> rnd F x"
proof -
  show "rnd F x \<le> 0" using fpu_ok_mono [of F x 0] assms rnd_0 [OF assms(1)] by (simp add: rounding_ok_def)
  have "\<bar>rnd F x\<bar> \<le> 2 * \<bar>x\<bar>" using assms(1) by (simp add: rounding_ok_def)
  then show "2 * x \<le> rnd F x" using assms(2) by (simp add: abs_if split: if_splits)
qed

text \<open>
  A step towards a target: \<open>old + a * (new - old)\<close> with a small \<open>a\<close>, every operation rounded, stays
  within the bounds of both.
\<close>

lemma towards_bounded:
  assumes F: "rounding_ok F" and a: "0 \<le> a" "a \<le> 1 / 16" and b: "\<bar>b\<bar> \<le> 2 ^ 53"
    and old: "\<bar>old\<bar> \<le> of_int b" and new: "\<bar>new\<bar> \<le> of_int b"
  shows "\<bar>rnd F (old + rnd F (a * rnd F (new - old)))\<bar> \<le> of_int b"
proof -
  define m where "m = rnd F (a * rnd F (new - old))"
  have "- of_int b \<le> old + m \<and> old + m \<le> of_int b"
  proof (cases "old \<le> new")
    case True
    then have x: "0 \<le> rnd F (new - old)" "rnd F (new - old) \<le> 2 * (new - old)"
      using rnd_nonneg [OF F, of "new - old"] True by simp_all
    then have "a * rnd F (new - old) \<le> (1 / 16) * (2 * (new - old))" "0 \<le> a * rnd F (new - old)"
      using a mult_mono [of a "1 / 16" "rnd F (new - old)" "2 * (new - old)"]
        mult_nonneg_nonneg [of a "rnd F (new - old)"] by auto
    then have "0 \<le> m" "m \<le> 2 * ((1 / 16) * (2 * (new - old)))"
      using rnd_nonneg [OF F, of "a * rnd F (new - old)"] by (simp_all add: m_def)
    then show ?thesis using old new True by (simp add: abs_le_iff)
  next
    case False
    then have x: "rnd F (new - old) \<le> 0" "2 * (new - old) \<le> rnd F (new - old)"
      using rnd_nonpos [OF F, of "new - old"] False by simp_all
    have "a * - rnd F (new - old) \<le> (1 / 16) * (2 * (old - new))" "0 \<le> a * - rnd F (new - old)"
      using a x mult_mono [of a "1 / 16" "- rnd F (new - old)" "2 * (old - new)"]
        mult_nonneg_nonneg [of a "- rnd F (new - old)"] by auto
    then have y: "- ((1 / 16) * (2 * (old - new))) \<le> a * rnd F (new - old)" "a * rnd F (new - old) \<le> 0"
      by (simp_all add: field_simps)
    have m: "m \<le> 0" "2 * (a * rnd F (new - old)) \<le> m"
      using rnd_nonpos [OF F y(2)] by (simp_all add: m_def)
    have "- ((1 / 4) * (old - new)) \<le> m" using y(1) m(2) by (simp add: field_simps)
    moreover have "old \<le> of_int b" "- of_int b \<le> new" "new < old"
      using old new False by (simp_all add: abs_le_iff)
    ultimately show ?thesis using m(1) by (simp add: field_simps)
  qed
  then show ?thesis unfolding m_def [symmetric]
    by (intro fpu_ok_bound [OF _ b]) (use F in \<open>auto simp: rounding_ok_def abs_le_iff\<close>)
qed

subsection \<open>The estimates and the filter\<close>

lemma fll_bounded: "\<bar>calculate_fll_ppm F off delta poll\<bar> \<le> 128"
  using clamp_bounds by (simp add: calculate_fll_ppm_def Let_def)

lemma pll_bounded: "\<bar>calculate_pll_ppm F off delta poll\<bar> \<le> 128"
  using clamp_bounds by (simp add: calculate_pll_ppm_def Let_def)

lemma alpha_bounds:
  assumes "rounding_ok F"
  shows "0 \<le> rnd F (1 / 100)" "rnd F (1 / 100) \<le> 1 / 16"
  using rnd_nonneg [OF assms, of "1 / 100"] by simp_all

lemma loop_filter_bounded:
  assumes "rounding_ok F" "\<bar>new\<bar> \<le> 128" "\<bar>flt\<bar> \<le> 128"
  shows "\<exists>f. apply_loop_filter F new (Some flt) (rnd F (1 / 100)) = (f, Some f) \<and> \<bar>f\<bar> \<le> 128"
  using towards_bounded [OF assms(1) alpha_bounds [OF assms(1)], of 128 flt new] assms(2,3)
  by (simp add: apply_loop_filter_def Let_def)

abbreviation freq_ppm :: "daemon \<Rightarrow> rat" where
  "freq_ppm d \<equiv> fr_ppm (g_freq_state d)"

abbreviation freq_flt :: "daemon \<Rightarrow> rat" where
  "freq_flt d \<equiv> fr_ppm_filter (g_freq_state d)"

definition freq_bounded :: "daemon \<Rightarrow> bool" where
  "freq_bounded d \<longleftrightarrow> \<bar>freq_ppm d\<bar> \<le> 128 \<and> \<bar>freq_flt d\<bar> \<le> 128"

lemma accuracy_keeps_freq:
  "update_clock_accuracy F ts res now off delta d = Inr d' \<Longrightarrow> g_freq_state d' = g_freq_state d"
  by (auto simp: update_clock_accuracy_def bindR_eq_Inr_iff Let_def split_def)

lemma gain_keeps_freq:
  "freq_ppm (update_dynamic_gain F j d) = freq_ppm d" "freq_flt (update_dynamic_gain F j d) = freq_flt d"
  by (simp_all add: update_dynamic_gain_def)

lemma adjustment_freq:
  "freq_ppm (snd (apply_frequency_adjustment F kern unsynced ppm d)) \<in> {freq_ppm d, clamp_frequency ppm}"
  "freq_flt (snd (apply_frequency_adjustment F kern unsynced ppm d)) = freq_flt d"
  "fr_last_update (g_freq_state (snd (apply_frequency_adjustment F kern unsynced ppm d))) = fr_last_update (g_freq_state d)"
  by (simp_all add: apply_frequency_adjustment_def apply_freq_adjtimex_def apply_freq_adjtime_def
      clock_command_def Let_def split_def)

text \<open>One due update, by the state it starts in.\<close>

lemma step_nset_fset:
  assumes "discipline_step F ts res now off poll jit delta d = Inr d'" "rounding_ok F" "\<bar>freq_ppm d\<bar> \<le> 128"
    "disc_state d = FREQ_STATE_NSET \<or> disc_state d = FREQ_STATE_FSET"
  shows "\<bar>freq_ppm d'\<bar> \<le> 128 \<and> freq_flt d' = freq_flt d"
proof -
  have "(1 / 16) * x = x / 16" for x :: rat by simp
  then show ?thesis
    using assms towards_bounded [OF assms(2), of "1 / 16" 128 "freq_ppm d" "calculate_fll_ppm F off delta poll"]
      fll_bounded [of F off delta poll]
    by (auto simp: discipline_step_def Let_def)
qed

lemma step_tracking:
  assumes "discipline_step F ts res now off poll jit delta d = Inr d'"
    "disc_state d \<noteq> FREQ_STATE_NSET" "disc_state d \<noteq> FREQ_STATE_FSET"
  obtains calc where "\<bar>calc\<bar> \<le> 128"
    "apply_loop_filter F calc (Some (freq_flt d)) (rnd F (1 / 100)) = (freq_ppm d', Some (freq_flt d'))"
    "freq_ppm d' = freq_flt d'"
proof -
  define calc where "calc = (if 11 \<le> poll then calculate_fll_ppm F off CLOCK_ALLAN_INTERCEPT poll
    else calculate_pll_ppm F off delta poll)"
  obtain d1 where d1: "update_clock_accuracy F ts res now off delta d = Inr d1"
    "(let (filtered, flt) = apply_loop_filter F calc (Some (freq_flt (update_dynamic_gain F jit d1))) (rnd F (1 / 100))
      in upd_freq (\<lambda>f. f\<lparr>fr_ppm_filter := the flt, fr_ppm := filtered\<rparr>) (update_dynamic_gain F jit d1)) = d'"
    using assms by (cases "disc_state d")
      (auto simp: discipline_step_def bindR_eq_Inr_iff Let_def split_def calc_def)
  obtain f where f: "apply_loop_filter F calc (Some (freq_flt d)) (rnd F (1 / 100)) = (f, Some f)"
    by (cases "\<bar>freq_flt d\<bar> < rnd F (1 / 1000) \<and> \<bar>calc\<bar> < rnd F (1 / 1000)")
      (auto simp: apply_loop_filter_def Let_def)
  have "freq_flt (update_dynamic_gain F jit d1) = freq_flt d"
    using gain_keeps_freq(2) accuracy_keeps_freq [OF d1(1)] by simp
  then have "freq_ppm d' = f" "freq_flt d' = f" using d1(2) f by auto
  moreover have "\<bar>calc\<bar> \<le> 128" by (simp add: calc_def fll_bounded pll_bounded)
  ultimately show thesis using that f by simp
qed

lemma step_bounded:
  assumes "discipline_step F ts res now off poll jit delta d = Inr d'" "rounding_ok F" "freq_bounded d"
  shows "freq_bounded d'"
proof (cases "disc_state d = FREQ_STATE_NSET \<or> disc_state d = FREQ_STATE_FSET")
  case True
  then show ?thesis using step_nset_fset [OF assms(1,2)] assms(3) by (simp add: freq_bounded_def)
next
  case False
  then obtain calc where c: "\<bar>calc\<bar> \<le> 128" "freq_ppm d' = freq_flt d'"
    "apply_loop_filter F calc (Some (freq_flt d)) (rnd F (1 / 100)) = (freq_ppm d', Some (freq_flt d'))"
    using step_tracking [OF assms(1)] by blast
  then show ?thesis using loop_filter_bounded [OF assms(2) c(1), of "freq_flt d"] assms(3)
    by (auto simp: freq_bounded_def)
qed

text \<open>One call of \<open>update_frequency_discipline_internal\<close>, with whatever arguments and kernel.\<close>

inductive discipline_update :: "fpu \<Rightarrow> daemon \<Rightarrow> daemon \<Rightarrow> bool" for F where
  updated: "update_frequency_discipline_internal F kern unsynced ts res now off poll jit d = Inr (r, d') \<Longrightarrow>
    discipline_update F d d'"

inductive_cases discipline_updateE: "discipline_update F d d'"

text \<open>An update: the step, if it is due; the stamp; the adjustment.\<close>

lemma internal_update_parts:
  assumes "update_frequency_discipline_internal F kern unsynced ts res now off poll jit d = Inr (r, d')"
  obtains d1 where
    "if now - fr_last_update (g_freq_state d) < max (2 ^ nat poll) 64 then d1 = d
     else discipline_step F ts res now off poll jit (now - fr_last_update (g_freq_state d)) d = Inr d1"
    "freq_ppm d' = freq_ppm d1 \<or> freq_ppm d' = clamp_frequency (freq_ppm d1)" "freq_flt d' = freq_flt d1"
    "disc_state d' = disc_state d1" "fr_last_update (g_freq_state d') = now"
proof -
  let ?delta = "now - fr_last_update (g_freq_state d)"
  let ?stamp = "\<lambda>d. upd_freq (\<lambda>f. f\<lparr>fr_last_update := now, fr_last_offset_us := off\<rparr>) d"
  let ?step = "if ?delta < max (2 ^ nat poll) 64 then Inr d
        else discipline_step F ts res now off poll jit ?delta d"
  have ok: "\<not> (poll < 0 \<or> 62 < poll)"
    using assms by (auto simp: update_frequency_discipline_internal_def)
  have "bindR ?step (\<lambda>d. Inr (apply_frequency_adjustment F kern unsynced
      (freq_ppm (?stamp d)) (?stamp d))) = Inr (r, d')"
    using assms ok unfolding update_frequency_discipline_internal_def Let_def by (simp only: if_False)
  then obtain d1 where step: "?step = Inr d1"
    and d': "apply_frequency_adjustment F kern unsynced (freq_ppm (?stamp d1)) (?stamp d1) = (r, d')"
    by (elim bindR_eq_InrE) (simp only: sum.inject)
  show thesis
  proof (rule that [of d1])
    show "if ?delta < max (2 ^ nat poll) 64 then d1 = d
     else discipline_step F ts res now off poll jit ?delta d = Inr d1" using step by (simp split: if_splits)
    show "freq_ppm d' = freq_ppm d1 \<or> freq_ppm d' = clamp_frequency (freq_ppm d1)" "freq_flt d' = freq_flt d1"
      "disc_state d' = disc_state d1" "fr_last_update (g_freq_state d') = now"
      using adjustment_freq [of F kern unsynced "freq_ppm (?stamp d1)" "?stamp d1"]
        adjustment_keeps_state [of F kern unsynced "freq_ppm (?stamp d1)" "?stamp d1"]
      by (simp_all only: d' snd_conv) auto
  qed
qed

lemma update_bounded:
  assumes "discipline_update F d d'" "rounding_ok F" "freq_bounded d"
  shows "freq_bounded d' \<and> disc_state d \<le> disc_state d'"
  using assms(1)
proof (rule discipline_updateE)
  fix kern unsynced ts res now off poll jit r
  assume u: "update_frequency_discipline_internal F kern unsynced ts res now off poll jit d = Inr (r, d')"
  obtain d1 where p: "if now - fr_last_update (g_freq_state d) < max (2 ^ nat poll) 64 then d1 = d
     else discipline_step F ts res now off poll jit (now - fr_last_update (g_freq_state d)) d = Inr d1"
    "freq_ppm d' = freq_ppm d1 \<or> freq_ppm d' = clamp_frequency (freq_ppm d1)" "freq_flt d' = freq_flt d1"
    using internal_update_parts [OF u] by metis
  have "freq_bounded d1" using p(1) step_bounded [OF _ assms(2,3)] assms(3) by (auto split: if_splits)
  then have "freq_bounded d'" using p(2,3) clamp_bounds by (auto simp: freq_bounded_def)
  moreover have "disc_state d \<le> disc_state d'"
    using internal_update_trans [OF u] freq_trans_le by (auto split: if_splits)
  ultimately show ?thesis by simp
qed

text \<open>
  C27: the discipline is stable. However many updates there are, with whatever offsets, poll exponents,
  times, jitter and kernel, the frequency stays within 128 ppm although only the estimates are clamped, and
  so does the memory of the loop filter; and the state never goes back.
\<close>

theorem discipline_stays_bounded:
  assumes "rounding_ok F" "\<bar>fr_ppm (g_freq_state d)\<bar> \<le> 128" "\<bar>fr_ppm_filter (g_freq_state d)\<bar> \<le> 128"
    "(discipline_update F)\<^sup>*\<^sup>* d e"
  shows "\<bar>fr_ppm (g_freq_state e)\<bar> \<le> 128 \<and> \<bar>fr_ppm_filter (g_freq_state e)\<bar> \<le> 128 \<and>
    fr_state (g_freq_state d) \<le> fr_state (g_freq_state e)"
proof -
  have "freq_bounded e \<and> disc_state d \<le> disc_state e"
    using assms(4)
  proof (induction rule: rtranclp_induct)
    case base
    then show ?case using assms(2,3) by (simp add: freq_bounded_def)
  next
    case (step x y)
    then show ?case using update_bounded [OF step.hyps(2) assms(1)] by auto
  qed
  then show ?thesis by (simp add: freq_bounded_def)
qed

text \<open>
  C28: the first update in SYNC forgets the frequency. When two updates are due, in FSET with an
  unused filter, as after the start, the frequency is within 3 ppm afterwards, whatever it was
  before: the 100 ppm that the frequency file has kept, say.
\<close>

theorem tracking_forgets_frequency:
  assumes "rounding_ok F" "fr_state (g_freq_state d) = FREQ_STATE_FSET" "fr_ppm_filter (g_freq_state d) = 0"
    "\<bar>fr_ppm (g_freq_state d)\<bar> \<le> 128"
    and "update_frequency_discipline_internal F kern unsynced ts res now off poll jit d = Inr (r, d1)"
    "max (2 ^ nat poll) 64 \<le> now - fr_last_update (g_freq_state d)"
    and "update_frequency_discipline_internal F kern' unsynced' ts' res' now' off' poll' jit' d1 = Inr (r', d2)"
    "max (2 ^ nat poll') 64 \<le> now' - fr_last_update (g_freq_state d1)"
  shows "fr_state (g_freq_state d2) = FREQ_STATE_SYNC \<and> \<bar>fr_ppm (g_freq_state d2)\<bar> \<le> 3"
proof -
  have s1: "disc_state d1 = FREQ_STATE_SYNC"
    using internal_update_trans [OF assms(5)] assms(2,6) by (auto simp: freq_trans_simps)
  have s2: "disc_state d2 = FREQ_STATE_SYNC"
    using internal_update_trans [OF assms(7)] s1 assms(8) by (auto simp: freq_trans_simps)
  obtain x where x: "discipline_step F ts res now off poll jit (now - fr_last_update (g_freq_state d)) d = Inr x"
    "freq_flt d1 = freq_flt x"
    using internal_update_parts [OF assms(5)] assms(6) by (metis linorder_not_le)
  then have f1: "freq_flt d1 = 0" using step_nset_fset [OF x(1) assms(1,4)] assms(2,3) by simp
  obtain y where y: "discipline_step F ts' res' now' off' poll' jit' (now' - fr_last_update (g_freq_state d1)) d1 = Inr y"
    "freq_ppm d2 = freq_ppm y \<or> freq_ppm d2 = clamp_frequency (freq_ppm y)"
    using internal_update_parts [OF assms(7)] assms(8) by (metis linorder_not_le)
  obtain calc where c: "\<bar>calc\<bar> \<le> 128"
    "apply_loop_filter F calc (Some 0) (rnd F (1 / 100)) = (freq_ppm y, Some (freq_flt y))"
    using step_tracking [OF y(1)] s1 f1 by (metis freq_st.distinct(3,7))
  have ok: "fpu_ok F" using assms(1) by (simp add: rounding_ok_def)
  have "\<bar>calc\<bar> \<le> of_int 128" using c(1) by simp
  from fpu_ok_bound [OF ok _ this] have r: "\<bar>rnd F calc\<bar> \<le> of_int 128" by simp
  have "\<bar>rnd F (1 / 100) * rnd F calc\<bar> \<le> (1 / 50) * 128"
    unfolding abs_mult using rnd_nonneg [OF assms(1), of "1 / 100"] r by (intro mult_mono) simp_all
  then have "\<bar>rnd F (1 / 100) * rnd F calc\<bar> \<le> of_int 3" by simp
  from fpu_ok_bound [OF ok _ this] have m: "\<bar>rnd F (rnd F (1 / 100) * rnd F calc)\<bar> \<le> of_int 3" by simp
  from fpu_ok_bound [OF ok _ m] have "\<bar>rnd F (rnd F (rnd F (1 / 100) * rnd F calc))\<bar> \<le> 3" by simp
  then have "\<bar>freq_ppm y\<bar> \<le> 3" using c(2) by (auto simp: apply_loop_filter_def Let_def split: if_splits)
  then have "\<bar>freq_ppm d2\<bar> \<le> 3" using y(2) by (auto simp: clamp_frequency_def)
  with s2 show ?thesis by simp
qed

text \<open>
  A daemon that starts with 100 ppm from its frequency file and whose clock is then right: after two
  updates with an offset of 0 the frequency is 0.
\<close>

definition drifting :: daemon where
  "drifting = upd_freq (\<lambda>f. f\<lparr>fr_ppm := 100, fr_state := FREQ_STATE_FSET\<rparr>) initial_daemon"

lemma drifting_facts:
  "fr_ppm (g_freq_state drifting) = 100" "fr_state (g_freq_state drifting) = FREQ_STATE_FSET"
  "fr_ppm_filter (g_freq_state drifting) = 0" "fr_last_update (g_freq_state drifting) = 0"
  by (simp_all add: drifting_def initial_daemon_def zero_freq_def)

lemma step_returns: "\<exists>e. discipline_step F ts None now off poll jit delta d = Inr e"
proof -
  obtain e where "update_clock_accuracy F ts None now off delta d = Inr e"
    by (simp add: update_clock_accuracy_def calculate_clock_precision_def get_system_precision_def Let_def split_def)
  then show ?thesis by (cases "disc_state d") (simp_all add: discipline_step_def Let_def split_def)
qed

lemma update_returns:
  assumes "0 \<le> poll" "poll \<le> 62"
  shows "\<exists>r e. update_frequency_discipline_internal F kern unsynced ts None now off poll jit d = Inr (r, e)"
proof -
  obtain e where e: "discipline_step F ts None now off poll jit (now - fr_last_update (g_freq_state d)) d = Inr e"
    using step_returns by blast
  have "\<exists>x. update_frequency_discipline_internal F kern unsynced ts None now off poll jit d = Inr x"
    using assms by (simp add: update_frequency_discipline_internal_def e Let_def)
  then show ?thesis by (metis surj_pair)
qed

lemma discipline_stays_bounded_witness:
  "\<exists>e. discipline_update exact_fpu drifting e \<and> \<bar>fr_ppm (g_freq_state e)\<bar> \<le> 128"
proof -
  obtain r e where e: "update_frequency_discipline_internal exact_fpu (\<lambda>_. 0) False \<lparr>tv_sec = 1000, tv_nsec = 0\<rparr> None
      1000 250 6 0 drifting = Inr (r, e)"
    using update_returns [of 6] by fastforce
  then have "discipline_update exact_fpu drifting e" by (rule discipline_update.updated)
  moreover from this have "(discipline_update exact_fpu)\<^sup>*\<^sup>* drifting e" by blast
  ultimately show ?thesis
    using discipline_stays_bounded [OF exact_rounding_ok, of drifting e] by (auto simp: drifting_facts)
qed

lemma tracking_forgets_frequency_witness:
  "\<exists>r d1 r' d2.
    update_frequency_discipline_internal exact_fpu (\<lambda>_. 0) False \<lparr>tv_sec = 1000, tv_nsec = 0\<rparr> None
      1000 0 6 0 drifting = Inr (r, d1) \<and>
    update_frequency_discipline_internal exact_fpu (\<lambda>_. 0) False \<lparr>tv_sec = 2000, tv_nsec = 0\<rparr> None
      2000 0 6 0 d1 = Inr (r', d2) \<and> \<bar>fr_ppm (g_freq_state d2)\<bar> \<le> 3"
proof -
  obtain r d1 where d1: "update_frequency_discipline_internal exact_fpu (\<lambda>_. 0) False
      \<lparr>tv_sec = 1000, tv_nsec = 0\<rparr> None 1000 0 6 0 drifting = Inr (r, d1)"
    using update_returns [of 6] by fastforce
  obtain r' d2 where d2: "update_frequency_discipline_internal exact_fpu (\<lambda>_. 0) False
      \<lparr>tv_sec = 2000, tv_nsec = 0\<rparr> None 2000 0 6 0 d1 = Inr (r', d2)"
    using update_returns [of 6] by fastforce
  have st: "fr_last_update (g_freq_state d1) = 1000" using internal_update_parts [OF d1] by metis
  have "\<bar>fr_ppm (g_freq_state d2)\<bar> \<le> 3"
    using tracking_forgets_frequency [OF exact_rounding_ok drifting_facts(2,3) _ d1 _ d2]
    by (simp add: drifting_facts st)
  with d1 d2 show ?thesis by blast
qed
end
