(* ===== verification/FilterWalk.thy ===== *)
theory FilterWalk
  imports SampleFilter
begin

section \<open>What the outlier filter keeps (filter.c)\<close>

text \<open>
  \<open>marx_filter_outliers\<close> walks over the array from which it removes the outliers, so it skips
  the sample after each outlier and meets the last one again at the end. \<open>walk\<close> is that walk on a list
  that nothing changes, and \<open>filter_out\<close> what comes out; the filter is shown to compute it, whatever the
  samples are. It never drops all of them, so the check of \<open>sync_ntp_time\<close> for that is dead code.
\<close>

subsection \<open>The walk\<close>

text \<open>Result: the samples kept, and how many outliers the walk met.\<close>

function walk :: "u64 \<Rightarrow> NtpSample list \<Rightarrow> NtpSample list \<times> nat" where
  "walk th [] = ([], 0)"
| "walk th (x # xs) =
     (if smp_delay x \<le> th then (let (kept, r) = walk th xs in (x # kept, r))
      else (let (kept, r) = walk th (tl xs) in (kept, Suc r)))"
  by pat_completeness auto
termination by (relation "measure (\<lambda>(_, xs). length xs)") auto

definition filter_out :: "u64 \<Rightarrow> NtpSample list \<Rightarrow> NtpSample list" where
  "filter_out th xs =
     fst (walk th xs) @ (if smp_delay (last xs) \<le> th then replicate (snd (walk th xs)) (last xs) else [])"

lemma walk_simps:
  "fst (walk th (x # xs)) = (if smp_delay x \<le> th then x # fst (walk th xs) else fst (walk th (tl xs)))"
  "snd (walk th (x # xs)) = (if smp_delay x \<le> th then snd (walk th xs) else Suc (snd (walk th (tl xs))))"
  by (simp_all add: split_def Let_def)

lemma walk_length: "length (fst (walk th xs)) + snd (walk th xs) \<le> length xs"
proof (induction th xs rule: walk.induct)
  case (2 th x xs)
  have "length (tl xs) \<le> length xs" by simp
  then show ?case using 2 by (cases "smp_delay x \<le> th") (auto simp: walk_simps simp del: walk.simps)
qed simp

subsection \<open>The loop follows the walk\<close>

text \<open>A stretch of good samples is copied to the front, if anything has been dropped before.\<close>

lemma filter_loop_good:
  assumes "g_samples s = K @ M @ Q @ R" "length K + length M = i" "\<forall>x\<in>set Q. smp_delay x \<le> th"
  shows "\<exists>M'. filter_loop th [i..<i + length Q] (length K) s =
    Inr (length K + length Q, s\<lparr>g_samples := K @ Q @ M' @ R\<rparr>)"
proof (cases "M = []")
  case True
  have "filter_loop th [length K..<length K + length Q] (length K) s = Inr (length K + length Q, s)"
    using assms(1,3) True by (intro filter_loop_keeps) (auto simp: nth_append)
  moreover have "s\<lparr>g_samples := K @ Q @ [] @ R\<rparr> = s" using assms(1) True by simp
  ultimately show ?thesis using assms(2) True by (metis add.right_neutral list.size(3))
next
  case False
  then have "length K < i" using assms(2) by (cases M) auto
  from filter_loop_moves [OF this refl assms(1,2,3) refl] show ?thesis by simp
qed

text \<open>Beyond the count nothing is removed any more.\<close>

lemma filter_loop_past:
  assumes "\<forall>j\<in>set is. g_sample_count s \<le> j \<and> \<not> smp_delay (g_samples s ! j) \<le> th"
  shows "filter_loop th is f s = Inr (f, s)"
  using assms by (induction "is") (auto simp: marx_remove_sample_def)

lemma filter_loop_tail:
  assumes "g_samples s = K @ M @ replicate m l @ R" "length K + length M = i" "g_sample_count s \<le> i"
  shows "\<exists>M'. filter_loop th [i..<i + m] (length K) s =
    Inr (length K + (if smp_delay l \<le> th then m else 0),
      s\<lparr>g_samples := K @ (if smp_delay l \<le> th then replicate m l else []) @ M'\<rparr>)"
proof (cases "smp_delay l \<le> th")
  case True
  then show ?thesis using filter_loop_good [OF assms(1,2), of th] by (auto split: if_splits)
next
  case False
  have "filter_loop th [i..<i + m] (length K) s = Inr (length K, s)"
    using False assms by (intro filter_loop_past) (auto simp: nth_append)
  moreover have "s\<lparr>g_samples := K @ [] @ (M @ replicate m l @ R)\<rparr> = s" using assms(1) by simp
  ultimately show ?thesis using False by (intro exI [of _ "M @ replicate m l @ R"]) (simp only: if_False, simp)
qed

text \<open>Removing the entry that is read: the last sample is there once more.\<close>

lemma remove_read:
  assumes "g_samples s = P @ x # ys @ replicate r l @ R" "length P = i" "g_sample_count s = i + 1 + length ys"
    "\<not> g_mutex s" "last (x # ys) = l"
  shows "marx_remove_sample (int i) s =
    Inr ((), s\<lparr>g_samples := P @ ys @ replicate (Suc r) l @ R, g_sample_count := i + length ys\<rparr>)"
proof -
  have "shift_down (g_samples s) i (length ys) = P @ ys @ replicate (Suc r) l @ R"
  proof (cases "ys = []")
    case True
    then show ?thesis using assms(1,2,5) by (simp add: shift_down_def)
  next
    case False
    then show ?thesis using shift_down_outlier [OF False, of P x "replicate r l @ R"] assms(1,2,5) by simp
  qed
  then show ?thesis using marx_remove_eq [OF assms(4), of i] assms(3) by simp
qed

lemma filter_loop_walk:
  assumes "g_samples s = K @ M @ ys @ replicate r l @ R" "length K + length M = i"
    "g_sample_count s = i + length ys" "\<not> g_mutex s" "ys \<noteq> [] \<Longrightarrow> last ys = l"
    "out = fst (walk th ys) @ (if smp_delay l \<le> th then replicate (r + snd (walk th ys)) l else [])"
  shows "\<exists>M'. filter_loop th [i..<i + length ys + r] (length K) s =
    Inr (length K + length out, s\<lparr>g_samples := K @ out @ M', g_sample_count := i + length ys - snd (walk th ys)\<rparr>)"
  using assms
proof (induction th ys arbitrary: s K M r i out rule: walk.induct)
  case (1 th)
  have "g_sample_count s = i" "g_sample_count s \<le> i" using "1.prems"(3) by simp_all
  then have "s\<lparr>g_sample_count := i\<rparr> = s" by simp
  then show ?case using filter_loop_tail [of s K M r l R i th] 1 \<open>g_sample_count s \<le> i\<close>
    by (cases s) auto
next
  case (2 th x ys)
  have nth: "g_samples s ! i = x" using "2.prems"(1,2) by (simp add: nth_append)
  have upt: "[i..<i + length (x # ys) + r] = i # [Suc i..<Suc i + length ys + r]"
    by (simp add: upt_conv_Cons del: upt_Suc)
  show ?case
  proof (cases "smp_delay x \<le> th")
    case True
    define t where "t = (if length K \<noteq> i then s\<lparr>g_samples := (g_samples s)[length K := x]\<rparr> else s)"
    obtain M1 where M1: "g_samples t = (K @ [x]) @ M1 @ ys @ replicate r l @ R"
      "length (K @ [x]) + length M1 = Suc i"
    proof (cases M)
      case Nil
      then show thesis using "2.prems"(1,2) that [of "[]"] by (simp add: t_def)
    next
      case (Cons m M2)
      then show thesis using "2.prems"(1,2) that [of "M2 @ [x]"] by (simp add: t_def list_update_append)
    qed
    have t: "g_sample_count t = Suc i + length ys" "\<not> g_mutex t" using "2.prems"(3,4) by (simp_all add: t_def)
    have l: "last ys = l" if "ys \<noteq> []" using "2.prems"(5) that by simp
    obtain o' where o': "o' = fst (walk th ys) @ (if smp_delay l \<le> th then replicate (r + snd (walk th ys)) l else [])"
      by blast
    obtain M' where IH: "filter_loop th [Suc i..<Suc i + length ys + r] (length (K @ [x])) t =
        Inr (length (K @ [x]) + length o', t\<lparr>g_samples := (K @ [x]) @ o' @ M',
          g_sample_count := Suc i + length ys - snd (walk th ys)\<rparr>)"
      using "2.IH"(1) [OF True M1 t l o'] by blast
    have "filter_loop th [i..<i + length (x # ys) + r] (length K) s =
        filter_loop th [Suc i..<Suc i + length ys + r] (length (K @ [x])) t"
      unfolding upt using True by (simp add: nth t_def del: upt_Suc)
    moreover have "out = x # o'" using "2.prems"(6) True o' by (simp add: walk_simps del: walk.simps)
    ultimately show ?thesis unfolding IH using True
      by (intro exI [of _ M']) (simp add: walk_simps t_def del: walk.simps)
  next
    case False
    have "g_samples s = (K @ M) @ x # ys @ replicate r l @ R" "length (K @ M) = i"
      using "2.prems"(1,2) by simp_all
    from remove_read [OF this] "2.prems"(3-5) have rem: "marx_remove_sample (int i) s =
        Inr ((), s\<lparr>g_samples := (K @ M) @ ys @ replicate (Suc r) l @ R, g_sample_count := i + length ys\<rparr>)"
      by simp
    define t where "t = s\<lparr>g_samples := (K @ M) @ ys @ replicate (Suc r) l @ R, g_sample_count := i + length ys\<rparr>"
    have step: "filter_loop th [i..<i + length (x # ys) + r] (length K) s =
        filter_loop th [Suc i..<Suc i + length ys + r] (length K) t"
      unfolding upt using False by (simp add: nth rem t_def del: upt_Suc)
    show ?thesis
    proof (cases ys)
      case Nil
      then have "l = x" using "2.prems"(5) by simp
      have "\<exists>M'. filter_loop th [Suc i..<Suc i + r] (length K) t =
        Inr (length K + (if smp_delay l \<le> th then r else 0),
          t\<lparr>g_samples := K @ (if smp_delay l \<le> th then replicate r l else []) @ M'\<rparr>)"
        using Nil "2.prems"(2) by (intro filter_loop_tail [of _ _ "M @ [l]"]) (simp_all add: t_def)
      then obtain M' where tail: "filter_loop th [Suc i..<Suc i + r] (length K) t =
        Inr (length K, t\<lparr>g_samples := K @ M'\<rparr>)" using False \<open>l = x\<close> by auto
      have "out = []" using "2.prems"(6) False Nil \<open>l = x\<close> by (simp add: walk_simps del: walk.simps) simp
      moreover have "snd (walk th [x]) = 1" using False by simp
      ultimately show ?thesis using tail unfolding step
        by (intro exI [of _ M']) (simp add: Nil t_def del: walk.simps upt_Suc)
    next
      case (Cons y zs)
      have t: "g_samples t = K @ (M @ [y]) @ tl ys @ replicate (Suc r) l @ R"
        "length K + length (M @ [y]) = Suc i" "g_sample_count t = Suc i + length (tl ys)" "\<not> g_mutex t"
        using "2.prems"(2,4) by (simp_all add: t_def Cons)
      have l: "last (tl ys) = l" if "tl ys \<noteq> []" using "2.prems"(5) that by (simp add: Cons)
      have o: "out = fst (walk th (tl ys)) @ (if smp_delay l \<le> th then replicate (Suc r + snd (walk th (tl ys))) l else [])"
        using "2.prems"(6) False by (simp add: walk_simps del: walk.simps)
      have len: "Suc i + length (tl ys) + Suc r = Suc i + length ys + r" by (simp add: Cons)
      show ?thesis
        using "2.IH"(2) [OF False t l o] step False unfolding len
        by (auto simp: walk_simps t_def Cons simp del: walk.simps)
    qed
  qed
qed

subsection \<open>Something is always kept\<close>

lemma threshold_above_median: "m \<le> marx_threshold m kmad"
proof (cases "kmad = 0 \<or> 0xFFFFFFFFFFFFFFFF - m < kmad")
  case True
  have "m \<le> 0xFFFFFFFFFFFFFFFF" using uint_lt2p [of m] by (simp add: word_le_def)
  then show ?thesis using True by (auto simp: marx_threshold_def)
next
  case False
  then have "kmad \<le> 0xFFFFFFFFFFFFFFFF - m" by (simp add: not_less)
  then have "uint m + uint kmad < 2 ^ 64"
    using uint_lt2p [of m] by (simp add: word_le_def uint_sub_if' split: if_splits)
  then have "m \<le> m + kmad" by (simp add: word_le_def uint_add_lem [THEN iffD1])
  then show ?thesis using False by (simp add: marx_threshold_def)
qed

text \<open>At least half of the delays are at most the lower median.\<close>

lemma half_below_median:
  assumes "xs \<noteq> []"
  shows "length xs \<le> 2 * length (filter (\<lambda>x. x \<le> lower_median xs) xs)"
proof -
  let ?k = "(length xs - 1) div 2 + 1" and ?m = "lower_median xs"
  have k: "?k \<le> length (sort xs)" using assms by (cases xs) auto
  have "\<forall>x\<in>set (take ?k (sort xs)). x \<le> ?m"
  proof
    fix x assume "x \<in> set (take ?k (sort xs))"
    then obtain i where i: "i < ?k" "i < length (sort xs)" "x = sort xs ! i"
      by (auto simp: in_set_conv_nth)
    have "i \<le> (length xs - 1) div 2" "(length xs - 1) div 2 < length (sort xs)" using i(1) k by simp_all
    then show "x \<le> ?m" unfolding lower_median_def i(3) by (intro sorted_nth_mono) simp_all
  qed
  then have "filter (\<lambda>x. x \<le> ?m) (take ?k (sort xs)) = take ?k (sort xs)" by (rule filter_True)
  moreover have "filter (\<lambda>x. x \<le> ?m) (sort xs) =
      filter (\<lambda>x. x \<le> ?m) (take ?k (sort xs)) @ filter (\<lambda>x. x \<le> ?m) (drop ?k (sort xs))"
    unfolding filter_append [symmetric] append_take_drop_id ..
  ultimately have "length (take ?k (sort xs)) \<le> length (filter (\<lambda>x. x \<le> ?m) (sort xs))" by simp
  then have "?k \<le> length (filter (\<lambda>x. x \<le> ?m) (sort xs))" using k by simp
  moreover have "length (filter (\<lambda>x. x \<le> ?m) (sort xs)) = length (filter (\<lambda>x. x \<le> ?m) xs)"
    by (simp add: filter_sort)
  ultimately show ?thesis by linarith
qed

lemma walk_drops_all:
  "fst (walk th xs) = [] \<Longrightarrow> xs \<noteq> [] \<Longrightarrow> \<not> smp_delay (last xs) \<le> th \<Longrightarrow>
   length xs < 2 * length (filter (\<lambda>x. \<not> smp_delay x \<le> th) xs)"
proof (induction th xs rule: walk.induct)
  case (2 th x xs)
  then have x: "\<not> smp_delay x \<le> th" by (auto simp: walk_simps simp del: walk.simps split: if_splits)
  show ?case
  proof (cases xs)
    case (Cons y zs)
    show ?thesis
    proof (cases "zs = []")
      case False
      then have "length zs < 2 * length (filter (\<lambda>x. \<not> smp_delay x \<le> th) zs)"
        using "2.IH"(2) [OF x] "2.prems" x by (simp add: Cons walk_simps del: walk.simps)
      then show ?thesis using x by (simp add: Cons)
    qed (use "2.prems"(3) x Cons in simp)
  qed (use x in simp)
qed simp

lemma walk_kept_first: "fst (walk th xs) = [] \<Longrightarrow> xs \<noteq> [] \<Longrightarrow> 0 < snd (walk th xs)"
  by (cases xs) (auto simp: walk_simps simp del: walk.simps split: if_splits)

lemma filter_out_nonempty:
  assumes "xs \<noteq> []" "lower_median (map smp_delay xs) \<le> th"
  shows "filter_out th xs \<noteq> []"
proof
  assume none: "filter_out th xs = []"
  then have w: "fst (walk th xs) = []" by (simp add: filter_out_def)
  then have "\<not> smp_delay (last xs) \<le> th"
    using none walk_kept_first [OF w assms(1)] by (auto simp: filter_out_def)
  from walk_drops_all [OF w assms(1) this]
  have bad: "length xs < 2 * length (filter (\<lambda>x. \<not> smp_delay x \<le> th) xs)" .
  let ?m = "lower_median (map smp_delay xs)"
  have more: "length (filter (\<lambda>x. smp_delay x \<le> ?m) ys) \<le> length (filter (\<lambda>x. smp_delay x \<le> th) ys)" for ys
    by (induction ys) (use assms(2) in \<open>auto intro: order_trans\<close>)
  have "length xs \<le> 2 * length (filter (\<lambda>x. smp_delay x \<le> ?m) xs)"
    using half_below_median [of "map smp_delay xs"] assms(1) by (simp add: filter_map o_def)
  also have "\<dots> \<le> 2 * length (filter (\<lambda>x. smp_delay x \<le> th) xs)"
    using more by simp
  finally have "length xs \<le> 2 * length (filter (\<lambda>x. smp_delay x \<le> th) xs)" .
  with bad sum_length_filter_compl [of "\<lambda>x. smp_delay x \<le> th" xs] show False by linarith
qed

lemma filter_out_length: "length (filter_out th xs) \<le> length xs"
  using walk_length [of th xs] by (simp add: filter_out_def)

subsection \<open>The cut-off in plain numbers\<close>

text \<open>The middle one of the sorted values, the lower one of two.\<close>

definition middle :: "int list \<Rightarrow> int" where
  "middle xs = sort xs ! ((length xs - 1) div 2)"

definition deviation :: "int list \<Rightarrow> int" where
  "deviation xs = middle (map (\<lambda>x. \<bar>x - middle xs\<bar>) xs)"

text \<open>Median plus \<open>k\<close> times the median absolute deviation, at most the greatest 64-bit number.\<close>

definition limit_of :: "int list \<Rightarrow> int \<Rightarrow> int" where
  "limit_of xs k = min (2 ^ 64 - 1) (middle xs + k mod 2 ^ 64 * deviation xs)"

lemma uint_lower_median:
  assumes "xs \<noteq> []"
  shows "uint (lower_median xs) = middle (map uint xs)"
proof -
  have "sorted (map uint (sort xs))"
    using sorted_sort [of xs] by (simp add: sorted_map word_le_def [symmetric])
  moreover have "mset (map uint (sort xs)) = mset (map uint xs)" by simp
  ultimately have "sort (map uint xs) = map uint (sort xs)" by (metis properties_for_sort)
  then show ?thesis using assms by (cases xs) (simp_all add: middle_def lower_median_def del: sort_key_simps)
qed

lemma uint_abs_dev: "uint (abs_dev m x) = \<bar>uint x - uint m\<bar>"
  by (auto simp: abs_dev_def word_less_def uint_sub_if' not_less)

lemma div_less_iff:
  fixes a b n :: int
  assumes "0 < b"
  shows "a div b < n \<longleftrightarrow> a < n * b"
proof
  assume "a div b < n"
  then have "(a div b + 1) * b \<le> n * b" using assms by (intro mult_right_mono) simp_all
  moreover have "a < (a div b + 1) * b"
    unfolding distrib_right using div_mult_mod_eq [of a b] pos_mod_bound [OF assms, of a] by linarith
  ultimately show "a < n * b" by simp
next
  assume "a < n * b"
  show "a div b < n"
  proof (rule ccontr)
    assume "\<not> a div b < n"
    then have "n * b \<le> a div b * b" using assms by (intro mult_right_mono) simp_all
    then show False using \<open>a < n * b\<close> div_mult_mod_eq [of a b] pos_mod_sign [OF assms, of a] by linarith
  qed
qed

lemma uint_threshold:
  "uint (marx_threshold m (marx_kmad m mad k)) = min (2 ^ 64 - 1) (uint m + k mod 2 ^ 64 * uint mad)"
proof -
  let ?M = "0xFFFFFFFFFFFFFFFF :: u64" and ?k = "word_of_int k :: u64"
  have b: "0 \<le> uint m" "uint m < 2 ^ 64" "0 \<le> uint mad" "uint mad < 2 ^ 64" "uint ?M = 2 ^ 64 - 1"
    using uint_bounded [of m] uint_bounded [of mad] by simp_all
  have k: "uint ?k = k mod 2 ^ 64" by (simp add: uint_word_of_int)
  have add: "uint (if c = 0 then m else if ?M - m < c then ?M else m + c) = min (2 ^ 64 - 1) (uint m + uint c)" for c
  proof -
    have "uint (?M - m) = 2 ^ 64 - 1 - uint m" using b by (simp add: uint_sub_if')
    then show ?thesis using uint_bounded [of c] b
      by (auto simp: word_less_def uint_plus_if' min_def unsigned_eq_0_iff)
  qed
  have mult: "min (2 ^ 64 - 1) (uint m + uint (marx_kmad m mad k)) = min (2 ^ 64 - 1) (uint m + k mod 2 ^ 64 * uint mad)"
  proof (cases "mad = 0 \<or> k = 0")
    case False
    then have mad: "0 < uint mad" using b(3) by (simp add: less_le unsigned_eq_0_iff)
    have over: "?M div mad < ?k \<longleftrightarrow> 2 ^ 64 \<le> k mod 2 ^ 64 * uint mad"
    proof -
      have "?M div mad < ?k \<longleftrightarrow> (2 ^ 64 - 1) div uint mad < k mod 2 ^ 64"
        by (simp add: word_less_def uint_div k)
      also have "\<dots> \<longleftrightarrow> 2 ^ 64 - 1 < k mod 2 ^ 64 * uint mad"
        by (rule div_less_iff [OF mad])
      finally show ?thesis by linarith
    qed
    show ?thesis
    proof (cases "?M div mad < ?k")
      case True
      then have "2 ^ 64 \<le> k mod 2 ^ 64 * uint mad" using over by simp
      then have "2 ^ 64 - 1 \<le> uint m + k mod 2 ^ 64 * uint mad" using b(1) by linarith
      then show ?thesis using True False b by (simp add: marx_kmad_def min_def)
    next
      case fits: False
      then have "k mod 2 ^ 64 * uint mad < 2 ^ 64" using over by simp
      moreover have "0 \<le> k mod 2 ^ 64 * uint mad" using b(3) by simp
      ultimately have prod: "uint (?k * mad) = k mod 2 ^ 64 * uint mad"
        by (simp add: uint_word_ariths k)
      have "uint (?M - m) = 2 ^ 64 - 1 - uint m" using b by (simp add: uint_sub_if')
      then show ?thesis using fits False b prod
        by (auto simp: marx_kmad_def Let_def word_less_def min_def)
    qed
  qed (auto simp: marx_kmad_def)
  show ?thesis unfolding marx_threshold_def add mult ..
qed

lemma uint_cut_off:
  assumes "ds \<noteq> []"
  shows "uint (cut_off ds k) = limit_of (map uint ds) k"
proof -
  have "uint (lower_median (map (abs_dev (lower_median ds)) ds)) = deviation (map uint ds)"
    using uint_lower_median [OF assms] uint_lower_median [of "map (abs_dev (lower_median ds)) ds"] assms
    by (simp add: deviation_def o_def uint_abs_dev)
  then show ?thesis
    using uint_lower_median [OF assms] by (simp add: cut_off_def limit_of_def uint_threshold Let_def)
qed

text \<open>
  C29: the outlier filter, exactly. On a buffer of at least three samples \<open>marx_filter_outliers\<close> reports
  and leaves at the front what a walk over the samples keeps that skips, after each sample above the
  cut-off, the next one, and repeats the last sample once for each such sample, if it is below
  itself. The cut-off is the median of the delays plus \<open>k\<close> times the median of their distances from it, as
  numbers that do not wrap, and at most the greatest 64-bit number. The filter reports at least one sample and
  never more than there were; the buffer's own count goes down by
  the number of the outliers met, also where the report says less.
\<close>

theorem marx_filter_exact:
  assumes "sample_wf s" "\<not> g_mutex s" "3 \<le> g_sample_count s"
    "th = word_of_int (limit_of (map (\<lambda>x. uint (smp_delay x)) (samples s)) k)" "kept = filter_out th (samples s)"
  shows "\<exists>s'. marx_filter_outliers (int (g_sample_count s)) k s = Inr (int (length kept), s') \<and>
    take (length kept) (g_samples s') = kept \<and>
    g_sample_count s' = g_sample_count s - snd (walk th (samples s)) \<and>
    1 \<le> length kept \<and> length kept \<le> g_sample_count s"
proof -
  let ?n = "g_sample_count s" and ?l = "last (samples s)"
  have len: "length (samples s) = ?n" by (rule length_samples [OF assms(1)])
  have ne: "samples s \<noteq> []" using len assms(3) by auto
  then have "uint (cut_off (map smp_delay (samples s)) k) = limit_of (map (\<lambda>x. uint (smp_delay x)) (samples s)) k"
    using uint_cut_off [of "map smp_delay (samples s)" k] by (simp add: o_def)
  then have th: "th = cut_off (map smp_delay (samples s)) k"
    using assms(4) by (metis word_of_int_uint)
  have g: "g_samples s = [] @ [] @ samples s @ replicate 0 ?l @ drop ?n (g_samples s)" by (simp add: samples_def)
  have out: "kept = fst (walk th (samples s)) @
      (if smp_delay ?l \<le> th then replicate (0 + snd (walk th (samples s))) ?l else [])"
    by (simp add: assms(5) filter_out_def)
  have "\<exists>M'. filter_loop th [0..<0 + length (samples s) + 0] (length ([] :: NtpSample list)) s =
      Inr (length ([] :: NtpSample list) + length kept, s\<lparr>g_samples := [] @ kept @ M',
        g_sample_count := 0 + length (samples s) - snd (walk th (samples s))\<rparr>)"
    by (rule filter_loop_walk [OF g _ _ assms(2) _ out]) (simp_all add: len)
  then obtain M' where loop: "filter_loop th [0..<?n] 0 s =
      Inr (length kept, s\<lparr>g_samples := kept @ M', g_sample_count := ?n - snd (walk th (samples s))\<rparr>)"
    by (auto simp: len)
  have "lower_median (map smp_delay (samples s)) \<le> th"
    using threshold_above_median by (simp add: th cut_off_def Let_def)
  from filter_out_nonempty [OF ne this] have "1 \<le> length kept" by (cases kept) (simp_all add: assms(5))
  moreover have "length kept \<le> ?n" using filter_out_length [of th "samples s"] len by (simp add: assms(5))
  moreover have "marx_filter_outliers (int ?n) k s = Inr (int (length kept),
      s\<lparr>g_samples := kept @ M', g_sample_count := ?n - snd (walk th (samples s))\<rparr>)"
    unfolding marx_filter_eq [OF assms(1,3)] th [symmetric] loop using calculation(2) by simp
  ultimately show ?thesis by simp
qed

lemma marx_filter_exact_witness:
  "\<exists>s'. marx_filter_outliers 7 3 spiked = Inr (6, s') \<and>
     take 6 (g_samples s') = map sample_of [10, 12, 11, 12, 14, 14] \<and> g_sample_count s' = 6"
proof -
  have s: "sample_wf spiked" "\<not> g_mutex spiked" "g_sample_count spiked = 7"
    by (simp_all add: spiked_def buffer_of_wf) (simp_all add: buffer_of_def)
  have w: "walk 15 (samples spiked) = (map sample_of [10, 12, 11, 12, 14], 1)"
    by (simp add: spiked_samples) (simp add: sample_of_def)
  have k: "filter_out 15 (samples spiked) = map sample_of [10, 12, 11, 12, 14, 14]"
    unfolding filter_out_def w by (simp add: spiked_samples) (simp add: sample_of_def)
  have l: "length (map sample_of [10, 12, 11, 12, 14, 14]) = 6" by simp
  have "map (\<lambda>x. uint (smp_delay x)) (samples spiked) = [10, 12, 11, 900, 13, 12, 14]"
    by (simp add: spiked_samples sample_of_def)
  moreover have "limit_of [10, 12, 11, 900, 13, 12, 14] 3 = 15" by code_simp
  ultimately have th: "15 = (word_of_int (limit_of (map (\<lambda>x. uint (smp_delay x)) (samples spiked)) 3) :: u64)" by simp
  show ?thesis
    using marx_filter_exact [of spiked 15 3 "map sample_of [10, 12, 11, 12, 14, 14]", unfolded w k l s(3), OF s(1,2) _ th]
    by (simp del: list.map)
qed

end
