(* ===== verification/Progress.thy ===== *)
theory Progress
  imports WellFormed Polling Usable
begin

section \<open>What the daemon goes on doing\<close>

text \<open>
  Safety is not enough for a daemon that does nothing. Here it is settled when the
  threads go on. In every state that a started daemon reaches, the turn of a server in the main loop returns
  exactly if the server gives no usable reply, because a usable one runs into
  the unlocking of a mutex that is not held (Sync); an ntpq line is answered unless it asks for \<open>sysinfo\<close>. So
  while no server is of use the main loop goes on for any number of rounds and asks every
  server in every round, however often they fail, and the first usable reply ends it.
\<close>

subsection \<open>A turn of the main loop\<close>

lemma unmeasured_next: "unmeasured d \<Longrightarrow> unmeasured (set_next_allowed i t d)"
  by (simp add: unmeasured_def unlocked_def set_next_allowed_def)

definition hit :: "sync_round_env \<Rightarrow> nat \<Rightarrow> daemon \<Rightarrow> bool" where
  "hit R i d \<longleftrightarrow> may_ask R i d \<and>
     gets_usable (rd_sync R i) (srv_ip (g_servers d ! i)) (srv_port (g_servers d ! i)) d"

lemma sync_server_unmeasured:
  assumes "unmeasured d"
  shows "if hit R i d then sync_server F R i d = Inl Undefined
    else if \<not> may_ask R i d then sync_server F R i d = Inr (False, d)
    else \<exists>e. unmeasured e \<and> g_sync_sock e = snd (sock_of (rd_sync R i) d) \<and>
      sync_server F R i d = bindR (i64 (turn_time (R, i) + 15)) (\<lambda>t. Inr (False, set_next_allowed i t e))"
proof -
  let ?s = "g_servers d ! i"
  show ?thesis
    using sync_ntp_time_unmeasured [OF assms, of "rd_sync R i" "srv_ip ?s" "srv_port ?s" F]
    by (cases "may_ask R i d") (auto simp: sync_server_code may_ask_def hit_def turn_time_def Let_def split: if_splits)
qed

lemma sync_server_keeps_unmeasured:
  "unmeasured d \<Longrightarrow> sync_server F R i d = Inr (ok, e) \<Longrightarrow> unmeasured e"
  using sync_server_unmeasured [of d R i F] unmeasured_next
  by (auto simp: i64_def split: if_splits)

lemma step_unmeasured:
  assumes "daemon_step F d e" "timeless d" "unmeasured d"
  shows "unmeasured e"
  using assms(1)
proof (cases rule: daemon_stepE)
  case (main_turn i R ok)
  then show ?thesis using sync_server_keeps_unmeasured [OF assms(3)] by blast
next
  case clock_begins
  then show ?thesis using assms(3) by (simp add: unmeasured_def unlocked_def)
next
  case (clock_goes_on T cont)
  then show ?thesis using broken_clock_turn [OF assms(2)] assms(3) by blast
next
  case (peer_datagram i send_ok now buffer sz res)
  then show ?thesis using peer_request_pure assms(3) by blast
next
  case (ntpq_line bytes reply)
  then have "e = d" using ntpq_pure by blast
  then show ?thesis using assms(3) by simp
qed

lemma reachable_unmeasured:
  assumes "(daemon_step F)\<^sup>*\<^sup>* s e" "timeless s" "unmeasured s"
  shows "unmeasured e"
proof -
  have "timeless e \<and> unmeasured e"
    using assms by (induction rule: rtranclp_induct) (use tl.step_keeps step_unmeasured in blast)+
  then show ?thesis by blast
qed

text \<open>
  C5: the daemon is live exactly until it succeeds. Whatever the command line, the configuration files, the
  allocations and the kernel, if the daemon starts, then in every state that it reaches by steps of its
  threads the main loop's turn of a server returns, unless it calls \<open>sync_ntp_time\<close> and gets a
  usable reply: then it does not. And an ntpq line is answered, unless it asks for \<open>sysinfo\<close>: that
  answer locks the mutex of the clock thread, which has been destroyed.
\<close>

theorem daemon_goes_on_until_it_succeeds:
  assumes "parse_arguments argv default_cli = (0, cli)"
    and "load_server_config (mn_files M) (mn_mem M) (initial_daemon\<lparr>g_cli := cli, g_local_precision := p\<rparr>) = Inr (n, d1)"
    and "0 < n" "init_modules F M d1 = Inr (rc, d2)" "start_threads M d2 = Inr (None, s)"
    and "(daemon_step F)\<^sup>*\<^sup>* s e" "rd_now R i + 15 < 2 ^ 63"
  shows "(returns (sync_server F R i e) \<longleftrightarrow> \<not> (asks R i e \<and>
      gets_usable (rd_sync R i) (srv_ip (g_servers e ! i)) (srv_port (g_servers e ! i)) e)) \<and>
    (returns (handle_ntpq_request received e) \<longleftrightarrow> \<not> asks_sysinfo received)"
proof -
  note s = started_daemon [OF assms(1-5)]
  then have u: "unmeasured e" and t: "timeless e"
    using reachable_unmeasured [OF assms(6)] tl.reachable [OF assms(6)] by (simp_all add: unmeasured_def daemon_wf_def)
  have "in_i64 (turn_time (R, i) + 15)" using assms(7) by (simp add: turn_time_def in_i64_def)
  then have "returns (sync_server F R i e) \<longleftrightarrow> \<not> hit R i e"
    using sync_server_unmeasured [OF u, of R i F] by (auto simp: returns_iff split: if_splits)
  moreover have "returns (handle_ntpq_request received e) \<longleftrightarrow> \<not> asks_sysinfo received"
    using broken_ntpq [of e received] t by (auto simp: timeless_def split: if_splits)
  ultimately show ?thesis by (simp add: hit_def asks_iff)
qed

text \<open>A daemon with one server: it goes on after a silent round, and not after a usable reply.\<close>

definition answered_round :: sync_round_env where
  "answered_round = silent_round\<lparr>rd_sync := \<lambda>_. good_env (Some (hdr_bytes good_reply))\<rparr>"

lemma good_reply_usable:
  "usable (good_env (Some (hdr_bytes good_reply))) (ntp_timestamp_now (Some \<lparr>tv_sec = 1700000000, tv_nsec = 0\<rparr>))
     (hdr_bytes good_reply)"
proof -
  have "ntp_timestamp_now (Some \<lparr>tv_sec = 1700000000, tv_nsec = 0\<rparr>) = pkt_orig_ts good_reply"
    by (simp add: good_reply_def)
  moreover have "version_of (pkt_li_vn_mode good_reply) = NTP_VN_4" "mode_of (pkt_li_vn_mode good_reply) = NTP_MODE_SERVER"
    "leap_of (pkt_li_vn_mode good_reply) \<noteq> 3" "1 \<le> pkt_stratum good_reply" "pkt_stratum good_reply \<le> 15"
    by (simp_all add: good_reply_def version_of_def mode_of_def leap_of_def)
  moreover have "\<not> ntp_is_kod (Some zero_packet)" by (simp add: ntp_is_kod_def zero_packet_def)
  moreover have "pkt_xmit_ts good_reply \<noteq> zero_ts" by code_simp
  moreover have "sy_t4 (good_env (Some (hdr_bytes good_reply))) = sy_t4 (good_env None)"
    "sy_tv (good_env x) \<noteq> None" "sy_pkt0 (good_env x) = zero_packet" for x by (simp_all add: good_env_def)
  ultimately show ?thesis
    using good_reply_measure unfolding usable_def reply_header_def Let_def hdr_dec_bytes by simp
qed

lemma daemon_goes_on_until_it_succeeds_witness:
  "\<exists>d1 d2 s. init_modules exact_fpu small_site d1 = Inr (0, d2) \<and> start_threads small_site d2 = Inr (None, s) \<and>
     returns (sync_server exact_fpu silent_round 0 s) \<and> \<not> returns (sync_server exact_fpu answered_round 0 s) \<and>
     returns (handle_ntpq_request (Some ''version'') s) \<and> \<not> returns (handle_ntpq_request (Some ''sysinfo'') s)"
proof -
  obtain d1 d2 s where s: "load_server_config (mn_files small_site) (mn_mem small_site)
       (initial_daemon\<lparr>g_cli := default_cli, g_local_precision := - 20\<rparr>) = Inr (1, d1)"
     "init_modules exact_fpu small_site d1 = Inr (0, d2)" "start_threads small_site d2 = Inr (None, s)"
     "g_servers s = [server_entry (''192.0.2.1'', ''123'' @ newline)]" "g_cli s = default_cli" "g_sync_sock s = - 1"
    using small_site_runs by blast
  have due: "asks R 0 s" for R by (simp add: asks_iff may_ask_def s(4))
  have line: "\<not> asks_sysinfo (Some ''version'')" "asks_sysinfo (Some ''sysinfo'')"
    by (simp_all add: asks_sysinfo_def cstr_def cut_at_def)
  have rd: "rd_now silent_round i + 15 < 2 ^ 63" "rd_now answered_round i + 15 < 2 ^ 63" for i
    by (simp_all add: silent_round_def answered_round_def)
  have silent: "\<not> gets_usable (rd_sync silent_round 0) ip port s" for ip port
    by (simp add: silent_round_def good_env_def gets_usable_def usable_over_def reply_over_def split: prod.split)
  have "reply_to (good_env (Some (hdr_bytes good_reply))) ''192.0.2.1'' (''123'' @ newline) s = Some (hdr_bytes good_reply)"
    by (simp add: reply_over_def sock_of_def port_123_line s(5,6) good_env_def get_sync_socket_def network4_create_socket_def
        default_cli_def del: append.simps)
  moreover have "sy_t1 (good_env x) = Some \<lparr>tv_sec = 1700000000, tv_nsec = 0\<rparr>" for x by (simp add: good_env_def)
  ultimately have "gets_usable (rd_sync answered_round 0) ''192.0.2.1'' (''123'' @ newline) s"
    using good_reply_usable by (simp add: gets_usable_def usable_over_def answered_round_def del: append.simps)
  then have used: "gets_usable (rd_sync answered_round 0) (srv_ip (g_servers s ! 0)) (srv_port (g_servers s ! 0)) s"
    by (simp add: s(4) del: append.simps)
  note go = daemon_goes_on_until_it_succeeds [OF plain_arguments s(1) _ s(2,3) rtranclp.rtrancl_refl]
  show ?thesis
    using go [OF _ rd(1) [of 0], of "Some ''version''"] go [OF _ rd(2) [of 0], of "Some ''sysinfo''"] silent used due line s(2,3)
    by (intro exI [of _ d1] exI [of _ d2] exI [of _ s]) simp
qed

subsection \<open>An outage\<close>

text \<open>No server's exchange in this round has a usable reply, and its clock is a sane one.\<close>

definition outage :: "sync_round_env \<Rightarrow> bool" where
  "outage R \<longleftrightarrow> \<not> rd_shutdown R \<and> (\<forall>i. 0 \<le> rd_now R i \<and> rd_now R i + 15 < 2 ^ 63 \<and>
     (\<forall>bytes. sy_received (rd_sync R i) = Some bytes \<longrightarrow>
        \<not> usable (rd_sync R i) (ntp_timestamp_now (sy_t1 (rd_sync R i))) (take 1024 bytes)))"

definition next_of :: "daemon \<Rightarrow> nat \<Rightarrow> int" where
  "next_of d i = srv_next_allowed_sync (g_servers d ! i)"

lemma outage_turn:
  assumes "unmeasured d" "outage R" "i < length (g_servers d)" "next_of d i \<le> rd_now R i"
  shows "\<exists>e. sync_server F R i d = Inr (False, e) \<and> server_turn F (R, i) d = Inr (True, e) \<and> unmeasured e \<and>
    g_cli e = g_cli d \<and> length (g_servers e) = length (g_servers d) \<and>
    next_of e = (next_of d)(i := rd_now R i + 15)"
proof -
  have now: "0 \<le> rd_now R i" "turn_time (R, i) = rd_now R i" "in_i64 (turn_time (R, i) + 15)"
    using assms(2) by (auto simp: outage_def turn_time_def in_i64_def not_less dest: spec [of _ i])
  have due: "may_ask R i d" using assms(4) now(1) by (auto simp: may_ask_def next_of_def)
  have "\<not> hit R i d"
    using assms(2) by (auto simp: hit_def gets_usable_def usable_over_def reply_over_def outage_def split: option.splits prod.splits if_splits)
  then obtain e' where e': "sync_server F R i d = Inr (False, set_next_allowed i (rd_now R i + 15) e')"
    using sync_server_unmeasured [OF assms(1), of R i F] due now by auto
  let ?e = "set_next_allowed i (rd_now R i + 15) e'"
  have turn: "server_turn F (R, i) d = Inr (True, ?e)"
    using e' assms(3) due by (simp add: server_turn_def asks_iff)
  have free: "\<not> g_mutex d" using assms(1) by (simp add: unmeasured_def unlocked_def)
  have eq: "max 0 (rd_now R i) = rd_now R i" using now(1) by simp
  have "\<not> (srv_next_allowed_sync (g_servers d ! i) \<noteq> 0 \<and> max 0 (rd_now R i) < srv_next_allowed_sync (g_servers d ! i))"
    using assms(4) eq by (simp add: next_of_def)
  then obtain e2 where e2: "quiet d e2" "?e = set_next_allowed i (rd_now R i + 15) e2"
    using sync_server_eq(2) [OF free e'] eq by (auto split: if_splits)
  have "g_cli ?e = g_cli d" "length (g_servers ?e) = length (g_servers d)"
    "next_of ?e = (next_of d)(i := rd_now R i + 15)"
    using e2(1) assms(3) unfolding e2(2) by (auto simp: quiet_def set_next_allowed_def next_of_def)
  then show ?thesis using e' turn sync_server_keeps_unmeasured [OF assms(1) e'] by blast
qed

lemma outage_round:
  assumes "unmeasured d" "outage R" "\<forall>i\<in>set is. i < length (g_servers d) \<and> next_of d i \<le> rd_now R i" "distinct is"
  shows "\<exists>e. sync_servers F R is d = Inr (is = [], e) \<and>
    run_all (server_turn F) (map (Pair R) is) d = Inr (replicate (length is) True, e) \<and> unmeasured e \<and>
    g_cli e = g_cli d \<and> length (g_servers e) = length (g_servers d) \<and>
    (\<forall>j. next_of e j = (if j \<in> set is then rd_now R j + 15 else next_of d j))"
  using assms
proof (induction "is" arbitrary: d)
  case (Cons i "is")
  have i: "i < length (g_servers d)" "next_of d i \<le> rd_now R i" using Cons.prems(3) by auto
  obtain d1 where d1: "sync_server F R i d = Inr (False, d1)" "server_turn F (R, i) d = Inr (True, d1)"
    "unmeasured d1" "g_cli d1 = g_cli d" "length (g_servers d1) = length (g_servers d)"
    "next_of d1 = (next_of d)(i := rd_now R i + 15)"
    using outage_turn [OF Cons.prems(1,2) i] by blast
  have "\<forall>j\<in>set is. j < length (g_servers d1) \<and> next_of d1 j \<le> rd_now R j"
    using Cons.prems(3,4) d1(5,6) by auto
  with Cons.IH [OF d1(3) Cons.prems(2)] Cons.prems(4) obtain e where
    e: "sync_servers F R is d1 = Inr (is = [], e)"
      "run_all (server_turn F) (map (Pair R) is) d1 = Inr (replicate (length is) True, e)" "unmeasured e"
      "g_cli e = g_cli d1" "length (g_servers e) = length (g_servers d1)"
      "\<forall>j. next_of e j = (if j \<in> set is then rd_now R j + 15 else next_of d1 j)" by auto
  show ?case by (rule exI [of _ e]) (use d1 e Cons.prems(4) in simp)
qed simp

text \<open>Rounds in each of which every server is asked at least the retry interval after the round before.\<close>

fun spaced_rounds :: "nat \<Rightarrow> (nat \<Rightarrow> int) \<Rightarrow> sync_round_env list \<Rightarrow> bool" where
  "spaced_rounds n t [] = True"
| "spaced_rounds n t (R # Rs) \<longleftrightarrow>
     (\<forall>i<n. t i \<le> rd_now R i) \<and> spaced_rounds n (\<lambda>i. rd_now R i + SYNC_RETRY_INTERVAL_SEC) Rs"

lemma spaced_rounds_cong:
  "\<forall>i<n. t i = u i \<Longrightarrow> spaced_rounds n t Rs \<longleftrightarrow> spaced_rounds n u Rs"
  by (cases Rs) auto

lemma outage_main_loop:
  assumes "unmeasured d" "\<forall>R\<in>set Rs. outage R" "g_servers d \<noteq> []" "quit_after_sync (g_cli d) = 0"
    "spaced_rounds (length (g_servers d)) (next_of d) Rs"
  shows "\<exists>e. main_loop F Rs d = Inr (False, replicate (length Rs) False, e) \<and>
    run_all (server_turn F) (turns (length (g_servers d)) Rs) d =
      Inr (replicate (length Rs * length (g_servers d)) True, e) \<and> unmeasured e"
  using assms
proof (induction Rs arbitrary: d)
  case (Cons R Rs)
  let ?n = "length (g_servers d)"
  obtain d1 where d1: "sync_servers F R [0..<?n] d = Inr ([0..<?n] = [], d1)"
    "run_all (server_turn F) (map (Pair R) [0..<?n]) d = Inr (replicate ?n True, d1)" "unmeasured d1"
    "g_cli d1 = g_cli d" "length (g_servers d1) = ?n" "\<forall>j<?n. next_of d1 j = rd_now R j + 15"
    using outage_round [OF Cons.prems(1), of R "[0..<?n]" F] Cons.prems(2,5) by auto
  have "spaced_rounds (length (g_servers d1)) (next_of d1) Rs"
    using Cons.prems(5) spaced_rounds_cong [OF d1(6)] d1(5) by simp
  moreover have "g_servers d1 \<noteq> []" using d1(5) Cons.prems(3) by force
  ultimately obtain e where e: "main_loop F Rs d1 = Inr (False, replicate (length Rs) False, e)"
    "run_all (server_turn F) (turns ?n Rs) d1 = Inr (replicate (length Rs * ?n) True, e)" "unmeasured e"
    using Cons.IH [OF d1(3)] Cons.prems(2,4) d1(4,5) by auto
  have "\<not> rd_shutdown R" using Cons.prems(2) by (simp add: outage_def)
  then show ?case
    using d1(1,2,4) e Cons.prems(3,4)
    by (intro exI [of _ e]) (simp add: turns_Cons run_all_append replicate_add)
qed simp

text \<open>
  C24: an outage does not wear the daemon out. Once it has started with servers, let no server give a usable
  reply for any number of rounds: the main loop goes through all of them, and if the rounds
  are at least the retry interval apart for each server, it asks every server in every
  round, so that it finds out in the first round in which one of them has come back.
\<close>

theorem outage_asks_every_server:
  assumes "parse_arguments argv default_cli = (0, cli)"
    and "load_server_config (mn_files M) (mn_mem M) (initial_daemon\<lparr>g_cli := cli, g_local_precision := p\<rparr>) = Inr (n, d1)"
    and "0 < n" "init_modules F M d1 = Inr (rc, d2)" "start_threads M d2 = Inr (None, s)"
    and "(daemon_step F)\<^sup>*\<^sup>* s d" "g_servers d \<noteq> []" "quit_after_sync (g_cli d) = 0"
    and "\<forall>R\<in>set Rs. outage R" "spaced_rounds (length (g_servers d)) (next_of d) Rs"
  shows "\<exists>e. main_loop F Rs d = Inr (False, replicate (length Rs) False, e) \<and>
    run_all (server_turn F) (turns (length (g_servers d)) Rs) d =
      Inr (replicate (length Rs * length (g_servers d)) True, e)"
proof -
  have "unmeasured d"
    using started_daemon [OF assms(1-5)] reachable_unmeasured [OF assms(6)]
    by (simp add: unmeasured_def daemon_wf_def)
  from outage_main_loop [OF this assms(9,7,8,10), of F] show ?thesis by blast
qed

lemma outage_asks_every_server_witness:
  "\<exists>s e. start_threads small_site s = Inr (None, e) \<and>
     (\<exists>e'. main_loop exact_fpu [round_at 1000, round_at 1015, round_at 1030] e =
        Inr (False, [False, False, False], e'))"
proof -
  obtain d1 d2 s where s: "load_server_config (mn_files small_site) (mn_mem small_site)
       (initial_daemon\<lparr>g_cli := default_cli, g_local_precision := - 20\<rparr>) = Inr (1, d1)"
     "init_modules exact_fpu small_site d1 = Inr (0, d2)" "start_threads small_site d2 = Inr (None, s)"
     "g_servers s = [server_entry (''192.0.2.1'', ''123'' @ newline)]" "g_cli s = default_cli"
    using small_site_runs by blast
  let ?Rs = "[round_at 1000, round_at 1015, round_at 1030]"
  have out: "\<forall>R\<in>set ?Rs. outage R"
    by (simp add: outage_def round_at_def silent_round_def good_env_def)
  have sp: "spaced_rounds (length (g_servers s)) (next_of s) ?Rs"
    by (simp add: s(4) next_of_def round_at_def silent_round_def)
  have "g_servers s \<noteq> []" "quit_after_sync (g_cli s) = 0" by (simp_all add: s(4,5) default_cli_def)
  from outage_asks_every_server [OF plain_arguments s(1) _ s(2,3) rtranclp.rtrancl_refl this out sp]
  obtain e' where "main_loop exact_fpu ?Rs s = Inr (False, replicate (length ?Rs) False, e')" by auto
  moreover have "replicate (length ?Rs) False = [False, False, False]" by simp
  ultimately show ?thesis using s(3) by (intro exI [of _ d2] exI [of _ s] conjI exI [of _ e']) simp_all
qed
end
