(* ===== verification/MainLoop.thy ===== *)
theory MainLoop
  imports Progress
begin

section \<open>What the main loop does, in two variables (main.c)\<close>

text \<open>
  For all that the daemon keeps, its main loop is a small machine: the time from which each
  server may be asked again, and the cached socket. A turn does nothing if the server is not due; it ends
  the loop for good if the server gives a usable reply; otherwise it opens the socket if
  there is none and lets the server rest. \<open>spec_turn\<close> is this machine, and the main loop of the
  daemon implements it, from every state that a started daemon reaches.
\<close>

record poll_spec =
  ps_next :: "int list"
  ps_sock :: int

definition spec_turn ::
    "CliConfig \<Rightarrow> (string \<times> string) list \<Rightarrow> sync_round_env \<times> nat \<Rightarrow> poll_spec \<Rightarrow> poll_spec option" where
  "spec_turn c srv = (\<lambda>(R, i) p.
     let now = max 0 (rd_now R i); due = ps_next p ! i; E = rd_sync R i;
         (sock, cached) = get_sync_socket (sy_sock E) c (ps_sock p)
     in if due \<noteq> 0 \<and> now < due then Some p
        else if usable_over E (fst (srv ! i)) (snd (srv ! i)) sock then None
        else Some \<lparr>ps_next = (ps_next p)[i := now + SYNC_RETRY_INTERVAL_SEC], ps_sock = cached\<rparr>)"

fun spec_run ::
    "CliConfig \<Rightarrow> (string \<times> string) list \<Rightarrow> (sync_round_env \<times> nat) list \<Rightarrow> poll_spec \<Rightarrow> poll_spec option" where
  "spec_run c srv [] p = Some p"
| "spec_run c srv (ev # evs) p = Option.bind (spec_turn c srv ev p) (spec_run c srv evs)"

lemma spec_run_append:
  "spec_run c srv (xs @ ys) p = Option.bind (spec_run c srv xs p) (spec_run c srv ys)"
  by (induction xs arbitrary: p) (auto split: bind_split)

text \<open>What the machine sees of the daemon.\<close>

definition poll_state :: "daemon \<Rightarrow> poll_spec" where
  "poll_state d = \<lparr>ps_next = map srv_next_allowed_sync (g_servers d), ps_sock = g_sync_sock d\<rparr>"

definition endpoints :: "daemon \<Rightarrow> (string \<times> string) list" where
  "endpoints d = map (\<lambda>s. (srv_ip s, srv_port s)) (g_servers d)"

definition same_site :: "daemon \<Rightarrow> daemon \<Rightarrow> bool" where
  "same_site d e \<longleftrightarrow> g_cli e = g_cli d \<and> endpoints e = endpoints d"

definition implements :: "daemon \<Rightarrow> ('a \<times> daemon) run \<Rightarrow> poll_spec option \<Rightarrow> bool" where
  "implements d m sp \<longleftrightarrow>
     (case sp of
        None \<Rightarrow> m = Inl Undefined
      | Some p \<Rightarrow> \<exists>x e. m = Inr (x, e) \<and> unmeasured e \<and> same_site d e \<and> poll_state e = p)"

lemma implements_Inr:
  "unmeasured e \<Longrightarrow> same_site d e \<Longrightarrow> poll_state e = p \<Longrightarrow> implements d (Inr (x, e)) (Some p)"
  by (simp add: implements_def)

lemma implements_bind:
  assumes "implements d m sp"
    and "\<And>x e. m = Inr (x, e) \<Longrightarrow> unmeasured e \<Longrightarrow> same_site d e \<Longrightarrow> implements d (k (x, e)) (g (poll_state e))"
  shows "implements d (bindR m k) (Option.bind sp g)"
  using assms by (cases sp) (auto simp: implements_def split: option.splits)

lemma implements_site: "same_site d e \<Longrightarrow> implements e m sp \<Longrightarrow> implements d m sp"
  by (auto simp: implements_def same_site_def split: option.splits)

lemma same_site_refl [simp]: "same_site d d"
  by (simp add: same_site_def)

lemma length_endpoints: "length (endpoints d) = length (g_servers d)"
  by (simp add: endpoints_def)

definition sane :: "sync_round_env \<Rightarrow> bool" where
  "sane R \<longleftrightarrow> (\<forall>i. rd_now R i + 15 < 2 ^ 63)"

lemma turn_implements:
  assumes "unmeasured d" "i < length (g_servers d)" "sane R"
  shows "implements d (sync_server F R i d) (spec_turn (g_cli d) (endpoints d) (R, i) (poll_state d))"
proof -
  let ?s = "g_servers d ! i"
  have now: "turn_time (R, i) = max 0 (rd_now R i)" "in_i64 (turn_time (R, i) + 15)"
    using assms(3) by (auto simp: sane_def turn_time_def in_i64_def dest: spec [of _ i])
  have due: "may_ask R i d \<longleftrightarrow> \<not> (ps_next (poll_state d) ! i \<noteq> 0 \<and> max 0 (rd_now R i) < ps_next (poll_state d) ! i)"
    using assms(2) now(1) by (simp add: may_ask_def turn_time_def poll_state_def Let_def)
  have ends: "fst (endpoints d ! i) = srv_ip ?s" "snd (endpoints d ! i) = srv_port ?s"
    using assms(2) by (simp_all add: endpoints_def)
  have hit: "hit R i d \<longleftrightarrow> may_ask R i d \<and>
      usable_over (rd_sync R i) (srv_ip ?s) (srv_port ?s) (fst (sock_of (rd_sync R i) d))"
    by (simp add: hit_def gets_usable_def)
  have spec: "spec_turn (g_cli d) (endpoints d) (R, i) (poll_state d) =
      (if \<not> may_ask R i d then Some (poll_state d) else if hit R i d then None
       else Some \<lparr>ps_next = (ps_next (poll_state d))[i := max 0 (rd_now R i) + 15],
                  ps_sock = snd (sock_of (rd_sync R i) d)\<rparr>)"
    unfolding due hit by (simp add: spec_turn_def Let_def ends sock_of_def split_def poll_state_def)
  have free: "\<not> g_mutex d" using assms(1) by (simp add: unmeasured_def unlocked_def)
  show ?thesis
  proof (cases "may_ask R i d \<and> \<not> hit R i d")
    case True
    then obtain e' where e': "unmeasured e'" "g_sync_sock e' = snd (sock_of (rd_sync R i) d)"
      "sync_server F R i d = Inr (False, set_next_allowed i (turn_time (R, i) + 15) e')"
      using sync_server_unmeasured [OF assms(1), of R i F] now(2) by auto
    let ?e = "set_next_allowed i (turn_time (R, i) + 15) e'"
    obtain e2 where e2: "quiet d e2" "?e = set_next_allowed i (turn_time (R, i) + 15) e2"
      using sync_server_eq(2) [OF free e'(3)] True due assms(2) by (auto simp: now(1) poll_state_def split: if_splits)
    have "(map f xs)[i := f (xs ! i)] = map f xs" for f :: "ServerConfig \<Rightarrow> string \<times> string" and xs
      by (metis list_update_id map_update)
    from this [of "\<lambda>s. (srv_ip s, srv_port s)" "g_servers d"]
    have site: "same_site d ?e" using e2(1) unfolding e2(2)
      by (simp add: same_site_def endpoints_def quiet_def set_next_allowed_def map_update)
    have "map srv_next_allowed_sync (g_servers ?e) = (map srv_next_allowed_sync (g_servers d))[i := turn_time (R, i) + 15]"
      using e2(1) unfolding e2(2) by (simp add: quiet_def set_next_allowed_def map_update)
    moreover have "g_sync_sock ?e = g_sync_sock e'" by (simp add: set_next_allowed_def)
    ultimately have "poll_state ?e = \<lparr>ps_next = (ps_next (poll_state d))[i := max 0 (rd_now R i) + 15],
        ps_sock = snd (sock_of (rd_sync R i) d)\<rparr>"
      using e'(2) by (simp add: poll_state_def now(1))
    then show ?thesis using True spec e'(3) unmeasured_next [OF e'(1)] site by (auto intro: implements_Inr)
  next
    case False
    then show ?thesis using sync_server_unmeasured [OF assms(1), of R i F] assms(1) spec
      by (auto simp: implements_def hit_def split: if_splits)
  qed
qed

lemma servers_implement:
  assumes "unmeasured d" "\<forall>i\<in>set is. i < length (g_servers d)" "sane R"
  shows "implements d (sync_servers F R is d) (spec_run (g_cli d) (endpoints d) (map (Pair R) is) (poll_state d))"
  using assms
proof (induction "is" arbitrary: d)
  case (Cons i "is")
  have rest: "implements d (bindR (sync_servers F R is e) (\<lambda>(all, d). Inr (ok \<and> all, d)))
      (spec_run (g_cli d) (endpoints d) (map (Pair R) is) (poll_state e))"
    if e: "unmeasured e" "same_site d e" for ok e
  proof -
    have "implements e (sync_servers F R is e) (spec_run (g_cli e) (endpoints e) (map (Pair R) is) (poll_state e))"
      using Cons.IH [OF e(1) _ Cons.prems(3)] Cons.prems(2) e(2) length_endpoints by (metis same_site_def list.set_intros(2))
    then show ?thesis using e(2) by (auto simp: implements_def same_site_def split: option.splits)
  qed
  show ?case
    using implements_bind [OF turn_implements [OF Cons.prems(1) _ Cons.prems(3), of i F], of
        "\<lambda>(ok, d). bindR (sync_servers F R is d) (\<lambda>(all, d). Inr (ok \<and> all, d))"] rest Cons.prems(2)
    by auto
qed (auto simp: implements_def)

text \<open>The main loop, its two results put together.\<close>

lemma loop_implements:
  assumes "unmeasured d" "\<forall>R\<in>set Rs. sane R" "g_servers d \<noteq> []"
  shows "implements d (bindR (main_loop F Rs d) (\<lambda>(left, oks, e). Inr ((left, oks), e)))
    (spec_run (g_cli d) (endpoints d) (turns (length (g_servers d)) (rounds_done (g_cli d) Rs)) (poll_state d))"
  using assms
proof (induction Rs arbitrary: d)
  case Nil
  then show ?case by (auto simp: implements_def rounds_done_def)
next
  case (Cons R Rs)
  let ?n = "length (g_servers d)" and ?c = "g_cli d" and ?srv = "endpoints d"
  show ?case
  proof (cases "rd_shutdown R")
    case True
    then show ?thesis using Cons.prems by (auto simp: implements_def rounds_done_def)
  next
    case False
    let ?rest = "if quit_after_sync ?c \<noteq> 0 then [] else rounds_done ?c Rs"
    let ?k = "\<lambda>(all, d). if quit_after_sync (g_cli d) \<noteq> 0 then Inr ((True, [all]), d)
      else bindR (main_loop F Rs d) (\<lambda>(left, oks, d). Inr ((left, all # oks), d))"
    have rounds: "rounds_done ?c (R # Rs) = R # ?rest" using False by (simp add: rounds_done_def)
    have loop: "bindR (main_loop F (R # Rs) d) (\<lambda>(left, oks, e). Inr ((left, oks), e)) =
        bindR (sync_servers F R [0..<?n] d) ?k"
      using False Cons.prems(3) by (auto simp: bindR_assoc bindR_def split: sum.split prod.split)
    have "implements d (bindR (sync_servers F R [0..<?n] d) ?k)
        (Option.bind (spec_run ?c ?srv (map (Pair R) [0..<?n]) (poll_state d)) (spec_run ?c ?srv (turns ?n ?rest)))"
    proof (rule implements_bind)
      show "implements d (sync_servers F R [0..<?n] d) (spec_run ?c ?srv (map (Pair R) [0..<?n]) (poll_state d))"
        using Cons.prems by (intro servers_implement) auto
    next
      fix all e assume e: "unmeasured e" "same_site d e"
      then have site: "g_cli e = ?c" "endpoints e = ?srv" "length (g_servers e) = ?n"
        using length_endpoints by (metis same_site_def)+
      show "implements d (?k (all, e)) (spec_run ?c ?srv (turns ?n ?rest) (poll_state e))"
      proof (cases "quit_after_sync ?c = 0")
        case True
        have "g_servers e \<noteq> []" using site(3) Cons.prems(3) by force
        from Cons.IH [OF e(1) _ this] Cons.prems(2) site
        have "implements e (bindR (main_loop F Rs e) (\<lambda>(left, oks, e). Inr ((left, oks), e)))
            (spec_run ?c ?srv (turns ?n (rounds_done ?c Rs)) (poll_state e))" by simp
        then show ?thesis using True site(1,2) e(2)
          by (auto simp: implements_def same_site_def bindR_def split: option.splits sum.splits prod.splits)
      qed (use e site(1) in \<open>auto simp: implements_def\<close>)
    qed
    then show ?thesis unfolding rounds loop turns_Cons spec_run_append .
  qed
qed

text \<open>
  C23: the main loop implements the machine of two variables. From every state that a started daemon
  reaches, and for any rounds, replies, clocks and kernel: if no reply of a due server is usable, the loop
  returns, with the retry times and the socket of the machine; at the first usable reply the outcome
  is undefined. Nothing else that the daemon keeps has any influence.
\<close>

theorem main_loop_refines_polling:
  assumes "parse_arguments argv default_cli = (0, cli)"
    and "load_server_config (mn_files M) (mn_mem M) (initial_daemon\<lparr>g_cli := cli, g_local_precision := p\<rparr>) = Inr (n, d1)"
    and "0 < n" "init_modules F M d1 = Inr (rc, d2)" "start_threads M d2 = Inr (None, s)"
    and "(daemon_step F)\<^sup>*\<^sup>* s d" "g_servers d \<noteq> []" "\<forall>R\<in>set Rs. sane R"
  shows "case spec_run (g_cli d) (endpoints d) (turns (length (g_servers d)) (rounds_done (g_cli d) Rs)) (poll_state d) of
      None \<Rightarrow> main_loop F Rs d = Inl Undefined
    | Some q \<Rightarrow> \<exists>left oks e. main_loop F Rs d = Inr (left, oks, e) \<and> poll_state e = q \<and> True \<notin> set oks"
proof -
  note s = started_daemon [OF assms(1-5)]
  then have "unmeasured d"
    using reachable_unmeasured [OF assms(6)] by (simp add: unmeasured_def daemon_wf_def)
  note loop = loop_implements [OF this assms(8,7), of F]
  have "\<not> g_mutex d" "\<not> g_time_synced d" using tl.reachable [OF assms(6)] s by (simp_all add: timeless_def)
  then show ?thesis using loop main_loop_never_synchronises [of d F Rs]
    by (auto simp: implements_def bindR_def split: option.splits sum.splits)
qed

text \<open>A daemon with one server: a silent round opens the socket and lets the server rest; a usable reply ends it.\<close>

lemma small_spec_turns:
  "spec_turn default_cli [(''192.0.2.1'', ''123'' @ newline)] (round_at 1000, 0) \<lparr>ps_next = [0], ps_sock = - 1\<rparr> =
     Some \<lparr>ps_next = [1015], ps_sock = 5\<rparr>"
  "spec_turn default_cli [(''192.0.2.1'', ''123'' @ newline)] (answered_round, 0) \<lparr>ps_next = [1015], ps_sock = 5\<rparr> = None"
proof -
  have sock: "get_sync_socket (sy_sock (good_env x)) default_cli k = (if 0 \<le> k then (k, k) else (5, 5))" for x k
    by (simp add: get_sync_socket_def network4_create_socket_def good_env_def default_cli_def)
  have silent: "\<not> usable_over (good_env None) ip port k" for ip port k
    by (simp add: good_env_def usable_over_def reply_over_def split: prod.split)
  have "reply_over (good_env (Some (hdr_bytes good_reply))) ''192.0.2.1'' (''123'' @ newline) 5 = Some (hdr_bytes good_reply)"
    by (simp add: reply_over_def port_123_line good_env_def del: append.simps)
  moreover have "sy_t1 (good_env x) = Some \<lparr>tv_sec = 1700000000, tv_nsec = 0\<rparr>" for x by (simp add: good_env_def)
  ultimately have used: "usable_over (good_env (Some (hdr_bytes good_reply))) ''192.0.2.1'' (''123'' @ newline) 5"
    using good_reply_usable by (simp add: usable_over_def del: append.simps)
  show "spec_turn default_cli [(''192.0.2.1'', ''123'' @ newline)] (round_at 1000, 0) \<lparr>ps_next = [0], ps_sock = - 1\<rparr> =
     Some \<lparr>ps_next = [1015], ps_sock = 5\<rparr>"
    by (simp add: spec_turn_def round_at_def silent_round_def sock silent Let_def del: append.simps)
  show "spec_turn default_cli [(''192.0.2.1'', ''123'' @ newline)] (answered_round, 0) \<lparr>ps_next = [1015], ps_sock = 5\<rparr> = None"
    using used by (simp add: spec_turn_def answered_round_def silent_round_def sock Let_def del: append.simps)
qed

lemma main_loop_refines_polling_witness:
  "\<exists>s e. start_threads small_site s = Inr (None, e) \<and>
     (\<exists>left oks e'. main_loop exact_fpu [round_at 1000] e = Inr (left, oks, e') \<and>
        poll_state e' = \<lparr>ps_next = [1015], ps_sock = 5\<rparr>) \<and>
     main_loop exact_fpu [round_at 1000, answered_round] e = Inl Undefined"
proof -
  obtain d1 d2 s where s: "load_server_config (mn_files small_site) (mn_mem small_site)
       (initial_daemon\<lparr>g_cli := default_cli, g_local_precision := - 20\<rparr>) = Inr (1, d1)"
     "init_modules exact_fpu small_site d1 = Inr (0, d2)" "start_threads small_site d2 = Inr (None, s)"
     "g_servers s = [server_entry (''192.0.2.1'', ''123'' @ newline)]" "g_cli s = default_cli" "g_sync_sock s = - 1"
    using small_site_runs by blast
  have ne: "g_servers s \<noteq> []" by (simp add: s(4))
  note run = main_loop_refines_polling [OF plain_arguments s(1) _ s(2,3) rtranclp.rtrancl_refl ne]
  have sane: "\<forall>R\<in>set [round_at 1000]. sane R" "\<forall>R\<in>set [round_at 1000, answered_round]. sane R"
    by (simp_all add: sane_def round_at_def answered_round_def silent_round_def)
  have start: "poll_state s = \<lparr>ps_next = [0], ps_sock = - 1\<rparr>" "endpoints s = [(''192.0.2.1'', ''123'' @ newline)]"
    by (simp_all add: poll_state_def endpoints_def s(4,6) del: append.simps)
  have turns: "turns (length (g_servers s)) (rounds_done default_cli [round_at 1000]) = [(round_at 1000, 0)]"
    "turns (length (g_servers s)) (rounds_done default_cli [round_at 1000, answered_round]) =
       [(round_at 1000, 0), (answered_round, 0)]"
    by (simp_all add: s(4) turns_def rounds_done_def default_cli_def round_at_def answered_round_def silent_round_def)
  have spec: "spec_run default_cli (endpoints s) [(round_at 1000, 0)] (poll_state s) = Some \<lparr>ps_next = [1015], ps_sock = 5\<rparr>"
    "spec_run default_cli (endpoints s) [(round_at 1000, 0), (answered_round, 0)] (poll_state s) = None"
    unfolding start spec_run.simps small_spec_turns Option.bind.simps by (rule refl)+
  show ?thesis
    using run [OF _ sane(1), unfolded s(5) turns spec option.case] run [OF _ sane(2), unfolded s(5) turns spec option.case]
      s(3) by (intro exI [of _ d2] exI [of _ s]) auto
qed

end
