(* ===== verification/Report.thy ===== *)
theory Report
  imports Autokey Packet Server
begin

section \<open>What is printed and logged (ido.c, autokey.c, ntp_packet.c, config.c)\<close>

text \<open>
  Texts that the program prints or sends to the system log, as strings: the state of a
  negotiation (\<open>ido_log_state\<close>, \<open>autokey_log_state\<close>), the capabilities and the extension fields
  that the walk of ntp_packet.c reports, and the help and version texts. The options that
  the help text announces are compared with those that \<open>parse_arguments\<close> understands.
\<close>

subsection \<open>Negotiation states\<close>

definition hex_upper :: "nat \<Rightarrow> char" where
  "hex_upper n = (if n < 10 then char_of (48 + n) else char_of (55 + n))"

text \<open>\<open>%0wX\<close>: at least \<open>w\<close> digits.\<close>

function hex_text :: "nat \<Rightarrow> nat \<Rightarrow> string" where
  "hex_text w n = (if w \<le> 1 \<and> n < 16 then [hex_upper n] else hex_text (w - 1) (n div 16) @ [hex_upper (n mod 16)])"
  by pat_completeness auto
termination by (relation "measure (\<lambda>(w, n). w + n)") auto

definition yes_no :: "u8 \<Rightarrow> string" where
  "yes_no b = (if b \<noteq> 0 then ''yes'' else ''no'')"

definition state_line :: "string \<Rightarrow> (u8 \<Rightarrow> string) \<Rightarrow> IdoState \<Rightarrow> string" where
  "state_line who name st =
     who @ '': State: '' @ name (ido_state st) @ '', Offer: '' @ yes_no (ido_offer_received st) @
     '', Response: '' @ yes_no (ido_response_sent st) @ '', Capabilities: 0x'' @
     hex_text 2 (unat (ido_capabilities st)) @ '', KeyID: '' @ decimal (unat (ido_key_id st)) @
     '', Authenticated: '' @ yes_no (ido_authenticated st)"

definition ido_log_state :: "IdoState option \<Rightarrow> string option" where
  "ido_log_state p = map_option (state_line ''I-DO/Autokey'' ido_state_name) p"

definition autokey_log_state :: "IdoState option \<Rightarrow> string option" where
  "autokey_log_state p = map_option (state_line ''Autokey'' autokey_state_name) p"

text \<open>The loop of \<open>skip_extension_fields\<close> that names the capabilities of a peer.\<close>

definition log_capabilities :: "IdoState \<Rightarrow> string list" where
  "log_capabilities st =
     (if 0 < ido_capabilities st then
        map (\<lambda>i. ''I-DO: Capability '' @ decimal i @ '': '' @ ido_capability_name (of_nat i))
          (filter (\<lambda>i. ido_capabilities st AND push_bit i 1 \<noteq> 0) [0..<8])
      else [])"

subsection \<open>Extension fields\<close>

abbreviation NTP_EF_NTS_UID_RESP :: u16 where "NTP_EF_NTS_UID_RESP \<equiv> 0x8104"
abbreviation NTP_EF_NTS_COOKIE :: u16 where "NTP_EF_NTS_COOKIE \<equiv> 0x0204"
abbreviation NTP_EF_NTS_COOKIE_PH :: u16 where "NTP_EF_NTS_COOKIE_PH \<equiv> 0x0304"
abbreviation NTP_EF_NTS_AEEF_REQ :: u16 where "NTP_EF_NTS_AEEF_REQ \<equiv> 0x0404"

definition extension_field_name :: "u16 \<Rightarrow> u16 \<Rightarrow> string" where
  "extension_field_name typ len =
     (if typ = NTP_EF_CRYPTO_NAK then ''Crypto-NAK (Authentication Failure)''
      else if typ = NTP_EF_MAC then ''Legacy MAC''
      else if typ = NTP_EF_I_DO_OFFER then ''I-DO Offer''
      else if typ = NTP_EF_I_DO_RESPONSE then ''I-DO Response''
      else if typ = NTP_EF_LAST_EF then ''LAST-EF (End of Extension Fields)''
      else if typ = NTP_EF_CHECKSUM_COMP then ''Checksum Complement''
      else if typ = NTP_EF_NTS_UID_REQ then ''NTS Unique Identifier Request''
      else if typ = NTP_EF_NTS_UID_RESP then ''NTS Unique Identifier Response''
      else if typ = NTP_EF_NTS_COOKIE then ''NTS Cookie''
      else if typ = NTP_EF_NTS_COOKIE_PH then ''NTS Cookie Placeholder''
      else if typ = NTP_EF_NTS_AEEF_REQ then ''NTS AEEF Request''
      else if typ = NTP_EF_NTS_AEEF_RESP then ''NTS AEEF Response''
      else if typ = 0 \<and> len = 2 then ''Kiss-o'-Death (KOD)''
      else ''Unknown'')"

definition log_extension_field :: "u16 \<Rightarrow> u16 \<Rightarrow> nat \<Rightarrow> string" where
  "log_extension_field typ len pos =
     ''Extension field: type=0x'' @ hex_text 4 (unat typ) @ '' ('' @ extension_field_name typ len @
     ''), len='' @ decimal (unat len) @ '', pos='' @ decimal pos"

text \<open>The three functions that are to process the fields of NTS, and the choice between them.\<close>

definition process_nts_uid :: string where
  "process_nts_uid = ''Processing NTS Unique Identifier field''"

definition process_nts_cookie :: string where
  "process_nts_cookie = ''Processing NTS Cookie field''"

definition process_nts_aeef :: string where
  "process_nts_aeef = ''Processing NTS AEEF field''"

definition process_nts :: "u16 \<Rightarrow> string option" where
  "process_nts field_type =
     (if field_type = NTP_EF_NTS_UID_REQ \<or> field_type = NTP_EF_NTS_UID_RESP then Some process_nts_uid
      else if field_type = NTP_EF_NTS_COOKIE then Some process_nts_cookie
      else if field_type = NTP_EF_NTS_AEEF_REQ \<or> field_type = NTP_EF_NTS_AEEF_RESP then Some process_nts_aeef
      else None)"

subsection \<open>Help and version\<close>

abbreviation VERSION :: string where "VERSION \<equiv> ''1.0.0''"

definition help_lines :: "string list" where
  "help_lines =
    [''  -h, --help         Show this help message'',
     ''  -v, --version      Show version information'',
     ''  -V, --verbose      Verbose output (same as -v)'',
     ''  -c, --config=FILE  Config file path (default: /etc/dntpd/dntpd.conf)'',
     ''  -f, --foreground   Run in foreground (don't daemonize)'',
     ''  -n, --no-daemonize Same as -f (run in foreground)'',
     ''  -d, --debug        Enable debug mode'',
     ''  -D, --debug=LEVEL  Set debug level (0-'' @ signed_decimal MAX_DEBUG_LEVEL @ '')'',
     ''  -l, --log=FILE     Log file path'',
     ''  -t, --timeout=SEC  Sync timeout in seconds ('' @ signed_decimal MIN_TIMEOUT_SEC @ ''-'' @
       signed_decimal MAX_TIMEOUT_SEC @ '', default: '' @ signed_decimal SYNC_INTERVAL_SECONDS @ '')'',
     ''  -q, --quit         Quit after first sync (testing)'',
     ''  -I, --interface=IF Use specific network interface'',
     ''  -4, --ipv4        Use IPv4 only (default: dual-stack)'',
     ''  -6, --ipv6        Use IPv6 only'',
     ''  -b, --broadcast   Enable broadcast mode (RFC 5905)'',
     ''  -B, --broadcast-addr=IP  Broadcast address (default: 255.255.255.255)'',
     ''  -u, --user=USER    Run as specified user'',
     ''  -p, --pid=FILE     PID file path (default: /var/run/dntpd.pid)'']"

definition help_autokey_lines :: "string list" where
  "help_autokey_lines =
    [''  -k, --key=FILE     Key file path (default: /etc/ntp/keys/autokey.key)'',
     ''  -K, --key-id=ID    Key ID (default: 0)'',
     ''  -L, --key-length=LEN  Key length in bits (default: 128)'',
     ''  -C, --crypto=LIB   Crypto library: libgcrypt|openssl (default: libgcrypt)'',
     ''  --storage=TYPE     Key storage: RAM|FILE|BOTH (default: BOTH)'']"

definition print_usage :: "string \<Rightarrow> string list" where
  "print_usage prog =
     [''DNTPD v'' @ VERSION @ '' - Dragon NTP Server (RFC 5905/5906/8915 compliant)'', [],
      ''Usage: '' @ prog @ '' [OPTIONS]'', [], ''Options:''] @ help_lines @
     [[], ''Autokey Options (RFC 5906):''] @ help_autokey_lines @ [[]]"

definition print_version :: "string \<Rightarrow> string \<Rightarrow> string list" where
  "print_version build_date build_time =
     [''dntpd '' @ VERSION @ '' - Dragon NTP Server (RFC 5905)'', ''Built: '' @ build_date @ '' '' @ build_time]"

subsection \<open>Announced and understood options\<close>

text \<open>The words of a help line up to the first that is no option, without commas.\<close>

function announced :: "string \<Rightarrow> string list" where
  "announced line =
     (let l = skip_space line; w = takeWhile (\<lambda>c. c \<noteq> CHR '' '') l
      in if w \<noteq> [] \<and> hd w = CHR ''-''
         then filter (\<lambda>c. c \<noteq> CHR '','') w # announced (drop (length w) l) else [])"
  by pat_completeness auto
termination
proof (relation "measure length", goal_cases)
  case (2 line l w)
  have "length l \<le> length line" "length w \<le> length l"
    using 2(1,2) by (simp_all add: skip_space_def length_dropWhile_le length_takeWhile_le)
  moreover have "0 < length w" using 2(3) by simp
  ultimately have "length l - length w < length line" by linarith
  then show ?case by simp
qed simp

declare announced.simps [simp del]

text \<open>An option with the value 1, where it takes one.\<close>

definition with_value :: "string \<Rightarrow> string" where
  "with_value w = (if from_char (CHR ''='') w = [] then w else cut_at (CHR ''='') w @ ''=1'')"

definition understood :: "string \<Rightarrow> bool" where
  "understood w \<longleftrightarrow>
     fst (parse_arguments [''dntpd'', with_value w] default_cli) \<noteq> - 1 \<or>
     fst (parse_arguments [''dntpd'', with_value w, ''1''] default_cli) \<noteq> - 1"



lemma announced_options:
  "concat (map announced help_lines) =
    [''-h'', ''--help'', ''-v'', ''--version'', ''-V'', ''--verbose'', ''-c'',
     ''--config=FILE'', ''-f'', ''--foreground'', ''-n'', ''--no-daemonize'', ''-d'',
     ''--debug'', ''-D'', ''--debug=LEVEL'', ''-l'', ''--log=FILE'', ''-t'',
     ''--timeout=SEC'', ''-q'', ''--quit'', ''-I'', ''--interface=IF'', ''-4'',
     ''--ipv4'', ''-6'', ''--ipv6'', ''-b'', ''--broadcast'', ''-B'',
     ''--broadcast-addr=IP'', ''-u'', ''--user=USER'', ''-p'', ''--pid=FILE'']"
  by (simp add: help_lines_def announced.simps skip_space_def is_space_def)

lemma announced_autokey_options:
  "concat (map announced help_autokey_lines) =
    [''-k'', ''--key=FILE'', ''-K'', ''--key-id=ID'', ''-L'', ''--key-length=LEN'', ''-C'',
     ''--crypto=LIB'', ''--storage=TYPE'']"
  by (simp add: help_autokey_lines_def announced.simps skip_space_def is_space_def)

lemmas option_defs = understood_def with_value_def from_char_def cut_at_def parse_arguments_def parse_arg_def
  starts_def strn_eq_def string_opt_def opt_value_def int_opt_def parse_positive_int_def strtoll_def
  scan_number_def skip_space_def is_space_def is_digit_def digits_val_def digit_val_def default_cli_def

lemma autokey_options_refused:
  "filter understood [''-k'', ''--key=FILE'', ''-K'', ''--key-id=ID'', ''-L'', ''--key-length=LEN'', ''-C'',
     ''--crypto=LIB'', ''--storage=TYPE''] = []"
  by (simp add: option_defs)

lemma options_refused:
  "filter (\<lambda>w. \<not> understood w)
    [''-h'', ''--help'', ''-v'', ''--version'', ''-V'', ''--verbose'', ''-c'',
     ''--config=FILE'', ''-f'', ''--foreground'', ''-n'', ''--no-daemonize'', ''-d'',
     ''--debug'', ''-D'', ''--debug=LEVEL'', ''-l'', ''--log=FILE'', ''-t'',
     ''--timeout=SEC'', ''-q'', ''--quit'', ''-I'', ''--interface=IF'', ''-4'',
     ''--ipv4'', ''-6'', ''--ipv6'', ''-b'', ''--broadcast'', ''-B'',
     ''--broadcast-addr=IP'', ''-u'', ''--user=USER'', ''-p'', ''--pid=FILE''] = [''-B'', ''--user=USER'']"
  by (simp add: option_defs)

text \<open>
  The help text announces options that the program refuses: the short form of the broadcast
  address, the long form of the user, and everything about Autokey. All others it understands.
\<close>

theorem help_announces_unknown_options:
  "filter (\<lambda>w. \<not> understood w) (concat (map announced (print_usage prog))) =
    [''-B'', ''--user=USER'', ''-k'', ''--key=FILE'', ''-K'', ''--key-id=ID'', ''-L'', ''--key-length=LEN'',
     ''-C'', ''--crypto=LIB'', ''--storage=TYPE'']"
proof -
  have no: "announced [] = []" "announced (CHR ''D'' # cs) = []" "announced (CHR ''U'' # cs) = []"
    "announced (CHR ''O'' # cs) = []" "announced (CHR ''A'' # cs) = []" for cs
    by (simp_all add: announced.simps skip_space_def is_space_def)
  have e1: "concat (map announced (print_usage prog)) =
      concat (map announced help_lines) @ concat (map announced help_autokey_lines)"
    by (simp add: print_usage_def no)
  have e2: "filter (\<lambda>w. \<not> understood w) (concat (map announced help_autokey_lines)) =
      concat (map announced help_autokey_lines)"
    using autokey_options_refused by (simp add: announced_autokey_options split: if_splits)
  show ?thesis
    unfolding e1 filter_append e2
    unfolding announced_options announced_autokey_options options_refused by simp
qed

text \<open>
  The log names no capability right: the number of a bit is taken for the flag, so bit 0, the
  offer, is unknown, bit 1, the response, is called the offer, and bit 2 the response.
\<close>

theorem capability_log_is_shifted:
  assumes "i < 3" "ido_capabilities st = push_bit i 1"
  shows "log_capabilities st = [''I-DO: Capability '' @ decimal i @ '': '' @ ido_capability_name (of_nat i)] \<and>
    ido_capability_name (of_nat i) \<noteq> ido_capability_name (ido_capabilities st)"
proof -
  have bits: "[0..<8] = [0, 1, 2, 3, 4, 5, 6, 7 :: nat]" by (simp add: upt_rec)
  have i: "i = 0 \<or> i = 1 \<or> i = 2" using assms(1) by auto
  then have "filter (\<lambda>j. (push_bit i 1 :: u8) AND push_bit j 1 \<noteq> 0) [0..<8] = [i]"
    unfolding bits by (elim disjE) simp_all
  then have "log_capabilities st = [''I-DO: Capability '' @ decimal i @ '': '' @ ido_capability_name (of_nat i)]"
    using i unfolding log_capabilities_def assms(2) by (auto simp del: append.simps)
  moreover have "ido_capability_name (of_nat i) \<noteq> ido_capability_name (push_bit i 1)"
    using i by (elim disjE) (simp_all add: ido_capability_name_def)
  ultimately show ?thesis by (simp only: assms(2)) simp
qed

lemma capability_log_is_shifted_witness:
  "log_capabilities (ido_zero\<lparr>ido_capabilities := 2\<rparr>) = [''I-DO: Capability '' @ decimal 1 @ '': IDO_CAP_OFFER'']"
  using capability_log_is_shifted [of 1 "ido_zero\<lparr>ido_capabilities := 2\<rparr>"]
  by (simp add: ido_capability_name_def)

text \<open>The walk would take many other types for NTS: of those between the first and the last only
  five do anything.\<close>

lemma process_nts_only:
  "process_nts t \<noteq> None \<longleftrightarrow> t \<in> {0x0104, 0x8104, 0x0204, 0x0404, 0x8404}"
  by (simp add: process_nts_def) 

lemma log_line_example:
  "log_extension_field 0x0104 16 48 =
     ''Extension field: type=0x0104 (NTS Unique Identifier Request), len=16, pos=48''"
  by code_simp

lemma state_line_example:
  "ido_log_state (Some (ido_zero\<lparr>ido_state := 1, ido_offer_received := 1, ido_capabilities := 0x2A\<rparr>)) =
     Some ''I-DO/Autokey: State: OFFER_RECEIVED, Offer: yes, Response: no, Capabilities: 0x2A, KeyID: 0, Authenticated: no''"
  by code_simp

end
